(* ===== verification/Prelude.thy ===== *)
theory Prelude
  imports Main "HOL-Library.Multiset"
begin

text \<open>
  What the components share: the outcome of a Go function (a value, an error or a panic) with its
  sequencing, the error values the program builds and inspects, and generic lemmas on lists, maps
  and folds.
\<close>

section \<open>Errors and outcomes\<close>

text \<open>
  The error values. \<open>ErrRecordNotFound\<close> is gorm's sentinel, \<open>PgUniqueViolation\<close> the driver's error
  with code 23505, \<open>External\<close> any other error that comes from outside the program;
  \<open>Errorf\<close> is an error the program makes itself, \<open>Wrap\<close> one that keeps its cause, and
  \<open>DuplicateKey\<close> the program's own wrapper type of package database.
\<close>

datatype gerror =
    ErrRecordNotFound
  | PgUniqueViolation
  | External string
  | Errorf string
  | Wrap string gerror
  | DuplicateKey gerror

text \<open>
  A Go function of the program returns a value, returns an error, or panics (a nil
  dereference, an explicit \<open>panic\<close>).
\<close>

datatype 'a outcome = Ret 'a | Fail gerror | Panic string

fun and_then :: "'a outcome \<Rightarrow> ('a \<Rightarrow> 'b outcome) \<Rightarrow> 'b outcome" where
  "and_then (Ret x) f = f x"
| "and_then (Fail e) f = Fail e"
| "and_then (Panic m) f = Panic m"

lemma and_then_Ret_iff [simp]:
  "and_then m f = Ret y \<longleftrightarrow> (\<exists>x. m = Ret x \<and> f x = Ret y)"
  by (cases m) auto

lemma and_then_cong [fundef_cong]:
  "m = m' \<Longrightarrow> (\<And>x. m' = Ret x \<Longrightarrow> f x = f' x) \<Longrightarrow> and_then m f = and_then m' f'"
  by (cases m) auto

text \<open>Replace the error of a failing call, as \<open>if err != nil { return wrap(err) }\<close> does.\<close>

fun map_fail :: "(gerror \<Rightarrow> gerror) \<Rightarrow> 'a outcome \<Rightarrow> 'a outcome" where
  "map_fail f (Ret x) = Ret x"
| "map_fail f (Fail e) = Fail (f e)"
| "map_fail f (Panic m) = Panic m"

lemma map_fail_Ret_iff [simp]: "map_fail f m = Ret x \<longleftrightarrow> m = Ret x"
  by (cases m) auto

text \<open>Run a fallible function over a list, stopping at the first error or panic.\<close>

fun map_outcome :: "('a \<Rightarrow> 'b outcome) \<Rightarrow> 'a list \<Rightarrow> 'b list outcome" where
  "map_outcome f [] = Ret []"
| "map_outcome f (x # xs) =
     and_then (f x) (\<lambda>y. and_then (map_outcome f xs) (\<lambda>ys. Ret (y # ys)))"

lemma map_outcome_Ret_iff:
  "map_outcome f xs = Ret ys \<longleftrightarrow> list_all2 (\<lambda>x y. f x = Ret y) xs ys"
  by (induction xs arbitrary: ys) (auto simp: list_all2_Cons1)

lemma map_outcome_all_Ret: "(\<And>x. x \<in> set xs \<Longrightarrow> f x = Ret (g x)) \<Longrightarrow> map_outcome f xs = Ret (map g xs)"
  by (induction xs) auto

section \<open>Maps built by a loop over a list\<close>

text \<open>
  Several loops of the program build a map from a list: the element's key is looked up, and the
  element replaces the entry when there is none or when it is better than the one found.
\<close>

fun best_map :: "('a \<Rightarrow> 'k) \<Rightarrow> ('a \<Rightarrow> 'a \<Rightarrow> bool) \<Rightarrow> 'a list \<Rightarrow> ('k \<rightharpoonup> 'a) \<Rightarrow> ('k \<rightharpoonup> 'a)" where
  "best_map key better [] m = m"
| "best_map key better (x # xs) m =
     best_map key better xs
       (case m (key x) of
          None \<Rightarrow> m(key x \<mapsto> x)
        | Some prev \<Rightarrow> m(key x \<mapsto> (if better x prev then x else prev)))"

lemma best_map_append:
  "best_map key better (xs @ ys) m = best_map key better ys (best_map key better xs m)"
  by (induction xs arbitrary: m) auto

lemma best_map_None_iff: "best_map key better xs m k = None \<longleftrightarrow> m k = None \<and> k \<notin> key ` set xs"
  by (induction xs arbitrary: m) (auto split: option.splits)

lemma find_append:
  "List.find p (xs @ ys) = (case List.find p xs of None \<Rightarrow> List.find p ys | Some x \<Rightarrow> Some x)"
  by (induction xs) auto

text \<open>An element of the list that no element with the same key beats.\<close>

definition unbeaten :: "('a \<Rightarrow> 'k) \<Rightarrow> ('a \<Rightarrow> 'a \<Rightarrow> bool) \<Rightarrow> 'a list \<Rightarrow> 'k \<Rightarrow> 'a \<Rightarrow> bool" where
  "unbeaten key better xs k x \<longleftrightarrow> key x = k \<and> (\<forall>y \<in> set xs. key y = k \<longrightarrow> \<not> better y x)"

text \<open>
  The interface between such a loop and the order it uses. For a strict weak order
  the loop's entry is the first element of the list that no element with its key beats.
\<close>

locale preference =
  fixes better :: "'a \<Rightarrow> 'a \<Rightarrow> bool"
  assumes asym: "better x y \<Longrightarrow> \<not> better y x"
    and neg_trans: "\<not> better x y \<Longrightarrow> \<not> better y z \<Longrightarrow> \<not> better x z"
begin

lemma irrefl: "\<not> better x x"
  using asym by blast

lemma trans: "better x y \<Longrightarrow> better y z \<Longrightarrow> better x z"
  using asym neg_trans by blast

lemma best_map_find:
  "best_map key better xs Map.empty k = List.find (unbeaten key better xs k) xs"
proof (induction xs rule: rev_induct)
  case Nil
  then show ?case by simp
next
  case (snoc z xs)
  let ?m = "best_map key better xs Map.empty"
  show ?case
  proof (cases "key z = k")
    case False
    then have "unbeaten key better (xs @ [z]) k x = unbeaten key better xs k x" for x
      by (auto simp: unbeaten_def)
    with False snoc.IH show ?thesis
      by (auto simp: best_map_append find_append unbeaten_def split: option.splits)
  next
    case True
    show ?thesis
    proof (cases "?m k")
      case None
      then have "key y \<noteq> k" if "y \<in> set xs" for y
        using that by (auto simp: best_map_None_iff)
      then have "List.find (unbeaten key better (xs @ [z]) k) xs = None"
        and "unbeaten key better (xs @ [z]) k z"
        using True irrefl by (fastforce simp: find_None_iff unbeaten_def)+
      with None True show ?thesis by (simp add: best_map_append find_append)
    next
      case (Some prev)
      with snoc.IH have prev: "List.find (unbeaten key better xs k) xs = Some prev" by simp
      then have up: "unbeaten key better xs k prev" by (auto simp: find_Some_iff)
      show ?thesis
      proof (cases "better z prev")
        case True
        have "\<not> unbeaten key better (xs @ [z]) k x" if "x \<in> set xs" for x
          using that up True \<open>key z = k\<close> neg_trans [of z x prev] by (auto simp: unbeaten_def)
        then have "List.find (unbeaten key better (xs @ [z]) k) xs = None"
          by (auto simp: find_None_iff)
        moreover have "unbeaten key better (xs @ [z]) k z"
          using up True \<open>key z = k\<close> irrefl asym [OF True] neg_trans [of _ prev z]
          by (auto simp: unbeaten_def)
        ultimately show ?thesis using Some True \<open>key z = k\<close>
          by (simp add: best_map_append find_append)
      next
        case False
        then have "List.find (unbeaten key better (xs @ [z]) k) xs = Some prev"
          using prev up by (auto simp: find_Some_iff unbeaten_def)
        with Some False \<open>key z = k\<close> show ?thesis
          by (simp add: best_map_append find_append)
      qed
    qed
  qed
qed

lemma best_map_Some:
  assumes "best_map key better xs Map.empty k = Some x"
  shows "x \<in> set xs \<and> unbeaten key better xs k x"
  using assms by (auto simp: best_map_find find_Some_iff)

end

end
