(* ===== verification/GoFloat.thy ===== *)
theory GoFloat
  imports Complex_Main "HOL-Library.Word"
begin

text \<open>
  The numbers of the program: Go's \<open>int\<close> (64 bits, two's complement) and \<open>float64\<close>
  (IEEE-754 binary64, round to nearest, ties to even), with the operations the scoring code uses:
  conversion, \<open>+\<close>, \<open>-\<close>, \<open>*\<close>, \<open>/\<close>, comparison, \<open>math.Max\<close> and the truncating conversion
  back to \<open>int\<close>. Each operation rounds once, as on amd64, where the compiler does not fuse
  a multiplication with an addition. A finite value is the rational number it denotes; the two
  zeros are one value, because no divisor in the program can be a negative zero and no other
  operation used here tells them apart.

  \<open>round64\<close> is the rounding. The locale \<open>rounding\<close> states the laws of a rounding that the bounds on
  scores need and proves those bounds from the laws alone; its interpretation \<open>r64\<close> discharges
  the laws for \<open>round64\<close>.
\<close>

section \<open>Rounding a rational number to 53 significant bits\<close>

text \<open>The length of the binary representation of a positive integer.\<close>

function bit_len :: "int \<Rightarrow> int" where
  "bit_len n = (if n \<le> 0 then 0 else 1 + bit_len (n div 2))"
  by pat_completeness auto
termination
  by (relation "measure nat") auto

declare bit_len.simps [simp del]

lemma bit_len_nonneg: "0 \<le> bit_len n"
proof (induction n rule: bit_len.induct)
  case (1 n)
  then show ?case by (subst bit_len.simps) (cases "n \<le> 0"; simp)
qed

lemma bit_len_bounds: "0 < n \<Longrightarrow> 1 \<le> bit_len n \<and> (2::rat) powi (bit_len n - 1) \<le> of_int n \<and> of_int n < (2::rat) powi bit_len n"
proof (induction n rule: bit_len.induct)
  case (1 n)
  show ?case
  proof (cases "n = 1")
    case True
    have "bit_len (1::int) = 1" by (simp add: bit_len.simps [of 1] bit_len.simps [of 0])
    with True show ?thesis by simp
  next
    case False
    let ?m = "n div 2"
    from False 1 have m: "0 < ?m" by simp
    from False 1 have eq: "bit_len n = 1 + bit_len ?m" by (subst bit_len.simps) simp
    from 1 m have IH: "1 \<le> bit_len ?m" "(2::rat) powi (bit_len ?m - 1) \<le> of_int ?m"
      "of_int ?m < (2::rat) powi bit_len ?m" by auto
    have low: "(2::rat) powi (bit_len n - 1) = 2 * 2 powi (bit_len ?m - 1)"
      using eq power_int_add [of "2::rat" 1 "bit_len ?m - 1"] by simp
    have "(2::rat) * of_int ?m \<le> of_int n"
    proof -
      have "2 * ?m \<le> n" by simp
      then have "of_int (2 * ?m) \<le> (of_int n :: rat)" by (simp only: of_int_le_iff)
      then show ?thesis by simp
    qed
    with low IH have l: "(2::rat) powi (bit_len n - 1) \<le> of_int n" by linarith
    have "bit_len ?m \<ge> 0" by (rule bit_len_nonneg)
    then have "(2::rat) powi bit_len ?m = of_int (2 ^ nat (bit_len ?m))" by (simp add: power_int_def)
    with IH have "?m < 2 ^ nat (bit_len ?m)" by (metis of_int_less_iff)
    then have "n < 2 * 2 ^ nat (bit_len ?m)" by simp
    then have "(of_int n :: rat) < of_int (2 * 2 ^ nat (bit_len ?m))" by (simp only: of_int_less_iff)
    moreover have "(2::rat) powi bit_len n = 2 * 2 powi bit_len ?m"
      using eq power_int_add [of "2::rat" 1 "bit_len ?m"] by simp
    ultimately have "of_int n < (2::rat) powi bit_len n"
      using \<open>(2::rat) powi bit_len ?m = of_int (2 ^ nat (bit_len ?m))\<close> by simp
    with l IH eq show ?thesis by simp
  qed
qed

text \<open>
  The exponent of the last place of a number: 52 below its leading bit, and not below the
  exponent of the least subnormal number.
\<close>

definition norm_exp :: "rat \<Rightarrow> int \<Rightarrow> int" where
  "norm_exp r k = (if 2 powi k \<le> r then max (k - 52) (-1074) else max (k - 53) (-1074))"

definition ulp_exp :: "rat \<Rightarrow> int" where
  "ulp_exp r =
     (if r = 0 then -1074
      else case quotient_of \<bar>r\<bar> of (n, d) \<Rightarrow> norm_exp \<bar>r\<bar> (bit_len n - bit_len d))"

lemma powi2_mono: "i \<le> j \<Longrightarrow> (2::rat) powi i \<le> 2 powi j"
  by (rule power_int_increasing) auto

lemma powi2_pos: "0 < (2::rat) powi i"
  by simp

lemma powi2_less: "i < j \<Longrightarrow> (2::rat) powi i < 2 powi j"
  by (rule power_int_strict_increasing) auto

lemma powi2_lessD: "(2::rat) powi i < 2 powi j \<Longrightarrow> i < j"
  using powi2_mono [of j i] by (meson not_le)

lemma powi2_add: "(2::rat) powi (i + j) = 2 powi i * 2 powi j"
  by (rule power_int_add) simp

lemma fraction_bounds:
  assumes n: "0 < n" and d: "0 < d" and r: "r = of_int n / of_int d"
  shows "(2::rat) powi (bit_len n - bit_len d - 1) < r \<and> r < 2 powi (bit_len n - bit_len d + 1)"
proof -
  note bn = bit_len_bounds [OF n] and bd = bit_len_bounds [OF d]
  have "(2::rat) powi (bit_len n - 1) / 2 powi bit_len d < of_int n / of_int d"
    using bn bd d n by (intro frac_less2) auto
  moreover have "(2::rat) powi (bit_len n - 1) / 2 powi bit_len d = 2 powi (bit_len n - bit_len d - 1)"
    by (simp flip: power_int_diff) (simp add: algebra_simps)
  moreover have "(of_int n :: rat) / of_int d < 2 powi bit_len n / 2 powi (bit_len d - 1)"
    using bn bd d n by (intro frac_less) auto
  moreover have "(2::rat) powi bit_len n / 2 powi (bit_len d - 1) = 2 powi (bit_len n - bit_len d + 1)"
    by (simp flip: power_int_diff) (simp add: algebra_simps)
  ultimately show ?thesis using r by simp
qed

text \<open>The exponent \<open>e\<close> of the last place of \<open>r\<close>.\<close>

definition last_place :: "rat \<Rightarrow> int \<Rightarrow> bool" where
  "last_place r e \<longleftrightarrow>
     -1074 \<le> e \<and> \<bar>r\<bar> < 2 powi (53 + e) \<and> (e = -1074 \<or> 2 powi (52 + e) \<le> \<bar>r\<bar>)"

lemma last_place_mono:
  assumes "last_place r e" "last_place s f" "\<bar>r\<bar> \<le> \<bar>s\<bar>" shows "e \<le> f"
proof (rule ccontr)
  assume "\<not> e \<le> f"
  with assms have "2 powi (52 + e) \<le> \<bar>r\<bar>" by (auto simp: last_place_def)
  moreover have "(2::rat) powi (53 + f) \<le> 2 powi (52 + e)"
    using \<open>\<not> e \<le> f\<close> by (intro powi2_mono) simp
  ultimately show False using assms by (auto simp: last_place_def)
qed

lemma last_place_unique: "last_place r e \<Longrightarrow> last_place r f \<Longrightarrow> e = f"
  using last_place_mono [of r e r f] last_place_mono [of r f r e] by simp

lemma last_place_fraction:
  assumes "0 < n" "0 < d" and r: "\<bar>r\<bar> = of_int n / of_int d"
  shows "last_place r (norm_exp \<bar>r\<bar> (bit_len n - bit_len d))"
proof -
  let ?k = "bit_len n - bit_len d"
  from fraction_bounds [OF assms]
  have b: "2 powi (?k - 1) < \<bar>r\<bar>" "\<bar>r\<bar> < 2 powi (?k + 1)" by simp_all
  define e where "e = (if 2 powi ?k \<le> \<bar>r\<bar> then ?k else ?k - 1)"
  have e: "2 powi e \<le> \<bar>r\<bar>" "\<bar>r\<bar> < 2 powi (e + 1)"
    using b by (auto simp: e_def)
  have u: "norm_exp \<bar>r\<bar> ?k = max (e - 52) (-1074)"
    by (simp add: norm_exp_def e_def)
  have "e + 1 \<le> 53 + max (e - 52) (-1074)" by simp
  from powi2_mono [OF this] e(2) have "\<bar>r\<bar> < 2 powi (53 + max (e - 52) (-1074))" by linarith
  with e(1) show ?thesis unfolding last_place_def u by (auto simp: max_def)
qed

lemma last_place_ulp_exp: "last_place r (ulp_exp r)"
proof (cases "r = 0")
  case True
  then show ?thesis by (simp add: ulp_exp_def last_place_def)
next
  case False
  obtain n d where q: "quotient_of \<bar>r\<bar> = (n, d)" by fastforce
  from q have d: "0 < d" by (rule quotient_of_denom_pos)
  from q have r: "\<bar>r\<bar> = of_int n / of_int d" by (rule quotient_of_div)
  moreover have "0 < \<bar>r\<bar>" using False by simp
  ultimately have "0 < n" using d by (simp add: zero_less_divide_iff)
  from last_place_fraction [OF this d r] show ?thesis
    using False q by (simp add: ulp_exp_def)
qed

lemma ulp_exp_ge: "-1074 \<le> ulp_exp r"
  using last_place_ulp_exp [of r] by (simp add: last_place_def)

lemma ulp_exp_spec:
  "\<bar>r\<bar> < 2 powi (53 + ulp_exp r) \<and> (ulp_exp r = -1074 \<or> 2 powi (52 + ulp_exp r) \<le> \<bar>r\<bar>)"
  using last_place_ulp_exp [of r] by (simp add: last_place_def)

text \<open>The exponent is monotone in the magnitude.\<close>

lemma ulp_exp_mono: "\<bar>r\<bar> \<le> \<bar>s\<bar> \<Longrightarrow> ulp_exp r \<le> ulp_exp s"
  by (rule last_place_mono [OF last_place_ulp_exp last_place_ulp_exp])

subsection \<open>Round half to even\<close>

definition half_even :: "int \<Rightarrow> rat \<Rightarrow> int" where
  "half_even q f =
     (if f < 1/2 then q else if 1/2 < f then q + 1 else if even q then q else q + 1)"

definition round_even :: "rat \<Rightarrow> int" where
  "round_even x = half_even \<lfloor>x\<rfloor> (x - of_int \<lfloor>x\<rfloor>)"

lemma round_even_of_int [simp]: "round_even (of_int i) = i"
  by (simp add: round_even_def half_even_def)

lemma round_even_near: "\<bar>of_int (round_even x) - x\<bar> \<le> 1/2"
  unfolding round_even_def half_even_def
  using floor_correct [of x] by auto

lemma round_even_mono:
  assumes "x \<le> y" shows "round_even x \<le> round_even y"
proof (cases "\<lfloor>x\<rfloor> = \<lfloor>y\<rfloor>")
  case True
  with assms show ?thesis by (auto simp: round_even_def half_even_def)
next
  case False
  with floor_mono [OF assms] have "\<lfloor>x\<rfloor> + 1 \<le> \<lfloor>y\<rfloor>" by simp
  then show ?thesis by (auto simp: round_even_def half_even_def)
qed

definition round_at :: "rat \<Rightarrow> rat \<Rightarrow> rat" where
  "round_at r u = of_int (round_even (r / u)) * u"

definition round64 :: "rat \<Rightarrow> rat" where
  "round64 r = round_at r (2 powi ulp_exp r)"

lemma round64_0 [simp]: "round64 0 = 0"
  using round_even_of_int [of 0] by (simp add: round64_def round_at_def)

lemma round_at_error:
  assumes "0 < u" shows "\<bar>round_at r u - r\<bar> \<le> u / 2"
proof -
  have "round_at r u - r = (of_int (round_even (r / u)) - r / u) * u"
    using assms by (simp add: round_at_def left_diff_distrib)
  then have "\<bar>round_at r u - r\<bar> = \<bar>of_int (round_even (r / u)) - r / u\<bar> * u"
    using assms by (simp add: abs_mult)
  also have "\<dots> \<le> 1/2 * u"
    using assms by (intro mult_right_mono [OF round_even_near]) simp
  finally show ?thesis by simp
qed

lemma round64_error: "\<bar>round64 r - r\<bar> \<le> 2 powi ulp_exp r / 2"
  unfolding round64_def by (rule round_at_error) simp


lemma round_even_le_of_int: "x \<le> of_int i \<Longrightarrow> round_even x \<le> i"
  using round_even_mono [of x "of_int i"] by simp

lemma round_even_ge_of_int: "of_int i \<le> x \<Longrightarrow> i \<le> round_even x"
  using round_even_mono [of "of_int i" x] by simp

lemma round_even_minus: "round_even (- x) = - round_even x"
proof (cases "of_int \<lfloor>x\<rfloor> = x")
  case True
  then obtain i where "x = of_int i" by metis
  then show ?thesis using round_even_of_int [of "- i"] by simp
next
  case False
  with of_int_floor_le [of x] have "of_int \<lfloor>x\<rfloor> < x" by linarith
  then have "\<lfloor>- x\<rfloor> = - \<lfloor>x\<rfloor> - 1"
    using floor_correct [of x] by (intro floor_unique) auto
  then show ?thesis by (auto simp: round_even_def half_even_def)
qed

lemma ulp_exp_minus [simp]: "ulp_exp (- r) = ulp_exp r"
  by (simp add: ulp_exp_def)

lemma round64_minus: "round64 (- r) = - round64 r"
  using round_even_minus [of "r / 2 powi ulp_exp r"] by (simp add: round64_def round_at_def)

lemma round64_nonneg: "0 \<le> r \<Longrightarrow> 0 \<le> round64 r"
  using round_even_ge_of_int [of 0 "r / 2 powi ulp_exp r"] by (simp add: round64_def round_at_def)

lemma round_at_mono: "0 < u \<Longrightarrow> r \<le> s \<Longrightarrow> round_at r u \<le> round_at s u"
  by (simp add: round_at_def round_even_mono divide_right_mono)

lemma round64_le_pow:
  assumes "0 \<le> r" shows "round64 r \<le> 2 powi (53 + ulp_exp r)"
proof -
  have "r / 2 powi ulp_exp r \<le> of_int (2 ^ 53)"
    using ulp_exp_spec [of r] assms by (simp add: powi2_add field_simps)
  from round_even_le_of_int [OF this]
  have "(of_int (round_even (r / 2 powi ulp_exp r)) :: rat) \<le> of_int (2 ^ 53)"
    by (simp only: of_int_le_iff)
  then show ?thesis by (simp add: round64_def round_at_def powi2_add)
qed

lemma round64_ge_pow:
  assumes "0 \<le> r" "ulp_exp r \<noteq> -1074" shows "2 powi (52 + ulp_exp r) \<le> round64 r"
proof -
  have "of_int (2 ^ 52) \<le> r / 2 powi ulp_exp r"
    using ulp_exp_spec [of r] assms by (simp add: powi2_add field_simps)
  from round_even_ge_of_int [OF this]
  have "of_int (2 ^ 52) \<le> (of_int (round_even (r / 2 powi ulp_exp r)) :: rat)"
    by (simp only: of_int_le_iff)
  then show ?thesis by (simp add: round64_def round_at_def powi2_add)
qed

lemma round64_mono_nonneg:
  assumes "0 \<le> r" "r \<le> s" shows "round64 r \<le> round64 s"
proof -
  from assms have le: "ulp_exp r \<le> ulp_exp s" by (intro ulp_exp_mono) simp
  show ?thesis
  proof (cases "ulp_exp r = ulp_exp s")
    case True
    with assms show ?thesis by (simp add: round64_def round_at_mono)
  next
    case False
    with le have lt: "ulp_exp r < ulp_exp s" by simp
    with ulp_exp_ge [of r] have "ulp_exp s \<noteq> -1074" by simp
    with assms have "2 powi (52 + ulp_exp s) \<le> round64 s" by (intro round64_ge_pow) auto
    moreover have "(2::rat) powi (53 + ulp_exp r) \<le> 2 powi (52 + ulp_exp s)"
      using lt by (intro powi2_mono) simp
    ultimately show ?thesis using round64_le_pow [OF assms(1)] by linarith
  qed
qed

lemma round64_mono: assumes "r \<le> s" shows "round64 r \<le> round64 s"
proof -
  consider "0 \<le> r" | "r < 0" "0 \<le> s" | "s < 0" using assms by linarith
  then show ?thesis
  proof cases
    case 1 with assms show ?thesis by (intro round64_mono_nonneg)
  next
    case 2
    then have "0 \<le> round64 (- r)" "0 \<le> round64 s" by (simp_all add: round64_nonneg)
    then show ?thesis by (simp add: round64_minus)
  next
    case 3
    with assms have "round64 (- s) \<le> round64 (- r)" by (intro round64_mono_nonneg) auto
    then show ?thesis by (simp add: round64_minus)
  qed
qed

lemma round64_exact_aux:
  assumes r: "r = of_int m * 2 powi e" and m: "\<bar>m\<bar> < 2 ^ 53" and e: "-1074 \<le> e"
  shows "round64 r = r"
proof -
  have "\<bar>r\<bar> = of_int \<bar>m\<bar> * 2 powi e" using r by (simp add: abs_mult)
  also have "\<dots> < of_int (2 ^ 53) * 2 powi e"
    using m by (intro mult_strict_right_mono) (simp_all only: of_int_less_iff powi2_pos)
  finally have lt: "\<bar>r\<bar> < 2 powi (53 + e)" by (simp add: powi2_add)
  have le: "ulp_exp r \<le> e"
  proof (rule ccontr)
    assume "\<not> ulp_exp r \<le> e"
    with e have "2 powi (52 + ulp_exp r) \<le> \<bar>r\<bar>" and "53 + e \<le> 52 + ulp_exp r"
      using ulp_exp_spec [of r] by auto
    with lt powi2_mono [of "53 + e" "52 + ulp_exp r"] show False by linarith
  qed
  have "r / 2 powi ulp_exp r = of_int m * 2 powi (e - ulp_exp r)"
    using r by (simp add: power_int_diff)
  also have "\<dots> = of_int (m * 2 ^ nat (e - ulp_exp r))"
    using le by (simp add: power_int_def)
  finally have eq: "r / 2 powi ulp_exp r = of_int (m * 2 ^ nat (e - ulp_exp r))" .
  have "round64 r = of_int (round_even (r / 2 powi ulp_exp r)) * 2 powi ulp_exp r"
    by (simp only: round64_def round_at_def)
  also have "\<dots> = r / 2 powi ulp_exp r * 2 powi ulp_exp r"
    by (simp only: eq round_even_of_int)
  finally show ?thesis by simp
qed

lemma round64_exact:
  assumes r: "r = of_int m * 2 powi e" and m: "\<bar>m\<bar> \<le> 2 ^ 53" and e: "-1074 \<le> e"
  shows "round64 r = r"
proof (cases "\<bar>m\<bar> = 2 ^ 53")
  case True
  define m' :: int where "m' = (if 0 < m then 2 ^ 52 else - (2 ^ 52))"
  from True have "m = 2 * m'" by (auto simp: m'_def)
  with r have "r = of_int m' * 2 powi (e + 1)" by (simp add: powi2_add)
  moreover have "\<bar>m'\<bar> < 2 ^ 53" by (simp add: m'_def)
  ultimately show ?thesis using e round64_exact_aux [of r m' "e + 1"] by simp
next
  case False
  with assms show ?thesis by (intro round64_exact_aux) auto
qed

lemma round64_of_int: "\<bar>n\<bar> \<le> 2 ^ 53 \<Longrightarrow> round64 (of_int n) = of_int n"
  by (rule round64_exact [of _ n 0]) auto


lemma round64_idem [simp]: "round64 (round64 r) = round64 r"
proof (rule round64_exact)
  show "round64 r = of_int (round_even (r / 2 powi ulp_exp r)) * 2 powi ulp_exp r"
    by (simp add: round64_def round_at_def)
  have "\<bar>r / 2 powi ulp_exp r\<bar> \<le> of_int (2 ^ 53)"
    using ulp_exp_spec [of r] by (simp add: abs_divide powi2_add field_simps)
  then have "r / 2 powi ulp_exp r \<le> of_int (2 ^ 53)" "of_int (- (2 ^ 53)) \<le> r / 2 powi ulp_exp r"
    by linarith+
  then show "\<bar>round_even (r / 2 powi ulp_exp r)\<bar> \<le> 2 ^ 53"
    using round_even_le_of_int round_even_ge_of_int by (metis abs_le_iff minus_le_iff)
qed (rule ulp_exp_ge)

lemma round64_near_one:
  assumes "0 \<le> r" "r \<le> 1" shows "\<bar>round64 r - r\<bar> \<le> 1 / 2 ^ 54"
proof (cases "r = 1")
  case True
  then show ?thesis using round64_of_int [of 1] by simp
next
  case False
  have "ulp_exp r \<le> -53"
  proof (cases "ulp_exp r = -1074")
    case False
    then have "(2::rat) powi (52 + ulp_exp r) < 2 powi 0"
      using ulp_exp_spec [of r] assms \<open>r \<noteq> 1\<close> by simp
    from powi2_lessD [OF this] show ?thesis by simp
  qed simp
  then have "(2::rat) powi ulp_exp r \<le> 2 powi (-53)" by (rule powi2_mono)
  moreover have "(2::rat) powi (-53) / 2 = 1 / 2 ^ 54" by code_simp
  ultimately show ?thesis using round64_error [of r] by linarith
qed

lemma round64_one_up: "round64 (1 + 1 / 2 ^ 54) = 1"
  by code_simp


subsection \<open>The laws of rounding that the bounds on scores need\<close>

locale rounding =
  fixes rnd :: "rat \<Rightarrow> rat"
  assumes mono: "r \<le> s \<Longrightarrow> rnd r \<le> rnd s"
    and of_int: "\<bar>n\<bar> \<le> 2 ^ 53 \<Longrightarrow> rnd (of_int n) = of_int n"
    and near_one: "0 \<le> r \<Longrightarrow> r \<le> 1 \<Longrightarrow> \<bar>rnd r - r\<bar> \<le> 1 / 2 ^ 54"
    and one_up: "rnd (1 + 1 / 2 ^ 54) = 1"
begin

lemma zero [simp]: "rnd 0 = 0"
  using of_int [of 0] by simp

lemma one [simp]: "rnd 1 = 1"
  using of_int [of 1] by simp

lemma nonneg: "0 \<le> r \<Longrightarrow> 0 \<le> rnd r"
  using mono [of 0 r] by simp

lemma le_fixed: "r \<le> s \<Longrightarrow> rnd s = s \<Longrightarrow> rnd r \<le> s"
  using mono [of r s] by simp

lemma ge_fixed: "s \<le> r \<Longrightarrow> rnd s = s \<Longrightarrow> s \<le> rnd r"
  using mono [of s r] by simp

lemma unit: "0 \<le> r \<Longrightarrow> r \<le> 1 \<Longrightarrow> 0 \<le> rnd r \<and> rnd r \<le> 1"
  by (simp add: nonneg le_fixed)

lemma ratio_unit:
  assumes "0 \<le> x" "x \<le> y" "0 < y" shows "0 \<le> rnd (x / y) \<and> rnd (x / y) \<le> 1"
  using assms by (intro unit) simp_all

text \<open>
  A rounded convex combination of two numbers of the unit interval stays in it: the rounding
  of \<open>1 - d\<close> can exceed the exact value, but by no more than the last sum absorbs.
\<close>

lemma blend_unit:
  assumes d: "0 \<le> d" "d \<le> 1" "rnd d = d" and m: "0 \<le> m" "m \<le> 1"
  shows "0 \<le> rnd (rnd (1 - d) + rnd (m * d)) \<and> rnd (rnd (1 - d) + rnd (m * d)) \<le> 1"
proof
  have md: "0 \<le> m * d" "m * d \<le> d" using d m by (simp_all add: mult_left_le_one_le)
  have "0 \<le> rnd (1 - d)" "0 \<le> rnd (m * d)" using d md by (simp_all add: nonneg)
  then show "0 \<le> rnd (rnd (1 - d) + rnd (m * d))" by (simp add: nonneg)
  have "rnd (m * d) \<le> d" using md(2) d(3) by (rule le_fixed)
  moreover have "rnd (1 - d) \<le> 1 - d + 1 / 2 ^ 54" using near_one [of "1 - d"] d by linarith
  ultimately have "rnd (1 - d) + rnd (m * d) \<le> 1 + 1 / 2 ^ 54" by simp
  from mono [OF this] show "rnd (rnd (1 - d) + rnd (m * d)) \<le> 1" by (simp only: one_up)
qed

text \<open>Scaling an integer by a factor of the unit interval stays between 0 and the integer.\<close>

lemma scale_bounds:
  assumes "0 \<le> n" "n \<le> 2 ^ 53" "0 \<le> f" "f \<le> 1"
  shows "0 \<le> rnd (of_int n * f) \<and> rnd (of_int n * f) \<le> of_int n"
proof -
  have "of_int n * f \<le> of_int n" using assms by (simp add: mult_left_le)
  moreover have "rnd (of_int n) = of_int n" using assms by (intro of_int) simp
  moreover have "0 \<le> of_int n * f" using assms by simp
  ultimately show ?thesis by (simp add: nonneg le_fixed)
qed

end

text \<open>The rounding of binary64 satisfies the laws.\<close>

interpretation r64: rounding round64
  by unfold_locales (fact round64_mono round64_of_int round64_near_one round64_one_up)+

section \<open>float64 values and operations\<close>

text \<open>\<open>Inf True\<close> is negative infinity, \<open>Fin r\<close> the finite number \<open>r\<close>.\<close>

datatype f64 = NaN | Inf bool | Fin rat

text \<open>A rounded result whose leading bit is beyond that of the largest number is infinite.\<close>

definition clip64 :: "rat \<Rightarrow> f64" where
  "clip64 q = (if 971 < ulp_exp q then Inf (q < 0) else Fin q)"

definition f64_of_rat :: "rat \<Rightarrow> f64" where
  "f64_of_rat r = clip64 (round64 r)"

fun f64_add :: "f64 \<Rightarrow> f64 \<Rightarrow> f64" where
  "f64_add (Fin a) (Fin b) = f64_of_rat (a + b)"
| "f64_add (Inf s) (Inf t) = (if s = t then Inf s else NaN)"
| "f64_add (Inf s) (Fin _) = Inf s"
| "f64_add (Fin _) (Inf s) = Inf s"
| "f64_add _ _ = NaN"

fun f64_neg :: "f64 \<Rightarrow> f64" where
  "f64_neg (Fin a) = Fin (- a)"
| "f64_neg (Inf s) = Inf (\<not> s)"
| "f64_neg NaN = NaN"

definition f64_sub :: "f64 \<Rightarrow> f64 \<Rightarrow> f64" where
  "f64_sub x y = f64_add x (f64_neg y)"

fun f64_mul :: "f64 \<Rightarrow> f64 \<Rightarrow> f64" where
  "f64_mul (Fin a) (Fin b) = f64_of_rat (a * b)"
| "f64_mul (Inf s) (Inf t) = Inf (s \<noteq> t)"
| "f64_mul (Inf s) (Fin b) = (if b = 0 then NaN else Inf (s \<noteq> (b < 0)))"
| "f64_mul (Fin a) (Inf t) = (if a = 0 then NaN else Inf (t \<noteq> (a < 0)))"
| "f64_mul _ _ = NaN"

fun f64_div :: "f64 \<Rightarrow> f64 \<Rightarrow> f64" where
  "f64_div (Fin a) (Fin b) =
     (if b = 0 then (if a = 0 then NaN else Inf (a < 0)) else f64_of_rat (a / b))"
| "f64_div (Inf s) (Fin b) = Inf (s \<noteq> (b < 0))"
| "f64_div (Fin _) (Inf _) = Fin 0"
| "f64_div _ _ = NaN"

fun f64_less :: "f64 \<Rightarrow> f64 \<Rightarrow> bool" where
  "f64_less (Fin a) (Fin b) = (a < b)"
| "f64_less (Inf s) (Inf t) = (s \<and> \<not> t)"
| "f64_less (Inf s) (Fin _) = s"
| "f64_less (Fin _) (Inf t) = (\<not> t)"
| "f64_less _ _ = False"

fun f64_eq :: "f64 \<Rightarrow> f64 \<Rightarrow> bool" where
  "f64_eq (Fin a) (Fin b) = (a = b)"
| "f64_eq (Inf s) (Inf t) = (s = t)"
| "f64_eq _ _ = False"

text \<open>\<open>math.Max\<close>: positive infinity wins over NaN, NaN over every other value.\<close>

definition f64_max :: "f64 \<Rightarrow> f64 \<Rightarrow> f64" where
  "f64_max x y =
     (if x = Inf False \<or> y = Inf False then Inf False
      else if x = NaN \<or> y = NaN then NaN
      else if f64_less y x then x else y)"

section \<open>int and its conversions\<close>

type_synonym goint = "64 word"

definition f64_of_int :: "goint \<Rightarrow> f64" where
  "f64_of_int n = f64_of_rat (of_int (sint n))"

definition trunc :: "rat \<Rightarrow> int" where
  "trunc r = (if 0 \<le> r then \<lfloor>r\<rfloor> else \<lceil>r\<rceil>)"

text \<open>
  \<open>int(f)\<close> drops the fraction. For a value out of the range of \<open>int\<close> the language leaves the
  result to the implementation; here it is the one of amd64, the least \<open>int\<close>.
\<close>

fun int_of_f64 :: "f64 \<Rightarrow> goint" where
  "int_of_f64 (Fin r) =
     (if - (2 ^ 63) \<le> trunc r \<and> trunc r < 2 ^ 63 then word_of_int (trunc r)
      else word_of_int (- (2 ^ 63)))"
| "int_of_f64 _ = word_of_int (- (2 ^ 63))"

section \<open>Results in range\<close>

lemma ulp_exp_le_iff: "ulp_exp q \<le> 971 \<longleftrightarrow> \<bar>q\<bar> < 2 powi 1024"
proof
  assume "ulp_exp q \<le> 971"
  then have "53 + ulp_exp q \<le> 1024" by simp
  from powi2_mono [OF this] show "\<bar>q\<bar> < 2 powi 1024" using ulp_exp_spec [of q] by linarith
next
  assume lt: "\<bar>q\<bar> < 2 powi 1024"
  show "ulp_exp q \<le> 971"
  proof (cases "ulp_exp q = -1074")
    case False
    with lt ulp_exp_spec [of q] have "(2::rat) powi (52 + ulp_exp q) < 2 powi 1024" by linarith
    from powi2_lessD [OF this] show ?thesis by simp
  qed simp
qed

lemma clip64_eq: "clip64 q = (if \<bar>q\<bar> < 2 powi 1024 then Fin q else Inf (q < 0))"
  unfolding clip64_def ulp_exp_le_iff [symmetric] by auto

lemma round64_bound:
  assumes "\<bar>r\<bar> \<le> 2 ^ 64" shows "\<bar>round64 r\<bar> \<le> 2 ^ 64"
proof -
  have fix64: "round64 (2 ^ 64) = 2 ^ 64" "round64 (- (2 ^ 64)) = - (2 ^ 64)"
    by (rule round64_exact [of _ 1 64], simp_all) (simp add: round64_exact [of _ "-1" 64])
  from assms have "r \<le> 2 ^ 64" "- (2 ^ 64) \<le> r" by linarith+
  from this [THEN round64_mono] fix64 show ?thesis by (intro abs_leI) linarith+
qed

lemma f64_of_rat_small: "\<bar>r\<bar> \<le> 2 ^ 64 \<Longrightarrow> f64_of_rat r = Fin (round64 r)"
proof -
  assume "\<bar>r\<bar> \<le> 2 ^ 64"
  then have "\<bar>round64 r\<bar> \<le> 2 ^ 64" by (rule round64_bound)
  moreover have "(2::rat) ^ 64 < 2 powi 1024" using powi2_less [of 64 1024] by simp
  ultimately have "\<bar>round64 r\<bar> < 2 powi 1024" by linarith
  then show ?thesis unfolding f64_of_rat_def clip64_eq by (rule if_P)
qed

section \<open>Evaluation at concrete numbers\<close>

text \<open>
  The rounding of a fraction with integer arithmetic. The equations of \<open>f64_eval\<close> let \<open>simp\<close>
  evaluate the operations at numerals; the fraction need not be in lowest terms.
\<close>

named_theorems f64_eval "equations that evaluate float64 operations at numerals"

definition norm_quot :: "int \<Rightarrow> int \<Rightarrow> int \<Rightarrow> int" where
  "norm_quot n d k =
     (if (if 0 \<le> k then d * 2 ^ nat k \<le> n else d \<le> n * 2 ^ nat (- k))
      then max (k - 52) (-1074) else max (k - 53) (-1074))"

definition ulp_quot :: "int \<Rightarrow> int \<Rightarrow> int" where
  "ulp_quot n d = (if n = 0 then -1074 else norm_quot n d (bit_len n - bit_len d))"

definition half_even_quot :: "int \<Rightarrow> int \<Rightarrow> int \<Rightarrow> int" where
  "half_even_quot q r d = (if 2 * r < d then q else if d < 2 * r then q + 1 else if even q then q else q + 1)"

definition round_quot :: "int \<Rightarrow> int \<Rightarrow> int" where
  "round_quot n d = half_even_quot (n div d) (n mod d) d"

definition dyadic :: "int \<Rightarrow> int \<Rightarrow> int \<Rightarrow> rat" where
  "dyadic n d e =
     (if 0 \<le> e then of_int (round_quot n (d * 2 ^ nat e) * 2 ^ nat e)
      else of_int (round_quot (n * 2 ^ nat (- e)) d) / of_int (2 ^ nat (- e)))"

lemma norm_quot: "0 < d \<Longrightarrow> norm_exp (of_int n / of_int d) k = norm_quot n d k"
proof -
  assume d: "0 < d"
  have "(2::rat) powi k \<le> of_int n / of_int d \<longleftrightarrow>
        (if 0 \<le> k then d * 2 ^ nat k \<le> n else d \<le> n * 2 ^ nat (- k))"
  proof (cases "0 \<le> k")
    case True
    have "(2::rat) powi k \<le> of_int n / of_int d \<longleftrightarrow> of_int (d * 2 ^ nat k) \<le> (of_int n :: rat)"
      using d True by (simp add: power_int_def field_simps)
    with True show ?thesis by (simp only: of_int_le_iff if_True)
  next
    case False
    have "(2::rat) powi k \<le> of_int n / of_int d \<longleftrightarrow> of_int d \<le> (of_int (n * 2 ^ nat (- k)) :: rat)"
      using d False by (simp add: power_int_def field_simps)
    with False show ?thesis by (simp only: of_int_le_iff if_False)
  qed
  then show ?thesis by (simp add: norm_exp_def norm_quot_def)
qed

lemma ulp_exp_frac: "0 < d \<Longrightarrow> ulp_exp (of_int n / of_int d) = ulp_quot \<bar>n\<bar> d"
proof -
  assume d: "0 < d"
  show ?thesis
  proof (cases "n = 0")
    case True
    then show ?thesis by (simp add: ulp_exp_def ulp_quot_def)
  next
    case False
    let ?r = "of_int n / of_int d :: rat"
    have r: "\<bar>?r\<bar> = of_int \<bar>n\<bar> / of_int d" using d by (simp add: abs_divide)
    have "last_place ?r (norm_exp \<bar>?r\<bar> (bit_len \<bar>n\<bar> - bit_len d))"
      using False d r by (intro last_place_fraction) auto
    also have "norm_exp \<bar>?r\<bar> (bit_len \<bar>n\<bar> - bit_len d) = ulp_quot \<bar>n\<bar> d"
      using False norm_quot [OF d, of "\<bar>n\<bar>"] unfolding r by (simp add: ulp_quot_def)
    finally show ?thesis by (rule last_place_unique [OF last_place_ulp_exp])
  qed
qed

lemma round_quot: "0 < d \<Longrightarrow> round_even (of_int n / of_int d) = round_quot n d"
proof -
  assume d: "0 < d"
  have "(of_int n :: rat) / of_int d - of_int (n div d) = of_int (n mod d) / of_int d"
    using d by (simp add: field_simps) (metis add.commute div_mult_mod_eq mult.commute of_int_add of_int_mult)
  moreover have "(of_int (n mod d) :: rat) / of_int d < 1 / 2 \<longleftrightarrow> 2 * (n mod d) < d"
    using d by (simp add: field_simps) (metis of_int_less_iff of_int_mult of_int_numeral)
  moreover have "(1::rat) / 2 < of_int (n mod d) / of_int d \<longleftrightarrow> d < 2 * (n mod d)"
    using d by (simp add: field_simps) (metis of_int_less_iff of_int_mult of_int_numeral)
  ultimately show ?thesis
    by (simp add: round_even_def half_even_def round_quot_def half_even_quot_def floor_divide_of_int_eq)
qed

lemma round_at_dyadic: "0 < d \<Longrightarrow> round_at (of_int n / of_int d) (2 powi e) = dyadic n d e"
proof -
  assume d: "0 < d"
  show ?thesis
  proof (cases "0 \<le> e")
    case True
    then have "(of_int n :: rat) / of_int d / 2 powi e = of_int n / of_int (d * 2 ^ nat e)"
      by (simp add: power_int_def)
    with True d round_quot [of "d * 2 ^ nat e" n] show ?thesis
      by (simp add: round_at_def dyadic_def power_int_def)
  next
    case False
    then have "(of_int n :: rat) / of_int d / 2 powi e = of_int (n * 2 ^ nat (- e)) / of_int d"
      by (simp add: power_int_def field_simps)
    with False d round_quot [of d "n * 2 ^ nat (- e)"] show ?thesis
      by (simp add: round_at_def dyadic_def power_int_def field_simps)
  qed
qed


lemma round64_frac: "0 < d \<Longrightarrow> round64 (of_int n / of_int d) = dyadic n d (ulp_quot \<bar>n\<bar> d)"
  by (simp add: round64_def round_at_dyadic ulp_exp_frac)

lemma round64_eval [f64_eval]:
  "round64 (numeral a / numeral b) = dyadic (numeral a) (numeral b) (ulp_quot (numeral a) (numeral b))"
  "round64 (- (numeral a / numeral b)) = dyadic (- numeral a) (numeral b) (ulp_quot (numeral a) (numeral b))"
  "round64 (1 / numeral b) = dyadic 1 (numeral b) (ulp_quot 1 (numeral b))"
  "round64 (- (1 / numeral b)) = dyadic (- 1) (numeral b) (ulp_quot 1 (numeral b))"
  "round64 (numeral a) = dyadic (numeral a) 1 (ulp_quot (numeral a) 1)"
  "round64 (- numeral a) = dyadic (- numeral a) 1 (ulp_quot (numeral a) 1)"
  "round64 1 = 1" "round64 0 = 0" "round64 (- 1) = - 1"
  using round64_frac [of "numeral b" "numeral a"] round64_frac [of "numeral b" "- numeral a"]
    round64_frac [of "numeral b" "1"] round64_frac [of "numeral b" "- 1"]
    round64_frac [of 1 "numeral a"] round64_frac [of 1 "- numeral a"]
    round64_of_int [of 1] round64_of_int [of "-1"]
  by simp_all

lemma ulp_exp_eval [f64_eval]:
  "ulp_exp (numeral a / numeral b) = ulp_quot (numeral a) (numeral b)"
  "ulp_exp (1 / numeral b) = ulp_quot 1 (numeral b)"
  "ulp_exp (numeral a) = ulp_quot (numeral a) 1"
  "ulp_exp 1 = ulp_quot 1 1" "ulp_exp 0 = -1074"
  using ulp_exp_frac [of "numeral b" "numeral a"] ulp_exp_frac [of "numeral b" 1]
    ulp_exp_frac [of 1 "numeral a"] ulp_exp_frac [of 1 1]
  by (simp_all add: ulp_exp_def)

lemma floor_eval [f64_eval]:
  "\<lfloor>numeral a / numeral b :: rat\<rfloor> = numeral a div numeral b"
  "\<lceil>- (numeral a / numeral b) :: rat\<rceil> = - (numeral a div numeral b)"
  using floor_divide_of_int_eq [of "numeral a" "numeral b", where 'a = rat]
  by (simp_all add: ceiling_def)

lemmas [f64_eval] =
  dyadic_def ulp_quot_def norm_quot_def round_quot_def half_even_quot_def bit_len.simps
  clip64_def f64_of_rat_def f64_of_int_def f64_sub_def f64_max_def trunc_def

end
