(* ===== verification/Models.thy ===== *)
theory Models
  imports Prelude GoFloat
begin

text \<open>
  The data of the program: the database models (package \<open>internal/models\<close>), the configuration the
  server reads (package \<open>internal/config\<close>) and the course plan with its scoring rules
  (the types of package \<open>internal/deadlines\<close>). Go strings are byte strings, an instant is a number of
  nanoseconds, a duration is a number of nanoseconds in the range of \<open>int64\<close>, a pointer that
  may be nil is an option.
\<close>

type_synonym instant = int
type_synonym duration = int

section \<open>Database models\<close>

text \<open>Pipeline statuses are strings; GitLab may send others than the six named here.\<close>

type_synonym PipelineStatus = string

abbreviation PipelineStatusBanned :: PipelineStatus where "PipelineStatusBanned \<equiv> ''banned''"
abbreviation PipelineStatusFailed :: PipelineStatus where "PipelineStatusFailed \<equiv> ''failed''"
abbreviation PipelineStatusPending :: PipelineStatus where "PipelineStatusPending \<equiv> ''pending''"
abbreviation PipelineStatusRunning :: PipelineStatus where "PipelineStatusRunning \<equiv> ''running''"
abbreviation PipelineStatusSuccess :: PipelineStatus where "PipelineStatusSuccess \<equiv> ''success''"
abbreviation PipelineStatusCanceled :: PipelineStatus where "PipelineStatusCanceled \<equiv> ''canceled''"

record Pipeline =
  plID :: int
  plProject :: string
  plTask :: string
  plStatus :: PipelineStatus
  plStartedAt :: instant

record Flag =
  flID :: string
  flTask :: string
  flGitlabLogin :: "string option"
  flCreatedAt :: instant

text \<open>
  The columns that \<open>gorm.Model\<close> embeds. The creation and update stamps, which the program never
  reads, are left out; a row whose \<open>DeletedAt\<close> is set is soft deleted.
\<close>

record GormModel =
  mID :: nat
  mDeletedAt :: "instant option"

record OverriddenScore = GormModel +
  ovGitlabLogin :: string
  ovTask :: string
  ovScore :: goint
  ovStatus :: PipelineStatus

record GitlabUser =
  guGitlabID :: "int option"
  guGitlabLogin :: "string option"
  guRepository :: "string option"

record User = GormModel +
  usGitlabID :: "int option"
  usGitlabLogin :: "string option"
  usRepository :: "string option"
  usFirstName :: string
  usLastName :: string
  usGroupName :: string
  usTelegramID :: "int option"
  usHasRetake :: bool

record Session =
  ssID :: nat
  ssToken :: string
  ssUserID :: nat

section \<open>Course plan and scoring rules\<close>

record Task =
  tkTask :: string
  tkScore :: goint
  tkCrashme :: bool

record TaskGroup =
  tgTitle :: string
  tgGroup :: string
  tgDeadline :: instant
  tgStart :: instant
  tgTasks :: "Task list"

text \<open>The two implementations of the interface \<open>ScoringPolicy\<close>.\<close>

datatype ScoringPolicy =
    ExponentialScore (esMultiplier: duration) (esThreshold: f64)
  | LinearScore (lsAfter: duration) (lsMultiplier: f64)

record ScoringPolicySpec =
  spName :: string
  spKind :: string
  spPolicy :: "ScoringPolicy option"

record ScoringGroup =
  sgName :: string
  sgWeight :: f64
  sgMaxScore :: goint
  sgPolicy :: string

record Scoring =
  scPolicies :: "ScoringPolicySpec list"
  scGroups :: "ScoringGroup list"
  scDefaultGroup :: string
  scFinalDeadline :: "instant option"
  scRetakePenalty :: f64

text \<open>
  The private map \<open>groups\<close> holds pointers to the elements of \<open>Scoring.Groups\<close>, so
  that a change through the map changes the list: here the map holds the positions.
\<close>

record Deadlines =
  dlAssignments :: "TaskGroup list"
  dlScoring :: Scoring
  dlpolicies :: "string \<rightharpoonup> ScoringPolicy option"
  dlgroups :: "string \<rightharpoonup> nat"

section \<open>Configuration\<close>

record GroupConfig =
  gcName :: string
  gcSecret :: string
  gcDeadlinesURL :: string
  gcDeadlinesFormat :: string
  gcShowMarks :: bool
  gcDefault :: bool

text \<open>\<open>FindGroup\<close>: the first group with the name.\<close>

fun FindGroup :: "GroupConfig list \<Rightarrow> string \<Rightarrow> GroupConfig option" where
  "FindGroup [] name = None"
| "FindGroup (g # gs) name = (if gcName g = name then Some g else FindGroup gs name)"

text \<open>\<open>FindDefaultGroup\<close>: the first group marked default, else the first group.\<close>

definition FindDefaultGroup :: "GroupConfig list \<Rightarrow> GroupConfig option" where
  "FindDefaultGroup gs =
     (case List.find gcDefault gs of
        Some g \<Rightarrow> Some g
      | None \<Rightarrow> (case gs of [] \<Rightarrow> None | g # _ \<Rightarrow> Some g))"

lemma FindGroup_Some: "FindGroup gs name = Some g \<Longrightarrow> g \<in> set gs \<and> gcName g = name"
  by (induction gs) (auto split: if_splits)

lemma FindGroup_None_iff: "FindGroup gs name = None \<longleftrightarrow> name \<notin> gcName ` set gs"
  by (induction gs) auto

end
