(* ===== verification/Scoring.thy ===== *)
theory Scoring
  imports Models "HOL-Library.Signed_Division"
begin

text \<open>
  Package \<open>internal/deadlines\<close>, file \<open>scoring.go\<close>: the two scoring policies. The part of package
  time they use is modelled here too. \<open>math.Exp\<close> is the parameter \<open>exp64\<close>: its
  result differs in the last place from one processor to another, and the theorems
  only use that it is at least 1 for an argument that is not negative.
\<close>

section \<open>Instants and durations\<close>

text \<open>\<open>Before\<close>, \<open>After\<close> and \<open>Add\<close> of an instant, and \<open>Sub\<close>, which saturates at the range of \<open>Duration\<close>.\<close>

definition Before :: "instant \<Rightarrow> instant \<Rightarrow> bool" where
  "Before t u = (t < u)"

definition After :: "instant \<Rightarrow> instant \<Rightarrow> bool" where
  "After t u = (u < t)"

definition time_Add :: "instant \<Rightarrow> duration \<Rightarrow> instant" where
  "time_Add t d = t + d"

definition max_duration :: duration where "max_duration = 2 ^ 63 - 1"
definition min_duration :: duration where "min_duration = - (2 ^ 63)"

definition time_Sub :: "instant \<Rightarrow> instant \<Rightarrow> duration" where
  "time_Sub t u = max min_duration (min max_duration (t - u))"

definition f64_int :: "int \<Rightarrow> f64" where
  "f64_int n = f64_of_rat (of_int n)"

text \<open>\<open>Duration.Seconds\<close>: whole seconds plus the rest divided by 1e9.\<close>

definition Seconds :: "duration \<Rightarrow> f64" where
  "Seconds d = f64_add (f64_int (d sdiv 1000000000)) (f64_div (f64_int (d smod 1000000000)) (f64_int 1000000000))"

section \<open>The policies\<close>

definition exponential_Score :: "(f64 \<Rightarrow> f64) \<Rightarrow> duration \<Rightarrow> f64 \<Rightarrow> goint \<Rightarrow> instant \<Rightarrow> instant \<Rightarrow> goint" where
  "exponential_Score exp64 multiplier threshold maxScore deadline submitTime =
     (if Before submitTime deadline then maxScore
      else
        let deltaSeconds = Seconds (time_Sub submitTime deadline);
            ex = f64_div deltaSeconds (Seconds multiplier)
        in int_of_f64 (f64_mul (f64_max threshold (f64_div (f64_int 1) (exp64 ex))) (f64_of_int maxScore)))"

definition linear_mult :: "duration \<Rightarrow> f64 \<Rightarrow> instant \<Rightarrow> instant \<Rightarrow> f64" where
  "linear_mult after multiplier deadline submitTime =
     (if Before submitTime (time_Add deadline after)
      then let delta = f64_div (Seconds (time_Sub submitTime deadline)) (Seconds after)
           in f64_add (f64_sub (f64_int 1) delta) (f64_mul multiplier delta)
      else multiplier)"

definition linear_Score :: "duration \<Rightarrow> f64 \<Rightarrow> goint \<Rightarrow> instant \<Rightarrow> instant \<Rightarrow> goint" where
  "linear_Score after multiplier maxScore deadline submitTime =
     (if Before submitTime deadline then maxScore
      else int_of_f64 (f64_mul (f64_of_int maxScore) (linear_mult after multiplier deadline submitTime)))"

text \<open>The method call through the interface.\<close>

fun Score :: "(f64 \<Rightarrow> f64) \<Rightarrow> ScoringPolicy \<Rightarrow> goint \<Rightarrow> instant \<Rightarrow> instant \<Rightarrow> goint" where
  "Score exp64 (ExponentialScore multiplier threshold) = exponential_Score exp64 multiplier threshold"
| "Score exp64 (LinearScore after multiplier) = linear_Score after multiplier"

lemmas score_eval =
  f64_eval Seconds_def f64_int_def Before_def After_def time_Add_def time_Sub_def
  min_duration_def max_duration_def linear_Score_def linear_mult_def exponential_Score_def Let_def

section \<open>Seconds of a duration that is not negative\<close>

definition sec :: "duration \<Rightarrow> rat" where
  "sec d = round64 (of_int (d div 1000000000) + round64 (of_int (d mod 1000000000) / 1000000000))"

lemma f64_int_small: "\<bar>n\<bar> \<le> 2 ^ 53 \<Longrightarrow> f64_int n = Fin (of_int n)"
proof -
  assume n: "\<bar>n\<bar> \<le> 2 ^ 53"
  then have "\<bar>of_int n :: rat\<bar> \<le> of_int (2 ^ 64)" by (simp flip: of_int_abs)
  with n show ?thesis by (simp add: f64_int_def f64_of_rat_small round64_of_int)
qed

lemma fraction_unit:
  "0 \<le> round64 (of_int (d mod 1000000000) / 1000000000)
   \<and> round64 (of_int (d mod 1000000000) / 1000000000) \<le> 1"
proof -
  have "0 \<le> d mod 1000000000" "d mod 1000000000 \<le> 1000000000" by simp_all
  then have "(of_int (d mod 1000000000) :: rat) \<le> of_int 1000000000" by (simp only: of_int_le_iff)
  with \<open>0 \<le> d mod 1000000000\<close> show ?thesis by (intro r64.ratio_unit) simp_all
qed

lemma sec_mono:
  assumes "d \<le> d'" shows "sec d \<le> sec d'"
proof (cases "d div 1000000000 = d' div 1000000000")
  case True
  then have "d mod 1000000000 \<le> d' mod 1000000000"
    using assms by (metis add_le_cancel_left mult_div_mod_eq)
  then have "(of_int (d mod 1000000000) :: rat) \<le> of_int (d' mod 1000000000)" by simp
  then have "round64 (of_int (d mod 1000000000) / 1000000000)
      \<le> round64 (of_int (d' mod 1000000000) / 1000000000)"
    by (intro r64.mono divide_right_mono) simp_all
  with True show ?thesis unfolding sec_def by (intro r64.mono) simp
next
  case False
  with assms have "d div 1000000000 + 1 \<le> d' div 1000000000"
    using zdiv_mono1 [of d d' 1000000000] by simp
  then have "(of_int (d div 1000000000) :: rat) + 1 \<le> of_int (d' div 1000000000)"
    by (metis of_int_1 of_int_add of_int_le_iff)
  then show ?thesis unfolding sec_def
    using fraction_unit [of d] fraction_unit [of d'] by (intro r64.mono) linarith
qed

lemma sec_nonneg: "0 \<le> d \<Longrightarrow> 0 \<le> sec d"
  using sec_mono [of 0 d] by (simp add: sec_def)

lemma sec_pos: "0 < d \<Longrightarrow> 0 < sec d"
proof -
  assume "0 < d"
  then have "sec 1 \<le> sec d" by (intro sec_mono) simp
  moreover have "0 < sec 1" by (simp add: sec_def f64_eval)
  ultimately show ?thesis by linarith
qed

lemma Seconds_nonneg:
  assumes "0 \<le> d" "d \<le> max_duration" shows "Seconds d = Fin (sec d)"
proof -
  have w: "0 \<le> d div 1000000000" "d div 1000000000 \<le> 2 ^ 34"
    using assms by (simp_all add: max_duration_def pos_imp_zdiv_nonneg_iff)
  have q: "d sdiv 1000000000 = d div 1000000000"
    using assms by (cases "d = 0") (simp_all add: signed_divide_int_def sgn_if)
  have q': "d smod 1000000000 = d mod 1000000000"
    using assms by (auto simp: smod_int_alt_def sgn_if)
  have "\<bar>d mod 1000000000\<bar> \<le> 2 ^ 53" using pos_mod_bound [of 1000000000 d] by simp
  then have n: "f64_int (d mod 1000000000) = Fin (of_int (d mod 1000000000))" by (rule f64_int_small)
  have "\<bar>of_int (d mod 1000000000) / 1000000000\<bar> \<le> (1::rat)"
    using pos_mod_bound [of 1000000000 d] pos_mod_sign [of 1000000000 d]
    by simp
  then have f: "f64_div (f64_int (d mod 1000000000)) (f64_int 1000000000)
      = Fin (round64 (of_int (d mod 1000000000) / 1000000000))"
    by (simp add: n f64_int_small f64_of_rat_small)
  have "\<bar>of_int (d div 1000000000) + round64 (of_int (d mod 1000000000) / 1000000000)\<bar> \<le> (2::rat) ^ 64"
    using w fraction_unit [of d] of_int_le_iff [of "d div 1000000000" "2 ^ 34", where 'a = rat]
    by (simp add: abs_of_nonneg)
  then show ?thesis
    using w by (simp add: Seconds_def q q' f f64_int_small f64_of_rat_small sec_def)
qed

lemma sec_fixed: "round64 (sec d) = sec d"
  by (simp add: sec_def)

section \<open>Scaling a maximal score\<close>

text \<open>
  \<open>int(float64(maxScore) * f)\<close> for a factor of the unit interval: what both policies compute in the end.
\<close>

definition scaled :: "int \<Rightarrow> rat \<Rightarrow> int" where
  "scaled n f = \<lfloor>round64 (of_int n * f)\<rfloor>"

lemma f64_of_int_small:
  assumes "sint w = n" "0 \<le> n" "n \<le> 2 ^ 53" shows "f64_of_int w = Fin (of_int n)"
  unfolding f64_of_int_def assms(1) using f64_int_small [of n] assms(2,3) by (simp add: f64_int_def)

lemma scaled_bounds:
  assumes n: "0 \<le> n" "n \<le> 2 ^ 53" and f: "0 \<le> f" "f \<le> 1"
  shows "0 \<le> scaled n f \<and> scaled n f \<le> n"
  using r64.scale_bounds [OF n f] by (simp add: scaled_def floor_le_iff)

lemma score_of_factor:
  assumes w: "sint maxScore = n" and n: "0 \<le> n" "n \<le> 2 ^ 53" and f: "0 \<le> f" "f \<le> 1"
  shows "sint (int_of_f64 (f64_mul (f64_of_int maxScore) (Fin f))) = scaled n f"
proof -
  note b = r64.scale_bounds [OF n f]
  have "0 \<le> of_int n * f" "of_int n * f \<le> of_int n"
    using n f by (simp_all add: mult_left_le)
  moreover have "(of_int n :: rat) \<le> of_int (2 ^ 53)" using n by (simp only: of_int_le_iff)
  ultimately have "\<bar>of_int n * f\<bar> \<le> 2 ^ 64" by simp
  then have m: "f64_mul (f64_of_int maxScore) (Fin f) = Fin (round64 (of_int n * f))"
    by (simp add: f64_of_int_small [OF w n] f64_of_rat_small)
  have t: "trunc (round64 (of_int n * f)) = scaled n f"
    using b by (simp add: trunc_def scaled_def)
  have r: "- (2 ^ 63) \<le> scaled n f" "scaled n f < 2 ^ 63"
    using scaled_bounds [OF n f] n by simp_all
  have "int_of_f64 (Fin (round64 (of_int n * f))) = word_of_int (scaled n f)"
    unfolding int_of_f64.simps t using r by simp
  with m show ?thesis
    using r by (simp add: signed_of_int signed_take_bit_int_eq_self)
qed

lemma scaled_mono: "0 \<le> n \<Longrightarrow> f \<le> g \<Longrightarrow> scaled n f \<le> scaled n g"
  unfolding scaled_def by (intro floor_mono r64.mono mult_left_mono) simp_all

lemma scaled_one: "0 \<le> n \<Longrightarrow> n \<le> 2 ^ 53 \<Longrightarrow> scaled n 1 = n"
  by (simp add: scaled_def round64_of_int)

section \<open>The linear policy\<close>

lemma linear_mult_window:
  assumes d: "deadline \<le> submitTime" "submitTime < deadline + after" "after \<le> max_duration"
    and m: "0 \<le> m" "m \<le> 1"
  obtains x where "linear_mult after (Fin m) deadline submitTime = Fin x" "0 \<le> x" "x \<le> 1"
    "submitTime = deadline \<Longrightarrow> x = 1"
proof -
  let ?d = "submitTime - deadline"
  have sub: "time_Sub submitTime deadline = ?d"
    using d by (simp add: time_Sub_def min_duration_def max_duration_def)
  have sd: "Seconds ?d = Fin (sec ?d)" and sa: "Seconds after = Fin (sec after)"
    using d by (intro Seconds_nonneg; simp)+
  have pos: "0 < sec after" "0 \<le> sec ?d" "sec ?d \<le> sec after"
    using d by (simp_all add: sec_pos sec_nonneg sec_mono)
  define \<delta> where "\<delta> = round64 (sec ?d / sec after)"
  have u: "0 \<le> \<delta>" "\<delta> \<le> 1" "round64 \<delta> = \<delta>"
    using r64.ratio_unit [OF pos(2,3,1)] by (simp_all add: \<delta>_def)
  have "sec ?d / sec after \<le> 1" "0 \<le> sec ?d / sec after" using pos by simp_all
  then have "\<bar>sec ?d / sec after\<bar> \<le> 2 ^ 64" by simp
  then have delta: "f64_div (Seconds ?d) (Seconds after) = Fin \<delta>"
    using pos by (simp add: sd sa f64_of_rat_small \<delta>_def)
  define x where "x = round64 (round64 (1 - \<delta>) + round64 (m * \<delta>))"
  have one: "f64_int 1 = Fin 1" using f64_int_small [of 1] by simp
  have md: "0 \<le> m * \<delta>" "m * \<delta> \<le> 1" using m u by (simp_all add: mult_le_one)
  have parts: "0 \<le> round64 (1 - \<delta>) \<and> round64 (1 - \<delta>) \<le> 1"
    "0 \<le> round64 (m * \<delta>) \<and> round64 (m * \<delta>) \<le> 1"
    using u md by (intro r64.unit; simp)+
  then have "\<bar>round64 (1 - \<delta>) + round64 (m * \<delta>)\<bar> \<le> 2 ^ 64" by simp
  moreover have "\<bar>1 - \<delta>\<bar> \<le> 2 ^ 64" "\<bar>m * \<delta>\<bar> \<le> 2 ^ 64" using u md by simp_all
  ultimately have "linear_mult after (Fin m) deadline submitTime = Fin x"
    using d by (simp add: linear_mult_def Before_def time_Add_def sub delta one f64_sub_def
        f64_of_rat_small x_def)
  moreover have "0 \<le> x" "x \<le> 1" using r64.blend_unit [OF u m] by (simp_all add: x_def)
  moreover have "submitTime = deadline \<Longrightarrow> x = 1"
    by (simp add: x_def \<delta>_def sec_def round64_of_int [of 1, simplified])
  ultimately show ?thesis by (rule that)
qed

text \<open>
  A sane linear policy: the score after the window is a share between 0 and 1 of the maximum.
\<close>

definition linear_ok :: "duration \<Rightarrow> f64 \<Rightarrow> goint \<Rightarrow> bool" where
  "linear_ok after multiplier maxScore \<longleftrightarrow>
     after \<le> max_duration \<and> 0 \<le> sint maxScore \<and> sint maxScore \<le> 2 ^ 53 \<and>
     (case multiplier of Fin m \<Rightarrow> 0 \<le> m \<and> m \<le> 1 | _ \<Rightarrow> False)"

lemma linear_Score_range:
  assumes ok: "linear_ok after multiplier maxScore"
  shows "0 \<le> sint (linear_Score after multiplier maxScore deadline submitTime)
       \<and> sint (linear_Score after multiplier maxScore deadline submitTime) \<le> sint maxScore"
proof -
  from ok obtain m where m: "multiplier = Fin m" "0 \<le> m" "m \<le> 1" and a: "after \<le> max_duration"
    and n: "0 \<le> sint maxScore" "sint maxScore \<le> 2 ^ 53"
    by (auto simp: linear_ok_def split: f64.splits)
  show ?thesis
  proof (cases "submitTime < deadline")
    case True
    with n show ?thesis by (simp add: linear_Score_def Before_def)
  next
    case late: False
    obtain x where "linear_mult after multiplier deadline submitTime = Fin x" "0 \<le> x" "x \<le> 1"
    proof (cases "submitTime < deadline + after")
      case True
      with late a m that linear_mult_window [of deadline submitTime after m] show ?thesis by auto
    next
      case False
      with m that show ?thesis by (simp add: linear_mult_def Before_def time_Add_def)
    qed
    with late score_of_factor [OF refl n] scaled_bounds [OF n] show ?thesis by (simp add: linear_Score_def Before_def)
  qed
qed

lemma linear_Score_late:
  assumes ok: "linear_ok after (Fin m) maxScore" and late: "deadline \<le> submitTime"
  shows "deadline + after \<le> submitTime \<Longrightarrow>
      sint (linear_Score after (Fin m) maxScore deadline submitTime) = scaled (sint maxScore) m"
    and "submitTime = deadline \<Longrightarrow> 0 < after \<Longrightarrow>
      linear_Score after (Fin m) maxScore deadline submitTime = maxScore"
proof -
  from ok have a: "after \<le> max_duration" and n: "0 \<le> sint maxScore" "sint maxScore \<le> 2 ^ 53"
    and m: "0 \<le> m" "m \<le> 1" by (auto simp: linear_ok_def)
  show "sint (linear_Score after (Fin m) maxScore deadline submitTime) = scaled (sint maxScore) m"
    if "deadline + after \<le> submitTime"
    using that late score_of_factor [OF refl n m]
    by (simp add: linear_Score_def linear_mult_def Before_def time_Add_def)
  show "linear_Score after (Fin m) maxScore deadline submitTime = maxScore"
    if now: "submitTime = deadline" and pos: "0 < after"
  proof -
    from late now pos a m obtain x where "linear_mult after (Fin m) deadline submitTime = Fin x" "x = 1"
      using linear_mult_window [of deadline submitTime after m] by auto
    with now score_of_factor [OF refl n, of 1] scaled_one [OF n] show ?thesis
      by (intro signed_word_eqI) (simp add: linear_Score_def Before_def)
  qed
qed

lemma linear_Score_early: "submitTime < deadline \<Longrightarrow> linear_Score after f maxScore deadline submitTime = maxScore"
  by (simp add: linear_Score_def Before_def)

section \<open>The exponential policy\<close>

text \<open>
  What the documentation of \<open>math.Exp\<close> promises and the score relies on: it is 1 at zero, positive
  infinity at positive infinity, and not below 1 where the argument is not negative.
\<close>

definition exp_ok :: "(f64 \<Rightarrow> f64) \<Rightarrow> bool" where
  "exp_ok exp64 \<longleftrightarrow>
     exp64 (Fin 0) = Fin 1 \<and> exp64 (Inf False) = Inf False
     \<and> (\<forall>r \<ge> 0. exp64 (Fin r) = Inf False \<or> (\<exists>e \<ge> 1. exp64 (Fin r) = Fin e))"

lemma f64_of_rat_nonneg:
  assumes "0 \<le> r" shows "f64_of_rat r = Inf False \<or> (\<exists>q \<ge> 0. f64_of_rat r = Fin q)"
  using r64.nonneg [OF assms] by (auto simp: f64_of_rat_def clip64_def)

lemma inverse_exp_unit:
  assumes ok: "exp_ok exp64" and x: "x = Inf False \<or> (\<exists>q \<ge> 0. x = Fin q)"
  obtains u where "f64_div (f64_int 1) (exp64 x) = Fin u" "0 \<le> u" "u \<le> 1"
proof -
  have one: "f64_int 1 = Fin 1" using f64_int_small [of 1] by simp
  from ok x consider "exp64 x = Inf False" | e where "1 \<le> e" "exp64 x = Fin e"
    by (auto simp: exp_ok_def)
  then show ?thesis
  proof cases
    case 1
    with one that [of 0] show ?thesis by simp
  next
    case 2
    then have i: "0 \<le> 1 / e" "1 / e \<le> 1" by simp_all
    then have "\<bar>1 / e\<bar> \<le> 2 ^ 64" by (simp only: abs_of_nonneg) (erule order_trans, simp)
    then have "f64_div (f64_int 1) (exp64 x) = Fin (round64 (1 / e))"
      using 2 by (simp add: one f64_of_rat_small)
    with that r64.unit [OF i] show ?thesis by blast
  qed
qed

lemma f64_mul_Fin_commute: "f64_mul (Fin a) x = f64_mul x (Fin a)"
  by (cases x) (simp_all add: mult.commute)

text \<open>A sane exponential policy: a positive time scale, and a threshold that is a share of the maximum.\<close>

definition exponential_ok :: "duration \<Rightarrow> f64 \<Rightarrow> goint \<Rightarrow> bool" where
  "exponential_ok multiplier threshold maxScore \<longleftrightarrow>
     0 < multiplier \<and> multiplier \<le> max_duration \<and> 0 \<le> sint maxScore \<and> sint maxScore \<le> 2 ^ 53 \<and>
     (case threshold of Fin t \<Rightarrow> 0 \<le> t \<and> t \<le> 1 | _ \<Rightarrow> False)"

lemma time_Sub_late: "deadline \<le> submitTime \<Longrightarrow> 0 \<le> time_Sub submitTime deadline \<and> time_Sub submitTime deadline \<le> max_duration"
  by (simp add: time_Sub_def min_duration_def max_duration_def)

lemma exponential_Score_late:
  assumes exp: "exp_ok exp64" and ok: "exponential_ok multiplier (Fin t) maxScore"
    and late: "deadline \<le> submitTime"
  obtains f where
    "sint (exponential_Score exp64 multiplier (Fin t) maxScore deadline submitTime) = scaled (sint maxScore) f"
    "t \<le> f" "f \<le> 1" "submitTime = deadline \<Longrightarrow> f = 1"
proof -
  from ok have mu: "0 < multiplier" "multiplier \<le> max_duration" and t: "0 \<le> t" "t \<le> 1"
    and n: "0 \<le> sint maxScore" "sint maxScore \<le> 2 ^ 53" by (auto simp: exponential_ok_def)
  let ?d = "time_Sub submitTime deadline"
  let ?ex = "f64_div (Seconds ?d) (Seconds multiplier)"
  from time_Sub_late [OF late] have d: "Seconds ?d = Fin (sec ?d)" "0 \<le> sec ?d"
    by (simp_all add: Seconds_nonneg sec_nonneg)
  from mu have m: "Seconds multiplier = Fin (sec multiplier)" "0 < sec multiplier"
    by (simp_all add: Seconds_nonneg sec_pos)
  have x: "?ex = Inf False \<or> (\<exists>q \<ge> 0. ?ex = Fin q)"
    using d m f64_of_rat_nonneg [of "sec ?d / sec multiplier"] by simp
  from inverse_exp_unit [OF exp x] obtain u where u: "f64_div (f64_int 1) (exp64 ?ex) = Fin u" "0 \<le> u" "u \<le> 1" .
  have mx: "f64_max (Fin t) (Fin u) = Fin (max t u)" by (simp add: f64_max_def max_def)
  have now: "max t u = 1" if "submitTime = deadline"
  proof -
    have "sec 0 = 0" "f64_int 1 = Fin 1" using f64_int_small [of 1] by (simp_all add: sec_def)
    with that m have "f64_div (f64_int 1) (exp64 ?ex) = Fin 1"
      using d(1) exp by (simp add: time_Sub_def min_duration_def max_duration_def f64_of_rat_small exp_ok_def round64_of_int [of 1, simplified])
    with u t show ?thesis by simp
  qed
  show ?thesis
  proof (rule that [of "max t u"])
    show "sint (exponential_Score exp64 multiplier (Fin t) maxScore deadline submitTime)
        = scaled (sint maxScore) (max t u)"
      using late u t score_of_factor [OF refl n, of "max t u"]
      by (simp add: exponential_Score_def Before_def Let_def mx f64_mul_Fin_commute)
  qed (use u t now in auto)
qed

lemma exponential_Score_range:
  assumes "exp_ok exp64" and "exponential_ok multiplier (Fin t) maxScore"
  shows "scaled (sint maxScore) t \<le> sint (exponential_Score exp64 multiplier (Fin t) maxScore deadline submitTime)
    \<and> sint (exponential_Score exp64 multiplier (Fin t) maxScore deadline submitTime) \<le> sint maxScore"
proof -
  from assms(2) have n: "0 \<le> sint maxScore" "sint maxScore \<le> 2 ^ 53" and t: "0 \<le> t" "t \<le> 1"
    by (auto simp: exponential_ok_def)
  show ?thesis
  proof (cases "submitTime < deadline")
    case True
    with scaled_bounds [OF n t] show ?thesis by (simp add: exponential_Score_def Before_def)
  next
    case False
    with exponential_Score_late [OF assms, of deadline submitTime] obtain f where
      f: "sint (exponential_Score exp64 multiplier (Fin t) maxScore deadline submitTime) = scaled (sint maxScore) f"
      "t \<le> f" "f \<le> 1" by auto
    with t scaled_bounds [OF n, of f] scaled_mono [OF n(1) f(2)] show ?thesis by auto
  qed
qed

lemma exponential_Score_full:
  assumes "exp_ok exp64" and "exponential_ok multiplier (Fin t) maxScore" and "submitTime \<le> deadline"
  shows "exponential_Score exp64 multiplier (Fin t) maxScore deadline submitTime = maxScore"
proof (cases "submitTime < deadline")
  case True
  then show ?thesis by (simp add: exponential_Score_def Before_def)
next
  case False
  with assms(3) have now: "submitTime = deadline" by simp
  from assms(2) have n: "0 \<le> sint maxScore" "sint maxScore \<le> 2 ^ 53" by (auto simp: exponential_ok_def)
  from exponential_Score_late [OF assms(1,2), of deadline submitTime] now obtain f where
    "sint (exponential_Score exp64 multiplier (Fin t) maxScore deadline submitTime) = scaled (sint maxScore) f" "f = 1" by auto
  with scaled_one [OF n] show ?thesis by (intro signed_word_eqI) simp
qed

text \<open>A policy that is sane for a maximal score, and what the interface promises for it.\<close>

fun policy_ok :: "(f64 \<Rightarrow> f64) \<Rightarrow> goint \<Rightarrow> ScoringPolicy \<Rightarrow> bool" where
  "policy_ok exp64 maxScore (ExponentialScore multiplier threshold) =
     (exp_ok exp64 \<and> exponential_ok multiplier threshold maxScore)"
| "policy_ok exp64 maxScore (LinearScore after multiplier) = linear_ok after multiplier maxScore"

lemma Score_range:
  assumes "policy_ok exp64 maxScore policy"
  shows "0 \<le> sint (Score exp64 policy maxScore deadline submitTime)
    \<and> sint (Score exp64 policy maxScore deadline submitTime) \<le> sint maxScore"
proof (cases policy)
  case (ExponentialScore multiplier threshold)
  with assms obtain t where ok: "exp_ok exp64" "exponential_ok multiplier (Fin t) maxScore" and th: "threshold = Fin t"
    by (cases threshold) (auto simp: exponential_ok_def)
  then have "0 \<le> scaled (sint maxScore) t" using scaled_bounds by (auto simp: exponential_ok_def)
  with exponential_Score_range [OF ok, of deadline submitTime] show ?thesis by (simp add: ExponentialScore th)
next
  case (LinearScore after multiplier)
  with assms linear_Score_range show ?thesis by simp
qed

lemma Score_early:
  "submitTime < deadline \<Longrightarrow> Score exp64 policy maxScore deadline submitTime = maxScore"
  by (cases policy) (simp_all add: exponential_Score_def linear_Score_def Before_def)

section \<open>Properties\<close>

text \<open>
  C10. For a linear policy whose multiplier is a share of the maximum, the score is never negative and
  never above the maximal score; a submission before the deadline, or at it when the window is not
  empty, gets the maximal score, and one after the window the maximal score times the multiplier, rounded down.
\<close>

theorem linear_Score_correct:
  assumes "linear_ok after (Fin m) maxScore"
  shows "0 \<le> sint (linear_Score after (Fin m) maxScore deadline submitTime)
    \<and> sint (linear_Score after (Fin m) maxScore deadline submitTime) \<le> sint maxScore
    \<and> (submitTime < deadline \<or> submitTime = deadline \<and> 0 < after \<longrightarrow>
         linear_Score after (Fin m) maxScore deadline submitTime = maxScore)
    \<and> (deadline \<le> submitTime \<and> deadline + after \<le> submitTime \<longrightarrow>
         sint (linear_Score after (Fin m) maxScore deadline submitTime) = scaled (sint maxScore) m)"
  using linear_Score_range [OF assms] linear_Score_late [OF assms] linear_Score_early by blast

lemma linear_Score_correct_witness:
  "0 \<le> sint (linear_Score 604800000000000 (Fin (1 / 2)) 9000 0 3600000000000)
   \<and> sint (linear_Score 604800000000000 (Fin (1 / 2)) 9000 0 3600000000000) \<le> 9000
   \<and> linear_Score 604800000000000 (Fin (1 / 2)) 9000 0 3600000000000 = 8973
   \<and> sint (linear_Score 604800000000000 (Fin (1 / 2)) 9000 0 604800000000000) = 4500"
proof -
  have ok: "linear_ok 604800000000000 (Fin (1 / 2)) 9000"
    by (simp add: linear_ok_def max_duration_def)
  have "scaled 9000 (1 / 2) = 4500" by (simp add: scaled_def f64_eval)
  with linear_Score_correct [OF ok, of 0 3600000000000] linear_Score_correct [OF ok, of 0 604800000000000]
  show ?thesis by (simp, simp add: score_eval)
qed

text \<open>
  C11. For an exponential policy with a positive time scale and a threshold that is a share of the maximum, the
  score is never above the maximal score and never below the maximal score times the
  threshold, rounded down; a submission at or before the deadline gets the maximal score.
\<close>

theorem exponential_Score_correct:
  assumes "exp_ok exp64" and "exponential_ok multiplier (Fin t) maxScore"
  shows "scaled (sint maxScore) t \<le> sint (exponential_Score exp64 multiplier (Fin t) maxScore deadline submitTime)
    \<and> sint (exponential_Score exp64 multiplier (Fin t) maxScore deadline submitTime) \<le> sint maxScore
    \<and> (submitTime \<le> deadline \<longrightarrow>
         exponential_Score exp64 multiplier (Fin t) maxScore deadline submitTime = maxScore)"
  using exponential_Score_range [OF assms] exponential_Score_full [OF assms] by blast

lemma exponential_Score_correct_witness:
  "scaled 9000 (1 / 4) \<le> sint (exponential_Score (f64_add (Fin 1)) 604800000000000 (Fin (1 / 4)) 9000 0 604800000000000)
   \<and> sint (exponential_Score (f64_add (Fin 1)) 604800000000000 (Fin (1 / 4)) 9000 0 604800000000000) \<le> 9000
   \<and> exponential_Score (f64_add (Fin 1)) 604800000000000 (Fin (1 / 4)) 9000 0 604800000000000 = 4500"
proof -
  have "f64_add (Fin 1) (Fin r) = Inf False \<or> (\<exists>e \<ge> 1. f64_add (Fin 1) (Fin r) = Fin e)" if "0 \<le> r" for r
    using that round64_mono [of 1 "1 + r"] by (auto simp: f64_of_rat_def clip64_def round64_of_int [of 1, simplified])
  then have exp: "exp_ok (f64_add (Fin 1))"
    by (simp add: exp_ok_def f64_of_rat_small round64_of_int [of 1, simplified])
  have ok: "exponential_ok 604800000000000 (Fin (1 / 4)) 9000"
    by (simp add: exponential_ok_def max_duration_def)
  from exponential_Score_correct [OF exp ok, of 0 604800000000000]
  show ?thesis by (simp, simp add: score_eval)
qed



end
