(* ===== verification/Deadlines.thy ===== *)
theory Deadlines
  imports Models "HOL-Library.AList"
begin

text \<open>
  Package \<open>internal/deadlines\<close>, file \<open>deadlines.go\<close>: the course plan, the maps from names
  to scoring groups and policies that \<open>buildScoringGroups\<close> makes, and the lookups in them.
\<close>

section \<open>Lookups\<close>

definition scoring_group_name :: "Deadlines \<Rightarrow> TaskGroup \<Rightarrow> string" where
  "scoring_group_name d grp =
     (if tgGroup grp = [] then scDefaultGroup (dlScoring d) else tgGroup grp)"

text \<open>The pointer that \<open>GetScoringGroup\<close> returns, and the group it points to.\<close>

definition scoring_group_ref :: "Deadlines \<Rightarrow> TaskGroup \<Rightarrow> nat option" where
  "scoring_group_ref d grp = dlgroups d (scoring_group_name d grp)"

definition GetScoringGroup :: "Deadlines \<Rightarrow> TaskGroup \<Rightarrow> ScoringGroup option" where
  "GetScoringGroup d grp =
     (case scoring_group_ref d grp of
        None \<Rightarrow> None
      | Some i \<Rightarrow> Some (scGroups (dlScoring d) ! i))"

definition GetScoringPolicy :: "Deadlines \<Rightarrow> TaskGroup \<Rightarrow> ScoringPolicy option" where
  "GetScoringPolicy d grp =
     (case GetScoringGroup d grp of
        None \<Rightarrow> None
      | Some g \<Rightarrow>
          (case dlpolicies d (sgPolicy g) of
             None \<Rightarrow> None
           | Some policy \<Rightarrow> policy))"

definition HasTask :: "Deadlines \<Rightarrow> string \<Rightarrow> bool" where
  "HasTask d name =
     list_ex (\<lambda>assignment. list_ex (\<lambda>task. tkTask task = name) (tgTasks assignment)) (dlAssignments d)"

section \<open>buildScoringGroups\<close>

fun policy_map :: "ScoringPolicySpec list \<Rightarrow> (string \<rightharpoonup> ScoringPolicy option) \<Rightarrow> (string \<rightharpoonup> ScoringPolicy option)" where
  "policy_map [] m = m"
| "policy_map (p # ps) m = policy_map ps (m(spName p \<mapsto> spPolicy p))"

fun group_map :: "nat \<Rightarrow> ScoringGroup list \<Rightarrow> (string \<rightharpoonup> nat) \<Rightarrow> (string \<rightharpoonup> nat)" where
  "group_map i [] m = m"
| "group_map i (g # gs) m = group_map (Suc i) gs (m(sgName g \<mapsto> i))"

fun total_score :: "Task list \<Rightarrow> goint \<Rightarrow> goint" where
  "total_score [] acc = acc"
| "total_score (t # ts) acc = total_score ts (acc + tkScore t)"

text \<open>
  \<open>maxScores\<close> is a Go map; here it is an association list, and the loop that ranges over it
  takes the entries in the order of the list. Go leaves the order open: \<open>apply_max_scores_order\<close> below
  shows that it does not matter.
\<close>

fun collect_max_scores :: "Deadlines \<Rightarrow> TaskGroup list \<Rightarrow> (string \<times> goint) list \<Rightarrow> (string \<times> goint) list" where
  "collect_max_scores d [] ms = ms"
| "collect_max_scores d (a # as) ms =
     collect_max_scores d as
       (case GetScoringGroup d a of
          None \<Rightarrow> ms
        | Some grp \<Rightarrow>
            if sgMaxScore grp = 0
            then AList.update (sgName grp)
                   ((case map_of ms (sgName grp) of None \<Rightarrow> 0 | Some v \<Rightarrow> v) + total_score (tgTasks a) 0) ms
            else ms)"

fun apply_max_scores :: "(string \<rightharpoonup> nat) \<Rightarrow> (string \<times> goint) list \<Rightarrow> ScoringGroup list \<Rightarrow> ScoringGroup list outcome" where
  "apply_max_scores refs [] gs = Ret gs"
| "apply_max_scores refs ((k, v) # ms) gs =
     (case refs k of
        None \<Rightarrow> Panic ''nil pointer dereference''
      | Some i \<Rightarrow> apply_max_scores refs ms (gs[i := (gs ! i)\<lparr>sgMaxScore := v\<rparr>]))"

definition with_maps :: "Deadlines \<Rightarrow> Deadlines" where
  "with_maps d =
     d\<lparr>dlpolicies := policy_map (scPolicies (dlScoring d)) Map.empty,
       dlgroups := group_map 0 (scGroups (dlScoring d)) Map.empty\<rparr>"

definition buildScoringGroups :: "Deadlines \<Rightarrow> Deadlines outcome" where
  "buildScoringGroups d =
     (let d1 = with_maps d
      in and_then
           (apply_max_scores (dlgroups d1) (collect_max_scores d1 (dlAssignments d1) []) (scGroups (dlScoring d1)))
           (\<lambda>gs. Ret (d1\<lparr>dlScoring := (dlScoring d1)\<lparr>scGroups := gs\<rparr>\<rparr>)))"

section \<open>The maps\<close>

lemma total_score_eq: "total_score ts acc = acc + sum_list (map tkScore ts)"
  by (induction ts arbitrary: acc) (simp_all add: add.assoc)

lemma group_map_None_iff: "group_map i gs m n = None \<longleftrightarrow> m n = None \<and> n \<notin> sgName ` set gs"
  by (induction gs arbitrary: i m) auto

lemma group_map_Some:
  "group_map i gs m n = Some j \<Longrightarrow>
     (m n = Some j \<and> n \<notin> sgName ` set gs)
     \<or> (i \<le> j \<and> j < i + length gs \<and> sgName (gs ! (j - i)) = n
        \<and> (\<forall>k < length gs. j - i < k \<longrightarrow> sgName (gs ! k) \<noteq> n))"
proof (induction i gs m rule: group_map.induct)
  case (1 i m)
  then show ?case by simp
next
  case (2 i g gs m)
  from "2.prems" have "group_map (Suc i) gs (m(sgName g \<mapsto> i)) n = Some j" by simp
  from "2.IH" [OF this] show ?case
  proof (elim disjE conjE)
    assume m: "(m(sgName g \<mapsto> i)) n = Some j" and n: "n \<notin> sgName ` set gs"
    show ?thesis
    proof (cases "sgName g = n")
      case True
      with m have "j = i" by simp
      moreover have "sgName (gs ! k) \<noteq> n" if "k < length gs" for k
        using n that by (metis imageI nth_mem)
      ultimately show ?thesis using True by (auto simp: nth_Cons split: nat.splits)
    next
      case False
      with m n show ?thesis by auto
    qed
  next
    assume le: "Suc i \<le> j" and "j < Suc i + length gs" "sgName (gs ! (j - Suc i)) = n"
      and later: "\<forall>k < length gs. j - Suc i < k \<longrightarrow> sgName (gs ! k) \<noteq> n"
    moreover from le obtain l where "j = Suc (i + l)" by (metis Suc_le_D Suc_le_mono le_Suc_ex)
    ultimately show ?thesis by (auto simp: nth_Cons split: nat.splits)
  qed
qed

definition refs_of :: "ScoringGroup list \<Rightarrow> string \<rightharpoonup> nat" where
  "refs_of gs = group_map 0 gs Map.empty"

lemma refs_of_Some:
  assumes "refs_of gs n = Some j"
  shows "j < length gs \<and> sgName (gs ! j) = n \<and> (\<forall>k < length gs. j < k \<longrightarrow> sgName (gs ! k) \<noteq> n)"
  using group_map_Some [of 0 gs Map.empty n j] assms by (simp add: refs_of_def)

lemma refs_of_None_iff: "refs_of gs n = None \<longleftrightarrow> n \<notin> sgName ` set gs"
  by (simp add: refs_of_def group_map_None_iff)

lemma dlgroups_with_maps [simp]: "dlgroups (with_maps d) = refs_of (scGroups (dlScoring d))"
  by (simp add: with_maps_def refs_of_def)

lemma with_maps_simps [simp]:
  "dlAssignments (with_maps d) = dlAssignments d"
  "dlScoring (with_maps d) = dlScoring d"
  "scoring_group_name (with_maps d) a = scoring_group_name d a"
  by (simp_all add: with_maps_def scoring_group_name_def)

section \<open>The computed maximal scores\<close>

text \<open>
  What \<open>buildScoringGroups\<close> is meant to compute: the sum of the task scores of all assignments that
  belong to the scoring group of the name.
\<close>

definition group_total :: "Deadlines \<Rightarrow> TaskGroup list \<Rightarrow> string \<Rightarrow> goint" where
  "group_total d as n =
     sum_list (map (\<lambda>a. sum_list (map tkScore (tgTasks a))) (filter (\<lambda>a. scoring_group_name d a = n) as))"

lemma group_total_simps [simp]:
  "group_total d [] n = 0"
  "group_total d (a # as) n =
     (if scoring_group_name d a = n then sum_list (map tkScore (tgTasks a)) else 0) + group_total d as n"
  by (simp_all add: group_total_def)

lemma GetScoringGroup_with_maps:
  "GetScoringGroup (with_maps d) a =
     map_option (\<lambda>i. scGroups (dlScoring d) ! i) (refs_of (scGroups (dlScoring d)) (scoring_group_name d a))"
  by (simp add: GetScoringGroup_def scoring_group_ref_def split: option.split)

definition entry :: "(string \<times> goint) list \<Rightarrow> string \<Rightarrow> goint" where
  "entry ms k = (case map_of ms k of None \<Rightarrow> 0 | Some v \<Rightarrow> v)"

lemma distinct_collect:
  "distinct (map fst ms) \<Longrightarrow> distinct (map fst (collect_max_scores d as ms))"
  by (induction d as ms rule: collect_max_scores.induct)
    (auto simp: distinct_update split: option.splits)

text \<open>A group takes part when its maximal score is left to be computed.\<close>

definition open_group :: "Deadlines \<Rightarrow> string \<Rightarrow> bool" where
  "open_group d n =
     (case refs_of (scGroups (dlScoring d)) n of
        None \<Rightarrow> False
      | Some i \<Rightarrow> sgMaxScore (scGroups (dlScoring d) ! i) = 0)"

lemma entry_update [simp]: "entry (AList.update k v ms) n = (if n = k then v else entry ms n)"
  by (simp add: entry_def update_conv')

lemma collect_entry:
  assumes "open_group d n"
  shows "entry (collect_max_scores (with_maps d) as ms) n = entry ms n + group_total d as n"
proof (induction as arbitrary: ms)
  case Nil
  then show ?case by simp
next
  case (Cons a as)
  let ?gs = "scGroups (dlScoring d)" and ?name = "scoring_group_name d a"
  show ?case
  proof (cases "refs_of ?gs ?name")
    case None
    with assms have "?name \<noteq> n" by (auto simp: open_group_def)
    with None Cons.IH [of ms] show ?thesis by (simp add: GetScoringGroup_with_maps)
  next
    case (Some i)
    then have "sgName (?gs ! i) = ?name" by (simp add: refs_of_Some)
    moreover have "?name = n \<Longrightarrow> sgMaxScore (?gs ! i) = 0"
      using assms Some by (simp add: open_group_def)
    ultimately show ?thesis using Some Cons.IH
      by (simp add: GetScoringGroup_with_maps total_score_eq entry_def [symmetric] add.assoc)
  qed
qed

lemma collect_keys:
  "fst ` set (collect_max_scores (with_maps d) as ms)
     \<subseteq> fst ` set ms \<union> {n. open_group d n}"
proof (induction as arbitrary: ms)
  case Nil
  then show ?case by simp
next
  case (Cons a as)
  show ?case
  proof (cases "refs_of (scGroups (dlScoring d)) (scoring_group_name d a)")
    case None
    with Cons.IH [of ms] show ?thesis by (simp add: GetScoringGroup_with_maps)
  next
    case (Some i)
    let ?g = "scGroups (dlScoring d) ! i"
    from Some have name: "sgName ?g = scoring_group_name d a" by (simp add: refs_of_Some)
    show ?thesis
    proof (cases "sgMaxScore ?g = 0")
      case True
      with Some have "open_group d (sgName ?g)" by (simp add: open_group_def name)
      moreover obtain ms' where ms': "ms' = AList.update (sgName ?g) (entry ms (sgName ?g) + total_score (tgTasks a) 0) ms"
        by simp
      ultimately have "fst ` set ms' \<subseteq> fst ` set ms \<union> {n. open_group d n}"
        by (simp add: dom_update)
      with Cons.IH [of ms'] show ?thesis
        by (simp add: GetScoringGroup_with_maps Some True ms' entry_def) blast
    next
      case False
      with Some Cons.IH [of ms] show ?thesis by (simp add: GetScoringGroup_with_maps)
    qed
  qed
qed

section \<open>The result of buildScoringGroups\<close>

definition set_max :: "(string \<rightharpoonup> nat) \<Rightarrow> (string \<rightharpoonup> goint) \<Rightarrow> nat \<Rightarrow> ScoringGroup \<Rightarrow> ScoringGroup" where
  "set_max refs ms i g =
     (if refs (sgName g) = Some i
      then (case ms (sgName g) of None \<Rightarrow> g | Some v \<Rightarrow> g\<lparr>sgMaxScore := v\<rparr>)
      else g)"

definition set_max_all :: "(string \<rightharpoonup> nat) \<Rightarrow> (string \<rightharpoonup> goint) \<Rightarrow> ScoringGroup list \<Rightarrow> ScoringGroup list" where
  "set_max_all refs ms gs = map (\<lambda>i. set_max refs ms i (gs ! i)) [0..<length gs]"

lemma set_max_all_nth [simp]:
  "length (set_max_all refs ms gs) = length gs"
  "j < length gs \<Longrightarrow> set_max_all refs ms gs ! j = set_max refs ms j (gs ! j)"
  by (simp_all add: set_max_all_def)

lemma apply_max_scores_eq:
  assumes "distinct (map fst ms)" and "\<forall>k \<in> fst ` set ms. \<exists>i. refs k = Some i"
    and "\<forall>k i. refs k = Some i \<longrightarrow> i < length gs \<and> sgName (gs ! i) = k"
  shows "apply_max_scores refs ms gs = Ret (set_max_all refs (map_of ms) gs)"
  using assms
proof (induction ms arbitrary: gs)
  case Nil
  then show ?case by (simp add: set_max_all_def set_max_def map_nth cong: if_cong)
next
  case (Cons kv ms)
  obtain k v where kv: "kv = (k, v)" by fastforce
  from Cons.prems(2) kv obtain i where i: "refs k = Some i" by auto
  with Cons.prems(3) have il: "i < length gs" "sgName (gs ! i) = k" by auto
  let ?gs = "gs[i := (gs ! i)\<lparr>sgMaxScore := v\<rparr>]"
  have names: "sgName (?gs ! j) = sgName (gs ! j)" if "j < length gs" for j
    using that il by (cases "j = i") simp_all
  have "apply_max_scores refs ms ?gs = Ret (set_max_all refs (map_of ms) ?gs)"
    using Cons.prems names by (intro Cons.IH) auto
  moreover have "set_max_all refs (map_of ms) ?gs = set_max_all refs (map_of (kv # ms)) gs"
  proof (rule nth_equalityI)
    show "length (set_max_all refs (map_of ms) ?gs) = length (set_max_all refs (map_of (kv # ms)) gs)"
      by simp
    fix j assume "j < length (set_max_all refs (map_of ms) ?gs)"
    then have j: "j < length gs" by simp
    have k: "map_of ms k = None" using Cons.prems(1) kv by (simp add: map_of_eq_None_iff)
    show "set_max_all refs (map_of ms) ?gs ! j = set_max_all refs (map_of (kv # ms)) gs ! j"
      using j il i k kv by (cases "j = i") (auto simp: set_max_def)
  qed
  ultimately show ?case using kv i by (simp add: fun_upd_def)
qed

lemma map_of_permuted:
  "mset ms = mset ms' \<Longrightarrow> distinct (map fst ms) \<Longrightarrow> map_of ms = map_of ms'"
  by (metis map_of_inject_set mset_eq_imp_distinct_iff mset_map set_mset_mset)

lemma refs_ok: "\<forall>k i. refs_of gs k = Some i \<longrightarrow> i < length gs \<and> sgName (gs ! i) = k"
  by (simp add: refs_of_Some)

lemma collected_ok:
  "distinct (map fst (collect_max_scores (with_maps d) (dlAssignments d) []))"
  "\<forall>k \<in> fst ` set (collect_max_scores (with_maps d) (dlAssignments d) []).
     \<exists>i. refs_of (scGroups (dlScoring d)) k = Some i"
  using distinct_collect [of "[]"] collect_keys [of d "dlAssignments d" "[]"]
  by (auto simp: open_group_def split: option.splits)

text \<open>The scoring group at position \<open>i\<close> after \<open>buildScoringGroups\<close>.\<close>

definition built_group :: "Deadlines \<Rightarrow> nat \<Rightarrow> ScoringGroup \<Rightarrow> ScoringGroup" where
  "built_group d i g =
     (if refs_of (scGroups (dlScoring d)) (sgName g) = Some i \<and> sgMaxScore g = 0
      then g\<lparr>sgMaxScore := group_total d (dlAssignments d) (sgName g)\<rparr>
      else g)"

lemma set_max_collected:
  assumes "i < length (scGroups (dlScoring d))" and g: "g = scGroups (dlScoring d) ! i"
  shows "set_max (refs_of (scGroups (dlScoring d)))
           (map_of (collect_max_scores (with_maps d) (dlAssignments d) [])) i g = built_group d i g"
proof (cases "refs_of (scGroups (dlScoring d)) (sgName g) = Some i")
  case False
  then show ?thesis by (simp add: set_max_def built_group_def)
next
  case True
  let ?ms = "collect_max_scores (with_maps d) (dlAssignments d) []"
  show ?thesis
  proof (cases "sgMaxScore g = 0")
    case open_g: True
    with True g have "open_group d (sgName g)" by (simp add: open_group_def)
    from collect_entry [OF this, of "dlAssignments d" "[]"]
    have "entry ?ms (sgName g) = group_total d (dlAssignments d) (sgName g)"
      by (simp add: entry_def [of "[]"])
    with True open_g show ?thesis
      by (auto simp: set_max_def built_group_def entry_def split: option.splits)
  next
    case closed: False
    with True g have "\<not> open_group d (sgName g)" by (simp add: open_group_def)
    then have "sgName g \<notin> fst ` set ?ms"
      using collect_keys [of d "dlAssignments d" "[]"] by auto
    then have "map_of ?ms (sgName g) = None" by (simp add: map_of_eq_None_iff)
    with True closed show ?thesis by (simp add: set_max_def built_group_def)
  qed
qed

lemma buildScoringGroups_eq:
  "buildScoringGroups d =
     Ret ((with_maps d)\<lparr>dlScoring := (dlScoring d)\<lparr>scGroups :=
            map (\<lambda>i. built_group d i (scGroups (dlScoring d) ! i)) [0..<length (scGroups (dlScoring d))]\<rparr>\<rparr>)"
proof -
  let ?gs = "scGroups (dlScoring d)"
  let ?ms = "collect_max_scores (with_maps d) (dlAssignments d) []"
  have "apply_max_scores (refs_of ?gs) ?ms ?gs = Ret (set_max_all (refs_of ?gs) (map_of ?ms) ?gs)"
    by (rule apply_max_scores_eq [OF collected_ok refs_ok])
  moreover have "set_max_all (refs_of ?gs) (map_of ?ms) ?gs = map (\<lambda>i. built_group d i (?gs ! i)) [0..<length ?gs]"
    by (simp add: set_max_all_def set_max_collected)
  ultimately show ?thesis by (simp add: buildScoringGroups_def Let_def)
qed

lemma group_map_snoc: "group_map i (gs @ [g]) m = (group_map i gs m)(sgName g \<mapsto> i + length gs)"
  by (induction gs arbitrary: i m) auto

lemma refs_of_find:
  "map_option (\<lambda>i. gs ! i) (refs_of gs n) = List.find (\<lambda>g. sgName g = n) (rev gs)"
proof (induction gs rule: rev_induct)
  case Nil
  then show ?case by (simp add: refs_of_def)
next
  case (snoc g gs)
  have "map_option (\<lambda>i. (gs @ [g]) ! i) (refs_of gs n) = map_option (\<lambda>i. gs ! i) (refs_of gs n)"
    by (rule option.map_cong [OF refl]) (simp add: refs_of_Some nth_append)
  with snoc show ?case by (simp add: refs_of_def group_map_snoc)
qed

lemma policy_map_find:
  "policy_map ps m n =
     (case List.find (\<lambda>p. spName p = n) (rev ps) of None \<Rightarrow> m n | Some p \<Rightarrow> Some (spPolicy p))"
proof (induction ps arbitrary: m)
  case Nil
  then show ?case by simp
next
  case (Cons p ps)
  then show ?case by (auto simp: find_append split: option.splits)
qed

text \<open>
  The scoring group an assignment of the plan belongs to: the last one declared with the name, its maximal score
  the declared one, or the sum of the scores of the group's tasks when none is declared.
\<close>

definition declared_group :: "Deadlines \<Rightarrow> TaskGroup \<Rightarrow> ScoringGroup option" where
  "declared_group d a =
     List.find (\<lambda>g. sgName g = scoring_group_name d a) (rev (scGroups (dlScoring d)))"

definition effective_group :: "Deadlines \<Rightarrow> ScoringGroup \<Rightarrow> ScoringGroup" where
  "effective_group d g =
     (if sgMaxScore g = 0 then g\<lparr>sgMaxScore := group_total d (dlAssignments d) (sgName g)\<rparr> else g)"

definition declared_policy :: "Deadlines \<Rightarrow> TaskGroup \<Rightarrow> ScoringPolicy option" where
  "declared_policy d a =
     Option.bind (declared_group d a)
       (\<lambda>g. Option.bind (List.find (\<lambda>p. spName p = sgPolicy g) (rev (scPolicies (dlScoring d)))) spPolicy)"

lemma GetScoringGroup_built:
  assumes "buildScoringGroups d = Ret d'"
  shows "GetScoringGroup d' a = map_option (effective_group d) (declared_group d a)"
proof -
  let ?gs = "scGroups (dlScoring d)"
  from assms have d': "d' = (with_maps d)\<lparr>dlScoring := (dlScoring d)\<lparr>scGroups :=
      map (\<lambda>i. built_group d i (?gs ! i)) [0..<length ?gs]\<rparr>\<rparr>"
    by (simp add: buildScoringGroups_eq)
  have n: "scoring_group_name d' a = scoring_group_name d a"
    by (simp add: d' scoring_group_name_def)
  have "GetScoringGroup d' a =
      map_option (\<lambda>i. built_group d i (?gs ! i)) (refs_of ?gs (scoring_group_name d a))"
    unfolding GetScoringGroup_def scoring_group_ref_def n
    by (auto simp: d' refs_of_Some split: option.split)
  also have "\<dots> = map_option (\<lambda>i. effective_group d (?gs ! i)) (refs_of ?gs (scoring_group_name d a))"
    by (rule option.map_cong [OF refl]) (auto simp: built_group_def effective_group_def refs_of_Some)
  also have "\<dots> = map_option (effective_group d) (declared_group d a)"
    by (simp add: declared_group_def flip: refs_of_find) (simp add: option.map_comp o_def)
  finally show ?thesis .
qed

lemma GetScoringPolicy_built:
  assumes "buildScoringGroups d = Ret d'"
  shows "GetScoringPolicy d' a = declared_policy d a"
proof -
  from assms have p: "dlpolicies d' = policy_map (scPolicies (dlScoring d)) Map.empty"
    by (auto simp: buildScoringGroups_eq with_maps_def)
  have "sgPolicy (effective_group d g) = sgPolicy g" for g by (simp add: effective_group_def)
  then show ?thesis
    by (auto simp: GetScoringPolicy_def GetScoringGroup_built [OF assms] declared_policy_def p
        policy_map_find split: option.splits)
qed

section \<open>Properties\<close>

text \<open>
  C9. \<open>buildScoringGroups\<close> returns no error and does not panic. Afterwards, for every
  assignment, \<open>GetScoringGroup\<close> gives the last scoring group declared with the assignment's group name (or
  the default name), its maximal score computed as the sum of the scores of all tasks of
  all assignments of that group when none is declared, and \<open>GetScoringPolicy\<close> gives the last policy declared
  with the name that group refers to. The assignments themselves are unchanged.
\<close>

theorem buildScoringGroups_correct:
  "\<exists>d'. buildScoringGroups d = Ret d' \<and> dlAssignments d' = dlAssignments d
     \<and> (\<forall>a. GetScoringGroup d' a = map_option (effective_group d) (declared_group d a)
            \<and> GetScoringPolicy d' a = declared_policy d a)"
proof -
  obtain d' where "buildScoringGroups d = Ret d'" and "dlAssignments d' = dlAssignments d"
    by (simp add: buildScoringGroups_eq)
  with GetScoringGroup_built GetScoringPolicy_built show ?thesis by blast
qed

text \<open>
  The order in which Go ranges over the map of computed maximal scores does not change the result.
\<close>

theorem apply_max_scores_order:
  assumes "mset ms = mset (collect_max_scores (with_maps d) (dlAssignments d) [])"
  shows "apply_max_scores (dlgroups (with_maps d)) ms (scGroups (dlScoring d)) =
         apply_max_scores (dlgroups (with_maps d))
           (collect_max_scores (with_maps d) (dlAssignments d) []) (scGroups (dlScoring d))"
proof -
  let ?ms = "collect_max_scores (with_maps d) (dlAssignments d) []" and ?gs = "scGroups (dlScoring d)"
  have d: "distinct (map fst ms)"
    using collected_ok(1) [of d] assms by (metis mset_eq_imp_distinct_iff mset_map)
  have "\<forall>k \<in> fst ` set ms. \<exists>i. refs_of ?gs k = Some i"
    using collected_ok(2) [of d] assms by (metis set_mset_mset)
  from apply_max_scores_eq [OF d this refs_ok] apply_max_scores_eq [OF collected_ok refs_ok]
    map_of_permuted [OF assms d]
  show ?thesis by simp
qed

definition sample_plan :: Deadlines where
  "sample_plan =
     \<lparr>dlAssignments =
        [\<lparr>tgTitle = ''A'', tgGroup = ''hw'', tgDeadline = 0, tgStart = 0, tgTasks = [\<lparr>tkTask = ''a'', tkScore = 10, tkCrashme = False\<rparr>]\<rparr>,
         \<lparr>tgTitle = ''B'', tgGroup = [], tgDeadline = 0, tgStart = 0, tgTasks = [\<lparr>tkTask = ''b'', tkScore = 20, tkCrashme = False\<rparr>]\<rparr>],
      dlScoring =
        \<lparr>scPolicies = [],
         scGroups = [\<lparr>sgName = ''hw'', sgWeight = Fin 1, sgMaxScore = 0, sgPolicy = []\<rparr>,
                     \<lparr>sgName = ''bonus'', sgWeight = Fin 1, sgMaxScore = 0, sgPolicy = []\<rparr>],
         scDefaultGroup = ''bonus'', scFinalDeadline = None, scRetakePenalty = Fin 1\<rparr>,
      dlpolicies = Map.empty, dlgroups = Map.empty\<rparr>"

lemma apply_max_scores_order_witness:
  "apply_max_scores (dlgroups (with_maps sample_plan)) [(''bonus'', 20), (''hw'', 10)] (scGroups (dlScoring sample_plan)) =
   Ret [\<lparr>sgName = ''hw'', sgWeight = Fin 1, sgMaxScore = 10, sgPolicy = []\<rparr>,
        \<lparr>sgName = ''bonus'', sgWeight = Fin 1, sgMaxScore = 20, sgPolicy = []\<rparr>]"
proof -
  have g: "scGroups (dlScoring sample_plan) =
      [\<lparr>sgName = ''hw'', sgWeight = Fin 1, sgMaxScore = 0, sgPolicy = []\<rparr>,
       \<lparr>sgName = ''bonus'', sgWeight = Fin 1, sgMaxScore = 0, sgPolicy = []\<rparr>]"
    by (simp add: sample_plan_def)
  have r: "dlgroups (with_maps sample_plan) = [''hw'' \<mapsto> 0, ''bonus'' \<mapsto> 1]"
    by (simp add: g refs_of_def)
  have a: "dlAssignments sample_plan =
      [\<lparr>tgTitle = ''A'', tgGroup = ''hw'', tgDeadline = 0, tgStart = 0, tgTasks = [\<lparr>tkTask = ''a'', tkScore = 10, tkCrashme = False\<rparr>]\<rparr>,
       \<lparr>tgTitle = ''B'', tgGroup = [], tgDeadline = 0, tgStart = 0, tgTasks = [\<lparr>tkTask = ''b'', tkScore = 20, tkCrashme = False\<rparr>]\<rparr>]"
    "scDefaultGroup (dlScoring sample_plan) = ''bonus''"
    by (simp_all add: sample_plan_def)
  have c: "collect_max_scores (with_maps sample_plan) (dlAssignments sample_plan) [] = [(''hw'', 10), (''bonus'', 20)]"
    unfolding a by (simp add: GetScoringGroup_with_maps g refs_of_def scoring_group_name_def a)
  have "mset [(''bonus'', 20), (''hw'', 10 :: goint)] =
      mset (collect_max_scores (with_maps sample_plan) (dlAssignments sample_plan) [])"
    by (simp add: c)
  from apply_max_scores_order [OF this] show ?thesis
    by (simp add: c r g del: dlgroups_with_maps)
qed

end
