(* ===== verification/Fetcher.thy ===== *)
theory Fetcher
  imports Deadlines
begin

text \<open>
  Package \<open>internal/deadlines\<close>, file \<open>fetcher.go\<close>: the download of the course plans of all groups and
  the atomically replaced map from group names to plans. The web and the YAML
  decoder are parameters: \<open>get i url\<close> answers the i-th request of a reload, \<open>yaml1\<close> and \<open>yaml2\<close> decode
  the two document formats; they panic when a method of the program that they call does. The pointer that \<open>yaml2\<close> fills is nil for
  the document \<open>null\<close>.
\<close>

record http_response =
  hrStatusCode :: int
  hrStatus :: string
  hrBody :: "gerror + string"

type_synonym http_get = "nat \<Rightarrow> string \<Rightarrow> gerror + http_response"
type_synonym yaml_v1 = "string \<Rightarrow> TaskGroup list outcome"
type_synonym yaml_v2 = "string \<Rightarrow> Deadlines option outcome"

section \<open>Decoding a plan\<close>

text \<open>
  The method that the decoder calls for one policy: the kind selects the type that the node \<open>spec\<close> is decoded into. The function
  that decodes this node was stored by the method of \<open>yamlNode\<close>; without such a node it is nil.
\<close>

definition UnmarshalPolicySpec ::
  "(string \<times> string) outcome \<Rightarrow> (ScoringPolicy outcome \<times> ScoringPolicy outcome) option \<Rightarrow> ScoringPolicySpec outcome" where
  "UnmarshalPolicySpec obj spec =
     and_then obj (\<lambda>(name, kind).
     if kind \<noteq> ''exp'' \<and> kind \<noteq> ''linear'' then Fail (Errorf (''unknown policy '' @ kind))
     else case spec of
            None \<Rightarrow> Panic ''nil pointer dereference''
          | Some (asExp, asLinear) \<Rightarrow>
              and_then (if kind = ''exp'' then asExp else asLinear) (\<lambda>policy.
              Ret \<lparr>spName = name, spKind = kind, spPolicy = Some policy\<rparr>))"

text \<open>So a plan with a policy of a known kind and no \<open>spec\<close> ends the program.\<close>

lemma missing_spec_panics:
  "UnmarshalPolicySpec (Ret (name, kind)) None =
     (if kind = ''exp'' \<or> kind = ''linear'' then Panic ''nil pointer dereference'' else Fail (Errorf (''unknown policy '' @ kind)))"
  by (auto simp: UnmarshalPolicySpec_def)

definition day :: duration where "day = 24 * 3600 * 1000000000"

definition defaultScoring :: Scoring where
  "defaultScoring =
     \<lparr>scPolicies = [\<lparr>spName = ''default'', spKind = ''exp'', spPolicy = Some (ExponentialScore (5 * day) (f64_of_rat (3 / 10)))\<rparr>],
      scGroups = [\<lparr>sgName = ''default'', sgWeight = Fin 10, sgMaxScore = 0, sgPolicy = ''default''\<rparr>],
      scDefaultGroup = ''default'', scFinalDeadline = None, scRetakePenalty = Fin 0\<rparr>"

definition buildOrWrap :: "Deadlines \<Rightarrow> Deadlines outcome" where
  "buildOrWrap d = map_fail (Wrap ''Failed to build scoring groups'') (buildScoringGroups d)"

definition parseV1 :: "yaml_v1 \<Rightarrow> string \<Rightarrow> Deadlines outcome" where
  "parseV1 yaml1 body =
     (case yaml1 body of
        Fail _ \<Rightarrow> Fail (Errorf ''Failed to unmarshal deadlines'')
      | Panic m \<Rightarrow> Panic m
      | Ret assignments \<Rightarrow>
          buildOrWrap \<lparr>dlAssignments = assignments, dlScoring = defaultScoring, dlpolicies = Map.empty, dlgroups = Map.empty\<rparr>)"

definition parseV2 :: "yaml_v2 \<Rightarrow> string \<Rightarrow> Deadlines outcome" where
  "parseV2 yaml2 body =
     (case yaml2 body of
        Fail _ \<Rightarrow> Fail (Errorf ''Failed to unmarshal deadlines'')
      | Panic m \<Rightarrow> Panic m
      | Ret None \<Rightarrow> Panic ''nil pointer dereference''
      | Ret (Some d) \<Rightarrow> buildOrWrap d)"

definition fetch :: "yaml_v1 \<Rightarrow> yaml_v2 \<Rightarrow> (string \<Rightarrow> gerror + http_response) \<Rightarrow> string \<Rightarrow> string \<Rightarrow> Deadlines outcome" where
  "fetch yaml1 yaml2 get url format =
     (case get url of
        Inl e \<Rightarrow> Fail (Wrap ''Failed to fetch deadlines'' e)
      | Inr resp \<Rightarrow>
          (if hrStatusCode resp \<noteq> 200 then Fail (Errorf (''failed to fetch deadlines: '' @ hrStatus resp))
           else case hrBody resp of
                  Inl e \<Rightarrow> Fail (Wrap ''Failed to read response'' e)
                | Inr body \<Rightarrow>
                    (if format = ''v1'' then parseV1 yaml1 body
                     else if format = ''v2'' then parseV2 yaml2 body
                     else parseV1 yaml1 body)))"

section \<open>The fetcher\<close>

record Fetcher =
  feCurrent :: "(string \<rightharpoonup> Deadlines) option"

fun reload_loop :: "yaml_v1 \<Rightarrow> yaml_v2 \<Rightarrow> http_get \<Rightarrow> nat \<Rightarrow> GroupConfig list \<Rightarrow> (string \<rightharpoonup> Deadlines) \<Rightarrow> (string \<rightharpoonup> Deadlines) outcome" where
  "reload_loop yaml1 yaml2 get i [] m = Ret m"
| "reload_loop yaml1 yaml2 get i (g # gs) m =
     and_then (map_fail (Wrap ''Failed to reload deadlines'') (fetch yaml1 yaml2 (get i) (gcDeadlinesURL g) (gcDeadlinesFormat g)))
       (\<lambda>d. reload_loop yaml1 yaml2 get (Suc i) gs (m(gcName g \<mapsto> d)))"

definition reload :: "yaml_v1 \<Rightarrow> yaml_v2 \<Rightarrow> http_get \<Rightarrow> GroupConfig list \<Rightarrow> Fetcher \<Rightarrow> Fetcher \<times> unit outcome" where
  "reload yaml1 yaml2 get groups f =
     (case reload_loop yaml1 yaml2 get 0 groups Map.empty of
        Ret m \<Rightarrow> (f\<lparr>feCurrent := Some m\<rparr>, Ret ())
      | Fail e \<Rightarrow> (f, Fail e)
      | Panic m \<Rightarrow> (f, Panic m))"

definition NewFetcher :: "yaml_v1 \<Rightarrow> yaml_v2 \<Rightarrow> http_get \<Rightarrow> GroupConfig list \<Rightarrow> Fetcher outcome" where
  "NewFetcher yaml1 yaml2 get groups =
     (case reload yaml1 yaml2 get groups \<lparr>feCurrent = None\<rparr> of
        (f, Ret _) \<Rightarrow> (if feCurrent f = None then Panic ''No deadlines found after reload'' else Ret f)
      | (f, Fail e) \<Rightarrow> Fail e
      | (f, Panic m) \<Rightarrow> Panic m)"

text \<open>
  The loop of \<open>Run\<close>, one web per tick, until the context is done; an error of a reload is dropped. The library refuses to
  make a ticker for an interval that is not positive.
\<close>

fun reload_ticks :: "yaml_v1 \<Rightarrow> yaml_v2 \<Rightarrow> GroupConfig list \<Rightarrow> http_get list \<Rightarrow> Fetcher \<Rightarrow> Fetcher outcome" where
  "reload_ticks yaml1 yaml2 groups [] f = Ret f"
| "reload_ticks yaml1 yaml2 groups (get # gets) f =
     (case reload yaml1 yaml2 get groups f of
        (f', Panic m) \<Rightarrow> Panic m
      | (f', _) \<Rightarrow> reload_ticks yaml1 yaml2 groups gets f')"

definition Run :: "yaml_v1 \<Rightarrow> yaml_v2 \<Rightarrow> GroupConfig list \<Rightarrow> duration \<Rightarrow> http_get list \<Rightarrow> Fetcher \<Rightarrow> Fetcher outcome" where
  "Run yaml1 yaml2 groups interval gets f =
     (if interval \<le> 0 then Panic ''non-positive interval for NewTicker'' else reload_ticks yaml1 yaml2 groups gets f)"

definition GroupDeadlines :: "Fetcher \<Rightarrow> string \<Rightarrow> Deadlines option" where
  "GroupDeadlines f grp = (case feCurrent f of None \<Rightarrow> None | Some m \<Rightarrow> m grp)"

text \<open>
  \<open>AnyGroupHasTask\<close> ranges over the map; here over the names of the configured groups, which are
  its keys (lemma \<open>reload_loop_dom\<close>). The answer is a disjunction, so the order does not matter.
\<close>

definition AnyGroupHasTask :: "GroupConfig list \<Rightarrow> Fetcher \<Rightarrow> string \<Rightarrow> bool" where
  "AnyGroupHasTask groups f task =
     (case feCurrent f of
        None \<Rightarrow> False
      | Some m \<Rightarrow>
          list_ex (\<lambda>g. case m (gcName g) of None \<Rightarrow> False | Some d \<Rightarrow> HasTask d task) groups)"

section \<open>Lemmas\<close>

lemma reload_loop_dom:
  "reload_loop yaml1 yaml2 get i gs m = Ret m' \<Longrightarrow> dom m' = dom m \<union> gcName ` set gs"
proof (induction gs arbitrary: i m)
  case Nil
  then show ?case by simp
next
  case (Cons g gs)
  then obtain d where "reload_loop yaml1 yaml2 get (Suc i) gs (m(gcName g \<mapsto> d)) = Ret m'" by auto
  from Cons.IH [OF this] show ?case by auto
qed

text \<open>The plan fetched for the last of the groups with the name.\<close>

definition fetched :: "yaml_v1 \<Rightarrow> yaml_v2 \<Rightarrow> http_get \<Rightarrow> nat \<Rightarrow> GroupConfig list \<Rightarrow> string \<Rightarrow> Deadlines \<Rightarrow> bool" where
  "fetched yaml1 yaml2 get i gs n d \<longleftrightarrow>
     (\<exists>j < length gs. gcName (gs ! j) = n \<and> n \<notin> gcName ` set (drop (Suc j) gs)
        \<and> fetch yaml1 yaml2 (get (i + j)) (gcDeadlinesURL (gs ! j)) (gcDeadlinesFormat (gs ! j)) = Ret d)"

lemma fetched_Cons: "fetched yaml1 yaml2 get (Suc i) gs n d \<Longrightarrow> fetched yaml1 yaml2 get i (g # gs) n d"
  unfolding fetched_def by (metis Suc_less_eq add_Suc_shift drop_Suc_Cons length_Cons nth_Cons_Suc)

lemma reload_loop_fetched:
  "reload_loop yaml1 yaml2 get i gs m = Ret m' \<Longrightarrow> m' n = Some d \<Longrightarrow>
     fetched yaml1 yaml2 get i gs n d \<or> (n \<notin> gcName ` set gs \<and> m n = Some d)"
proof (induction gs arbitrary: i m)
  case Nil
  then show ?case by simp
next
  case (Cons g gs)
  then obtain d' where d': "fetch yaml1 yaml2 (get i) (gcDeadlinesURL g) (gcDeadlinesFormat g) = Ret d'"
    and "reload_loop yaml1 yaml2 get (Suc i) gs (m(gcName g \<mapsto> d')) = Ret m'" by auto
  from Cons.IH [OF this(2) Cons.prems(2)] show ?case
  proof (elim disjE conjE)
    assume "n \<notin> gcName ` set gs" and m: "(m(gcName g \<mapsto> d')) n = Some d"
    then show ?thesis using d' by (cases "gcName g = n") (auto simp: fetched_def intro: exI [of _ 0])
  qed (blast intro: fetched_Cons)
qed

lemma fetch_built:
  assumes "fetch yaml1 yaml2 get url format = Ret d"
  shows "\<exists>d0. buildScoringGroups d0 = Ret d"
  using assms
  by (auto simp: fetch_def parseV1_def parseV2_def buildOrWrap_def split: sum.splits outcome.splits option.splits if_splits)

lemma reload_loop_ran:
  "reload_loop yaml1 yaml2 get i gs m = Ret m' \<Longrightarrow> (\<forall>d \<in> ran m. \<exists>d0. buildScoringGroups d0 = Ret d) \<Longrightarrow>
     \<forall>d \<in> ran m'. \<exists>d0. buildScoringGroups d0 = Ret d"
proof (induction gs arbitrary: i m)
  case Nil
  then show ?case by simp
next
  case (Cons g gs)
  from Cons.prems(1) obtain d where d: "fetch yaml1 yaml2 (get i) (gcDeadlinesURL g) (gcDeadlinesFormat g) = Ret d"
    and r: "reload_loop yaml1 yaml2 get (Suc i) gs (m(gcName g \<mapsto> d)) = Ret m'" by auto
  have "\<forall>x \<in> ran (m(gcName g \<mapsto> d)). \<exists>d0. buildScoringGroups d0 = Ret x"
    using Cons.prems(2) fetch_built [OF d] by (auto simp: ran_def)
  with r show ?case by (rule Cons.IH)
qed

text \<open>
  What the fetcher serves: a plan for exactly the configured groups, each with its maps built.
\<close>

definition serves :: "GroupConfig list \<Rightarrow> Fetcher \<Rightarrow> bool" where
  "serves groups f \<longleftrightarrow>
     (\<exists>m. feCurrent f = Some m \<and> dom m = gcName ` set groups
        \<and> (\<forall>d \<in> ran m. \<exists>d0. buildScoringGroups d0 = Ret d))"

lemma reload_serves:
  assumes "reload yaml1 yaml2 get groups f = (f', r)"
  shows "r = Ret () \<Longrightarrow> serves groups f'" and "r \<noteq> Ret () \<Longrightarrow> f' = f"
  using assms reload_loop_dom [of yaml1 yaml2 get 0 groups Map.empty]
    reload_loop_ran [of yaml1 yaml2 get 0 groups Map.empty]
  by (auto simp: reload_def serves_def split: outcome.splits)

lemma reload_ticks_serves: "reload_ticks yaml1 yaml2 groups gets f = Ret f' \<Longrightarrow> serves groups f \<Longrightarrow> serves groups f'"
proof (induction gets arbitrary: f)
  case Nil
  then show ?case by simp
next
  case (Cons get gets)
  obtain f1 r where r: "reload yaml1 yaml2 get groups f = (f1, r)" by fastforce
  with Cons.prems have "reload_ticks yaml1 yaml2 groups gets f1 = Ret f'" by (auto split: outcome.splits)
  moreover from reload_serves [OF r] Cons.prems(2) have "serves groups f1" by (cases "r = Ret ()") auto
  ultimately show ?case by (rule Cons.IH)
qed

lemma Run_serves: "Run yaml1 yaml2 groups interval gets f = Ret f' \<Longrightarrow> serves groups f \<Longrightarrow> serves groups f'"
  by (auto simp: Run_def reload_ticks_serves split: if_splits)

lemma NewFetcher_serves: "NewFetcher yaml1 yaml2 get groups = Ret f \<Longrightarrow> serves groups f"
  using reload_serves [of yaml1 yaml2 get groups "\<lparr>feCurrent = None\<rparr>"]
  by (auto simp: NewFetcher_def split: prod.splits outcome.splits if_splits)

lemma serves_GroupDeadlines:
  assumes "serves groups f"
  shows "GroupDeadlines f n = None \<longleftrightarrow> n \<notin> gcName ` set groups"
    and "GroupDeadlines f n = Some d \<Longrightarrow> \<exists>d0. buildScoringGroups d0 = Ret d"
proof -
  from assms obtain m where m: "feCurrent f = Some m" "dom m = gcName ` set groups"
    "\<forall>d \<in> ran m. \<exists>d0. buildScoringGroups d0 = Ret d" by (auto simp: serves_def)
  then show "GroupDeadlines f n = None \<longleftrightarrow> n \<notin> gcName ` set groups"
    by (auto simp: GroupDeadlines_def)
  show "GroupDeadlines f n = Some d \<Longrightarrow> \<exists>d0. buildScoringGroups d0 = Ret d"
    using m by (auto simp: GroupDeadlines_def ran_def)
qed

lemma reload_fetched:
  assumes "reload yaml1 yaml2 get groups f = (f', Ret u)" and "GroupDeadlines f' n = Some d"
  shows "fetched yaml1 yaml2 get 0 groups n d"
proof -
  from assms obtain m where "reload_loop yaml1 yaml2 get 0 groups Map.empty = Ret m" "m n = Some d"
    by (auto simp: reload_def GroupDeadlines_def split: outcome.splits)
  then show ?thesis using reload_loop_fetched by fastforce
qed

lemma serves_AnyGroupHasTask:
  "serves groups f \<Longrightarrow>
     AnyGroupHasTask groups f task \<longleftrightarrow> (\<exists>n d. GroupDeadlines f n = Some d \<and> HasTask d task)"
proof -
  assume "serves groups f"
  then obtain m where m: "feCurrent f = Some m" "dom m = gcName ` set groups" by (auto simp: serves_def)
  have "AnyGroupHasTask groups f task \<longleftrightarrow> (\<exists>g \<in> set groups. \<exists>d. m (gcName g) = Some d \<and> HasTask d task)"
    by (auto simp: AnyGroupHasTask_def m(1) list_ex_iff split: option.splits)
  also have "\<dots> \<longleftrightarrow> (\<exists>n \<in> dom m. \<exists>d. m n = Some d \<and> HasTask d task)" unfolding m(2) by blast
  finally show ?thesis by (auto simp: GroupDeadlines_def m(1))
qed

section \<open>Properties\<close>

text \<open>
  C36. A reload is atomic. When every download succeeds, it installs for each configured group the plan downloaded
  for the last group of that name, and no other plan; when it fails anywhere, the plans served
  before stay in place.
\<close>

theorem reload_atomic:
  assumes "reload yaml1 yaml2 get groups f = (f', r)"
  shows "if r = Ret ()
    then \<forall>n. (GroupDeadlines f' n = None \<longleftrightarrow> n \<notin> gcName ` set groups)
           \<and> (\<forall>d. GroupDeadlines f' n = Some d \<longrightarrow> fetched yaml1 yaml2 get 0 groups n d)
    else f' = f"
proof (cases "r = Ret ()")
  case True
  with assms have r: "reload yaml1 yaml2 get groups f = (f', Ret ())" by simp
  show ?thesis
    by (simp add: True serves_GroupDeadlines(1) [OF reload_serves(1) [OF assms True]])
      (blast intro: reload_fetched [OF r])
next
  case False
  with reload_serves(2) [OF assms] show ?thesis by simp
qed

text \<open>
  C37. A fetcher that starts serves, after any number of reloads, successful or not, a plan for exactly the
  configured groups; every plan it serves has had its scoring groups built, and \<open>AnyGroupHasTask\<close> holds for
  a task exactly when one of the plans served has it.
\<close>

theorem fetcher_invariant:
  assumes "NewFetcher yaml1 yaml2 get groups = Ret f0" and "Run yaml1 yaml2 groups interval gets f0 = Ret f"
  shows "(GroupDeadlines f n \<noteq> None \<longleftrightarrow> n \<in> gcName ` set groups)
    \<and> (\<forall>d. GroupDeadlines f n = Some d \<longrightarrow> (\<exists>d0. buildScoringGroups d0 = Ret d))
    \<and> (AnyGroupHasTask groups f task \<longleftrightarrow> (\<exists>n d. GroupDeadlines f n = Some d \<and> HasTask d task))"
proof -
  have "serves groups f" using Run_serves [OF assms(2)] NewFetcher_serves [OF assms(1)] .
  from serves_GroupDeadlines [OF this] serves_AnyGroupHasTask [OF this, of task] show ?thesis
    by simp
qed

definition sample_groups :: "GroupConfig list" where
  "sample_groups =
     [\<lparr>gcName = ''g1'', gcSecret = ''s'', gcDeadlinesURL = ''u'', gcDeadlinesFormat = ''v1'', gcShowMarks = True, gcDefault = True\<rparr>]"

definition sample_tasks :: "TaskGroup list" where
  "sample_tasks =
     [\<lparr>tgTitle = ''A'', tgGroup = [], tgDeadline = 0, tgStart = 0,
       tgTasks = [\<lparr>tkTask = ''a'', tkScore = 10, tkCrashme = False\<rparr>]\<rparr>]"

definition sample_web :: "http_get" where
  "sample_web i url = Inr \<lparr>hrStatusCode = 200, hrStatus = ''200 OK'', hrBody = Inr ''body''\<rparr>"

definition sample_v1 :: yaml_v1 where "sample_v1 body = Ret sample_tasks"
definition sample_v2 :: yaml_v2 where "sample_v2 body = Ret None"
definition broken_web :: "http_get" where "broken_web i url = Inl (External ''timeout'')"

lemma sample_fetch:
  obtains d where "fetch sample_v1 sample_v2 (sample_web i) ''u'' ''v1'' = Ret d" "dlAssignments d = sample_tasks"
  by (simp add: fetch_def sample_web_def sample_v1_def parseV1_def buildOrWrap_def buildScoringGroups_eq)

lemma reload_atomic_witness:
  "reload sample_v1 sample_v2 broken_web sample_groups \<lparr>feCurrent = None\<rparr>
     = (\<lparr>feCurrent = None\<rparr>, Fail (Wrap ''Failed to reload deadlines'' (Wrap ''Failed to fetch deadlines'' (External ''timeout''))))
   \<and> (\<exists>f. reload sample_v1 sample_v2 sample_web sample_groups \<lparr>feCurrent = None\<rparr> = (f, Ret ())
        \<and> GroupDeadlines f ''g1'' \<noteq> None \<and> GroupDeadlines f ''g2'' = None)"
proof -
  obtain f e where f: "reload sample_v1 sample_v2 broken_web sample_groups \<lparr>feCurrent = None\<rparr> = (f, Fail e)"
    and e: "e = Wrap ''Failed to reload deadlines'' (Wrap ''Failed to fetch deadlines'' (External ''timeout''))"
    by (simp add: reload_def sample_groups_def fetch_def broken_web_def)
  from sample_fetch [of 0] obtain d where "fetch sample_v1 sample_v2 (sample_web 0) ''u'' ''v1'' = Ret d" .
  then have "\<exists>f. reload sample_v1 sample_v2 sample_web sample_groups \<lparr>feCurrent = None\<rparr> = (f, Ret ())"
    by (simp add: reload_def sample_groups_def)
  then obtain g where g: "reload sample_v1 sample_v2 sample_web sample_groups \<lparr>feCurrent = None\<rparr> = (g, Ret ())" ..
  from reload_atomic [OF f] f e reload_atomic [OF g] g show ?thesis
    by (auto simp: sample_groups_def)
qed

lemma fetcher_invariant_witness:
  "\<exists>f0 f. NewFetcher sample_v1 sample_v2 sample_web sample_groups = Ret f0
     \<and> Run sample_v1 sample_v2 sample_groups 60000000000 [broken_web, sample_web] f0 = Ret f
     \<and> GroupDeadlines f ''g1'' \<noteq> None \<and> GroupDeadlines f ''g2'' = None"
proof -
  from sample_fetch [of 0] obtain d where d: "fetch sample_v1 sample_v2 (sample_web 0) ''u'' ''v1'' = Ret d" .
  have "fetch sample_v1 sample_v2 (broken_web 0) ''u'' ''v1'' = Fail (Wrap ''Failed to fetch deadlines'' (External ''timeout''))"
    by (simp add: fetch_def broken_web_def)
  with d obtain f0 f where f0: "NewFetcher sample_v1 sample_v2 sample_web sample_groups = Ret f0"
    and f: "Run sample_v1 sample_v2 sample_groups 60000000000 [broken_web, sample_web] f0 = Ret f"
    by (simp add: NewFetcher_def Run_def reload_def sample_groups_def)
  from fetcher_invariant [OF f0 f, of "''g1''"] fetcher_invariant [OF f0 f, of "''g2''"] f0 f
  show ?thesis by (auto simp: sample_groups_def)
qed

text \<open>
  A plan of the old format is scored with the default policy: every assignment without a
  group of its own gets one scoring group of weight 10 whose maximal score is the sum of the scores of all tasks of such
  assignments, and exponential scoring with a time scale of five days and a threshold of 0.3; an assignment
  with any other group name has neither.
\<close>

theorem parseV1_scoring:
  "\<exists>d. parseV1 (\<lambda>_. Ret as) body = Ret d \<and> dlAssignments d = as
     \<and> (\<forall>a. if tgGroup a = [] \<or> tgGroup a = ''default''
          then GetScoringGroup d a =
                 Some \<lparr>sgName = ''default'', sgWeight = Fin 10,
                       sgMaxScore = sum_list (map (\<lambda>a. sum_list (map tkScore (tgTasks a)))
                         (filter (\<lambda>a. tgGroup a = [] \<or> tgGroup a = ''default'') as)),
                       sgPolicy = ''default''\<rparr>
               \<and> GetScoringPolicy d a = Some (ExponentialScore 432000000000000 (f64_of_rat (3 / 10)))
          else GetScoringGroup d a = None \<and> GetScoringPolicy d a = None)"
proof -
  define d0 where "d0 = \<lparr>dlAssignments = as, dlScoring = defaultScoring, dlpolicies = Map.empty, dlgroups = Map.empty\<rparr>"
  have d0: "dlAssignments d0 = as" "dlScoring d0 = defaultScoring" by (simp_all add: d0_def)
  obtain d where d: "buildScoringGroups d0 = Ret d" and as: "dlAssignments d = as"
    by (simp add: buildScoringGroups_eq d0)
  have n: "(scoring_group_name d0 a = ''default'') = (tgGroup a = [] \<or> tgGroup a = ''default'')" for a
    by (auto simp: scoring_group_name_def d0 defaultScoring_def)
  let ?g = "\<lparr>sgName = ''default'', sgWeight = Fin 10, sgMaxScore = 0, sgPolicy = ''default''\<rparr>"
  have "scGroups defaultScoring = [?g]" by (simp add: defaultScoring_def)
  then have g: "declared_group d0 a = (if tgGroup a = [] \<or> tgGroup a = ''default'' then Some ?g else None)" for a
    by (auto simp: declared_group_def d0 n simp flip: n)
  have p: "declared_policy d0 a =
      (if tgGroup a = [] \<or> tgGroup a = ''default''
       then Some (ExponentialScore 432000000000000 (f64_of_rat (3 / 10))) else None)" for a
    by (simp add: declared_policy_def g d0) (simp add: defaultScoring_def day_def)
  have "parseV1 (\<lambda>_. Ret as) body = Ret d" using d by (simp add: parseV1_def buildOrWrap_def d0_def)
  with as show ?thesis
    by (simp add: GetScoringGroup_built [OF d] GetScoringPolicy_built [OF d] g p
        effective_group_def group_total_def n d0)
qed

end
