(* ===== verification/GoStrings.thy ===== *)
theory GoStrings
  imports Prelude
begin

text \<open>
  The functions of Go's packages strings, path, strconv and unicode/utf8 that the program uses. A
  string is a list of bytes (HOL's \<open>char\<close> has 256 values); a rune is a natural number. What
  the Unicode tables say of runes beyond ASCII is the parameter \<open>unicode\<close>.
\<close>

type_synonym rune = nat

abbreviation byte :: "char \<Rightarrow> nat" where "byte c \<equiv> of_char c"
abbreviation chr :: "nat \<Rightarrow> char" where "chr n \<equiv> char_of n"

definition RuneError :: rune where "RuneError = 65533"

section \<open>UTF-8\<close>

definition continuation :: "nat \<Rightarrow> bool" where
  "continuation b = (128 \<le> b \<and> b < 192)"

text \<open>
  The bounds on the second byte exclude overlong forms, surrogates and numbers beyond 0x10FFFF.
\<close>

definition second_ok :: "nat \<Rightarrow> nat \<Rightarrow> bool" where
  "second_ok a b =
     (continuation b \<and> (a = 224 \<longrightarrow> 160 \<le> b) \<and> (a = 237 \<longrightarrow> b < 160) \<and> (a = 240 \<longrightarrow> 144 \<le> b) \<and> (a = 244 \<longrightarrow> b < 144))"

text \<open>\<open>DecodeRuneInString\<close>: the rune and its width; an invalid byte is \<open>RuneError\<close> of width 1.\<close>

definition decode_rune :: "nat list \<Rightarrow> rune \<times> nat" where
  "decode_rune bs =
     (case bs of
        [] \<Rightarrow> (RuneError, 0)
      | a # r \<Rightarrow>
          if a < 128 then (a, 1)
          else if 194 \<le> a \<and> a < 224 then
            (case r of
               b # _ \<Rightarrow> if continuation b then ((a - 192) * 64 + (b - 128), 2) else (RuneError, 1)
             | _ \<Rightarrow> (RuneError, 1))
          else if 224 \<le> a \<and> a < 240 then
            (case r of
               b # c # _ \<Rightarrow>
                 if second_ok a b \<and> continuation c
                 then ((a - 224) * 4096 + (b - 128) * 64 + (c - 128), 3) else (RuneError, 1)
             | _ \<Rightarrow> (RuneError, 1))
          else if 240 \<le> a \<and> a < 245 then
            (case r of
               b # c # d # _ \<Rightarrow>
                 if second_ok a b \<and> continuation c \<and> continuation d
                 then ((a - 240) * 262144 + (b - 128) * 4096 + (c - 128) * 64 + (d - 128), 4) else (RuneError, 1)
             | _ \<Rightarrow> (RuneError, 1))
          else (RuneError, 1))"

lemma decode_width: "bs \<noteq> [] \<Longrightarrow> 1 \<le> snd (decode_rune bs)"
  by (auto simp: decode_rune_def split: list.split)

function runes_of :: "nat list \<Rightarrow> rune list" where
  "runes_of bs = (if bs = [] then [] else fst (decode_rune bs) # runes_of (drop (snd (decode_rune bs)) bs))"
  by pat_completeness auto
termination
  by (relation "measure length") (use decode_width in \<open>auto intro!: diff_less simp: Suc_le_eq\<close>)

declare runes_of.simps [simp del]

definition runes :: "string \<Rightarrow> rune list" where
  "runes s = runes_of (map byte s)"

definition valid_rune :: "rune \<Rightarrow> bool" where
  "valid_rune r = (r < 55296 \<or> (57344 \<le> r \<and> r < 1114112))"

definition encode_bytes :: "rune \<Rightarrow> nat list" where
  "encode_bytes r0 =
     (let r = if valid_rune r0 then r0 else RuneError in
      if r < 128 then [r]
      else if r < 2048 then [192 + r div 64, 128 + r mod 64]
      else if r < 65536 then [224 + r div 4096, 128 + r div 64 mod 64, 128 + r mod 64]
      else [240 + r div 262144, 128 + r div 4096 mod 64, 128 + r div 64 mod 64, 128 + r mod 64])"

definition encode_rune :: "rune \<Rightarrow> string" where
  "encode_rune r = map chr (encode_bytes r)"


section \<open>Functions over the runes of a string\<close>

text \<open>\<open>strings.Map\<close>; \<open>None\<close> drops the rune. An invalid byte becomes the encoding of \<open>RuneError\<close>.\<close>

definition strings_Map :: "(rune \<Rightarrow> rune option) \<Rightarrow> string \<Rightarrow> string" where
  "strings_Map f s = concat (map (\<lambda>r. case f r of None \<Rightarrow> [] | Some r' \<Rightarrow> encode_rune r') (runes s))"

record unicode =
  ucIsLetter :: "rune \<Rightarrow> bool"
  ucIsDigit :: "rune \<Rightarrow> bool"
  ucIsSpace :: "rune \<Rightarrow> bool"
  ucToTitle :: "rune \<Rightarrow> rune"
  ucToLower :: "rune \<Rightarrow> rune"

definition ToTitle :: "unicode \<Rightarrow> rune \<Rightarrow> rune" where
  "ToTitle u r = (if r < 128 then (if 97 \<le> r \<and> r \<le> 122 then r - 32 else r) else ucToTitle u r)"

definition rune_ToLower :: "unicode \<Rightarrow> rune \<Rightarrow> rune" where
  "rune_ToLower u r = (if r < 128 then (if 65 \<le> r \<and> r \<le> 90 then r + 32 else r) else ucToLower u r)"

text \<open>The word separators of \<open>strings.Title\<close>: letters, digits and the underscore are not.\<close>

definition isSeparator :: "unicode \<Rightarrow> rune \<Rightarrow> bool" where
  "isSeparator u r =
     (if r < 128
      then \<not> ((48 \<le> r \<and> r \<le> 57) \<or> (97 \<le> r \<and> r \<le> 122) \<or> (65 \<le> r \<and> r \<le> 90) \<or> r = 95)
      else \<not> ucIsLetter u r \<and> \<not> ucIsDigit u r \<and> ucIsSpace u r)"

fun title_runes :: "unicode \<Rightarrow> rune \<Rightarrow> rune list \<Rightarrow> rune list" where
  "title_runes u prev [] = []"
| "title_runes u prev (r # rs) = (if isSeparator u prev then ToTitle u r else r) # title_runes u r rs"

definition Title :: "unicode \<Rightarrow> string \<Rightarrow> string" where
  "Title u s = concat (map encode_rune (title_runes u 32 (runes s)))"

definition ToLower :: "unicode \<Rightarrow> string \<Rightarrow> string" where
  "ToLower u s = strings_Map (\<lambda>r. Some (rune_ToLower u r)) s"

text \<open>On ASCII strings bytes and runes are the same.\<close>

definition ascii :: "string \<Rightarrow> bool" where
  "ascii s = list_all (\<lambda>ch. byte ch < (128 :: nat)) s"

lemma ascii_simps [simp]:
  "ascii []" "ascii (ch # s) \<longleftrightarrow> byte ch < (128 :: nat) \<and> ascii s" "ascii (s @ t) \<longleftrightarrow> ascii s \<and> ascii t"
  by (simp_all add: ascii_def)

lemma runes_simps:
  "runes [] = []" "byte ch < (128 :: nat) \<Longrightarrow> runes (ch # s) = byte ch # runes s"
  by (simp_all add: runes_def runes_of.simps [of "[]"] runes_of.simps [of "_ # _"] decode_rune_def)

lemma runes_ascii: "ascii s \<Longrightarrow> runes s = map byte s"
  by (induction s) (simp_all add: runes_simps)

lemma encode_rune_byte: "byte ch < (128 :: nat) \<Longrightarrow> encode_rune (byte ch) = [ch]"
  by (simp add: encode_rune_def encode_bytes_def valid_rune_def)

lemma strings_Map_ascii:
  "ascii s \<Longrightarrow> strings_Map f s = concat (map (\<lambda>ch. case f (byte ch) of None \<Rightarrow> [] | Some r \<Rightarrow> encode_rune r) s)"
  by (simp add: strings_Map_def runes_ascii comp_def)

section \<open>Functions over the bytes of a string\<close>

fun has_prefix :: "string \<Rightarrow> string \<Rightarrow> bool" where
  "has_prefix [] s = True"
| "has_prefix (c # p) [] = False"
| "has_prefix (c # p) (d # s) = (c = d \<and> has_prefix p s)"

definition TrimPrefix :: "string \<Rightarrow> string \<Rightarrow> string" where
  "TrimPrefix s p = (if has_prefix p s then drop (length p) s else s)"

lemma has_prefix_iff: "has_prefix p s \<longleftrightarrow> (\<exists>t. s = p @ t)"
  by (induction p s rule: has_prefix.induct) auto

lemma TrimPrefix_append [simp]: "TrimPrefix (p @ s) p = s"
  by (auto simp: TrimPrefix_def has_prefix_iff)

lemma TrimPrefix_id: "\<not> has_prefix p s \<Longrightarrow> TrimPrefix s p = s"
  by (simp add: TrimPrefix_def)

text \<open>\<open>strings.ReplaceAll\<close> for a pattern that is not empty: leftmost matches that do not overlap.\<close>

fun replace_all :: "nat \<Rightarrow> string \<Rightarrow> string \<Rightarrow> string \<Rightarrow> string" where
  "replace_all skip [] old new = []"
| "replace_all (Suc skip) (c # s) old new = replace_all skip s old new"
| "replace_all 0 (c # s) old new =
     (if has_prefix old (c # s) then new @ replace_all (length old - 1) s old new
      else c # replace_all 0 s old new)"

definition ReplaceAll :: "string \<Rightarrow> string \<Rightarrow> string \<Rightarrow> string" where
  "ReplaceAll s old new = replace_all 0 s old new"

text \<open>\<open>path.Base\<close>: the part after the last slash, once trailing slashes are cut.\<close>

definition slash :: char where "slash = CHR ''/''"

definition path_Base :: "string \<Rightarrow> string" where
  "path_Base p =
     (if p = [] then ''.''
      else let q = rev (dropWhile (\<lambda>c. c = slash) (rev p));
               b = rev (takeWhile (\<lambda>c. c \<noteq> slash) (rev q))
           in if b = [] then [slash] else b)"

lemma path_Base_no_slash: "path_Base p = [slash] \<or> slash \<notin> set (path_Base p)"
  by (auto simp: path_Base_def Let_def slash_def dest: set_takeWhileD)

lemma path_Base_join:
  assumes "slash \<notin> set b" "b \<noteq> []" shows "path_Base (d @ [slash] @ b) = b"
proof -
  from assms have r: "rev b \<noteq> []" "\<forall>c \<in> set (rev b). c \<noteq> slash" by auto
  then have "dropWhile (\<lambda>c. c = slash) (rev b @ xs) = rev b @ xs" for xs
    by (cases "rev b") auto
  moreover have "takeWhile (\<lambda>c. c \<noteq> slash) (rev b @ slash # xs) = rev b" for xs
    using r by (simp add: takeWhile_append)
  ultimately show ?thesis using assms by (simp add: path_Base_def Let_def)
qed

text \<open>The bytewise order of \<open><\<close> on strings.\<close>

fun string_less :: "string \<Rightarrow> string \<Rightarrow> bool" where
  "string_less s [] = False"
| "string_less [] (d # t) = True"
| "string_less (c # s) (d # t) = (byte c < (byte d :: nat) \<or> (c = d \<and> string_less s t))"

lemma string_less_irrefl: "\<not> string_less s s"
  by (induction s) auto

lemma string_less_trans: "string_less s t \<Longrightarrow> string_less t u \<Longrightarrow> string_less s u"
proof (induction s t arbitrary: u rule: string_less.induct)
  case (3 c s d t)
  then show ?case by (cases u) auto
next
  case (2 d t)
  then show ?case by (cases u) auto
qed simp

lemma string_less_total: "s \<noteq> t \<Longrightarrow> string_less s t \<or> string_less t s"
proof (induction s t rule: string_less.induct)
  case (3 c s d t)
  show ?case
  proof (cases "c = d")
    case True
    with 3 show ?thesis by auto
  next
    case False
    then have "(byte c :: nat) \<noteq> byte d" by simp
    then have "(byte c :: nat) < byte d \<or> (byte d :: nat) < byte c" by linarith
    then show ?thesis by auto
  qed
next
  case (1 s)
  then show ?case by (cases s) auto
qed simp

section \<open>strconv\<close>

definition is_digit :: "char \<Rightarrow> bool" where
  "is_digit c = (48 \<le> (byte c :: nat) \<and> byte c \<le> (57 :: nat))"

fun digits_value :: "int \<Rightarrow> string \<Rightarrow> int" where
  "digits_value acc [] = acc"
| "digits_value acc (c # s) = digits_value (10 * acc + (of_char c - 48)) s"

text \<open>
  \<open>Atoi\<close> and \<open>ParseInt(s, 10, 64)\<close>: an optional sign, at least one digit, nothing else, a value in the range
  of \<open>int64\<close>.
\<close>

definition Atoi :: "string \<Rightarrow> gerror + int" where
  "Atoi s =
     (let negative = (case s of c # _ \<Rightarrow> c = CHR ''-'' | [] \<Rightarrow> False);
          ds = (case s of c # r \<Rightarrow> if c = CHR ''-'' \<or> c = CHR ''+'' then r else s | [] \<Rightarrow> []);
          v = (if negative then - digits_value 0 ds else digits_value 0 ds)
      in if ds = [] \<or> \<not> list_all is_digit ds then Inl (Errorf ''invalid syntax'')
         else if v < - (2 ^ 63) \<or> 2 ^ 63 \<le> v then Inl (Errorf ''value out of range'')
         else Inr v)"

text \<open>Decimal printing, as \<open>Itoa\<close> and the verb \<open>%d\<close> do.\<close>

function nat_digits :: "nat \<Rightarrow> string" where
  "nat_digits n = (if n < 10 then [chr (48 + n)] else nat_digits (n div 10) @ [chr (48 + n mod 10)])"
  by pat_completeness auto
termination
  by (relation "measure id") auto

declare nat_digits.simps [simp del]

definition Itoa :: "int \<Rightarrow> string" where
  "Itoa i = (if i < 0 then CHR ''-'' # nat_digits (nat (- i)) else nat_digits (nat i))"



end
