(* ===== verification/Database.thy ===== *)
theory Database
  imports Models GoStrings
begin

text \<open>
  Package \<open>internal/database\<close>. The rows of each table are a list; gorm and Postgres are the parameter \<open>'r sql\<close>,
  one record of statements per table: each statement gets the rows and either fails, leaving them alone,
  or returns its result. \<open>lawful_sql\<close> says what the documentation of the two promises and the
  program relies on. Conditions that gorm adds itself for models with a \<open>DeletedAt\<close> column (rows that are
  soft deleted are invisible, and \<open>Delete\<close> only sets the column) are written out in the statements.
\<close>

section \<open>Statements\<close>

record 'r sql =
  sqFind :: "('r \<Rightarrow> bool) \<Rightarrow> 'r list \<Rightarrow> gerror + 'r list"
  sqFirst :: "('r \<Rightarrow> bool) \<Rightarrow> 'r list \<Rightarrow> gerror + 'r"
  sqUpdate :: "('r \<Rightarrow> bool) \<Rightarrow> ('r \<Rightarrow> 'r) \<Rightarrow> 'r list \<Rightarrow> gerror + 'r list \<times> nat"
  sqInsert :: "'r \<Rightarrow> 'r list \<Rightarrow> gerror + 'r \<times> 'r list"
  sqUpsert :: "('r \<Rightarrow> 'r \<Rightarrow> bool) \<Rightarrow> ('r \<Rightarrow> 'r \<Rightarrow> 'r) \<Rightarrow> 'r \<Rightarrow> 'r list \<Rightarrow> gerror + 'r \<times> 'r list"

text \<open>
  The laws of one table with constraints \<open>ok\<close>, where \<open>gen r r'\<close> relates a row to be inserted with the row stored:
  a selection returns the rows that satisfy the condition, in any order; \<open>First\<close> and \<open>Take\<close> return one of them,
  and the error for a missing record only if there is none; an update changes the rows that satisfy
  the condition and reports their number; an insertion adds one row; an upsert updates
  the rows in conflict with the new one, or adds it; and no statement that succeeds breaks the constraints.
\<close>

definition find_law :: "'r sql \<Rightarrow> bool" where
  "find_law q \<longleftrightarrow> (\<forall>P rs ys. sqFind q P rs = Inr ys \<longrightarrow> mset ys = mset (filter P rs))"

definition first_law :: "'r sql \<Rightarrow> bool" where
  "first_law q \<longleftrightarrow> (\<forall>P rs y. sqFirst q P rs = Inr y \<longrightarrow> y \<in> set rs \<and> P y)"

definition missing_law :: "'r sql \<Rightarrow> bool" where
  "missing_law q \<longleftrightarrow> (\<forall>P rs y. sqFirst q P rs = Inl ErrRecordNotFound \<longrightarrow> y \<in> set rs \<longrightarrow> \<not> P y)"

definition update_law :: "('r list \<Rightarrow> bool) \<Rightarrow> 'r sql \<Rightarrow> bool" where
  "update_law ok q \<longleftrightarrow>
     (\<forall>P f rs rs' n. sqUpdate q P f rs = Inr (rs', n) \<longrightarrow>
        rs' = map (\<lambda>r. if P r then f r else r) rs \<and> n = length (filter P rs) \<and> (ok rs \<longrightarrow> ok rs'))"

definition insert_law :: "('r list \<Rightarrow> bool) \<Rightarrow> ('r \<Rightarrow> 'r \<Rightarrow> bool) \<Rightarrow> 'r sql \<Rightarrow> bool" where
  "insert_law ok gen q \<longleftrightarrow>
     (\<forall>r rs r' rs'. sqInsert q r rs = Inr (r', rs') \<longrightarrow> rs' = rs @ [r'] \<and> gen r r' \<and> (ok rs \<longrightarrow> ok rs'))"

definition upsert_law :: "('r list \<Rightarrow> bool) \<Rightarrow> ('r \<Rightarrow> 'r \<Rightarrow> bool) \<Rightarrow> 'r sql \<Rightarrow> bool" where
  "upsert_law ok gen q \<longleftrightarrow>
     (\<forall>c u r rs r' rs'. sqUpsert q c u r rs = Inr (r', rs') \<longrightarrow>
        (if \<exists>x \<in> set rs. c r x then rs' = map (\<lambda>x. if c r x then u r x else x) rs
         else rs' = rs @ [r'] \<and> gen r r')
        \<and> (ok rs \<longrightarrow> ok rs'))"

definition lawful_sql :: "('r list \<Rightarrow> bool) \<Rightarrow> ('r \<Rightarrow> 'r \<Rightarrow> bool) \<Rightarrow> 'r sql \<Rightarrow> bool" where
  "lawful_sql ok gen q \<longleftrightarrow>
     find_law q \<and> first_law q \<and> missing_law q \<and> update_law ok q \<and> insert_law ok gen q \<and> upsert_law ok gen q"

record DB =
  dbUsers :: "User list"
  dbPipelines :: "Pipeline list"
  dbSessions :: "Session list"
  dbFlags :: "Flag list"
  dbOverrides :: "OverriddenScore list"

record driver =
  drUsers :: "User sql"
  drPipelines :: "Pipeline sql"
  drSessions :: "Session sql"
  drFlags :: "Flag sql"
  drOverrides :: "OverriddenScore sql"

definition live :: "'a GormModel_scheme \<Rightarrow> bool" where
  "live r = (mDeletedAt r = None)"

section \<open>Errors\<close>

fun IsDuplicateKey :: "gerror \<Rightarrow> bool" where
  "IsDuplicateKey (DuplicateKey e) = True"
| "IsDuplicateKey (Wrap m e) = IsDuplicateKey e"
| "IsDuplicateKey _ = False"

definition isUnqiueViolation :: "gerror \<Rightarrow> bool" where
  "isUnqiueViolation e = (e = PgUniqueViolation)"

definition duplicate_or :: "gerror \<Rightarrow> gerror" where
  "duplicate_or e = (if isUnqiueViolation e then DuplicateKey e else e)"

text \<open>\<open>errors.Is(err, gorm.ErrRecordNotFound)\<close>, which looks through the wrappers.\<close>

fun IsRecordNotFound :: "gerror \<Rightarrow> bool" where
  "IsRecordNotFound ErrRecordNotFound = True"
| "IsRecordNotFound (Wrap m e) = IsRecordNotFound e"
| "IsRecordNotFound (DuplicateKey e) = IsRecordNotFound e"
| "IsRecordNotFound _ = False"

fun of_sum :: "gerror + 'a \<Rightarrow> 'a outcome" where
  "of_sum (Inl e) = Fail e"
| "of_sum (Inr x) = Ret x"

lemma of_sum_Ret [simp]: "of_sum s = Ret x \<longleftrightarrow> s = Inr x"
  by (cases s) auto

text \<open>An update whose caller wraps the error and rejects an update of no row.\<close>

definition run_update ::
  "'r sql \<Rightarrow> ('r \<Rightarrow> bool) \<Rightarrow> ('r \<Rightarrow> 'r) \<Rightarrow> (gerror \<Rightarrow> gerror) \<Rightarrow> gerror \<Rightarrow> 'r list \<Rightarrow> 'r list \<times> unit outcome" where
  "run_update q P f wrap none rs =
     (case sqUpdate q P f rs of
        Inl e \<Rightarrow> (rs, Fail (wrap e))
      | Inr (rs', n) \<Rightarrow> (rs', if n < 1 then Fail none else Ret ()))"

section \<open>Users\<close>

text \<open>The condition gorm makes from a struct: equality in the fields that are not zero.\<close>

definition user_cond :: "User \<Rightarrow> User \<Rightarrow> bool" where
  "user_cond user r =
     ((mID user = 0 \<or> mID r = mID user)
      \<and> (usGitlabID user = None \<or> usGitlabID r = usGitlabID user)
      \<and> (usGitlabLogin user = None \<or> usGitlabLogin r = usGitlabLogin user)
      \<and> (usRepository user = None \<or> usRepository r = usRepository user)
      \<and> (usFirstName user = [] \<or> usFirstName r = usFirstName user)
      \<and> (usLastName user = [] \<or> usLastName r = usLastName user)
      \<and> (usGroupName user = [] \<or> usGroupName r = usGroupName user)
      \<and> (usTelegramID user = None \<or> usTelegramID r = usTelegramID user)
      \<and> (usHasRetake user \<longrightarrow> usHasRetake r)
      \<and> live r)"

definition AddUser :: "driver \<Rightarrow> User \<Rightarrow> DB \<Rightarrow> DB \<times> User outcome" where
  "AddUser d user db =
     (case sqFirst (drUsers d) (user_cond user) (dbUsers db) of
        Inr u \<Rightarrow> (db, Ret u)
      | Inl e \<Rightarrow>
          if e = ErrRecordNotFound
          then (case sqInsert (drUsers d) user (dbUsers db) of
                  Inr (u, rows) \<Rightarrow> (db\<lparr>dbUsers := rows\<rparr>, Ret u)
                | Inl e' \<Rightarrow> (db, Fail (duplicate_or e')))
          else (db, Fail (duplicate_or e)))"

definition FindUserByID :: "driver \<Rightarrow> nat \<Rightarrow> DB \<Rightarrow> User outcome" where
  "FindUserByID d uid db = of_sum (sqFirst (drUsers d) (\<lambda>r. mID r = uid \<and> live r) (dbUsers db))"

definition FindUserByGitlabLogin :: "driver \<Rightarrow> string \<Rightarrow> DB \<Rightarrow> User outcome" where
  "FindUserByGitlabLogin d login db =
     of_sum (sqFirst (drUsers d) (\<lambda>r. usGitlabLogin r = Some login \<and> live r) (dbUsers db))"

definition FindUserByGitlabID :: "driver \<Rightarrow> int \<Rightarrow> DB \<Rightarrow> User outcome" where
  "FindUserByGitlabID d gid db =
     of_sum (sqFirst (drUsers d) (\<lambda>r. usGitlabID r = Some gid \<and> live r) (dbUsers db))"

definition FindUserByTelegramID :: "driver \<Rightarrow> int \<Rightarrow> DB \<Rightarrow> User option outcome" where
  "FindUserByTelegramID d tid db =
     (case sqFirst (drUsers d) (\<lambda>r. usTelegramID r = Some tid \<and> live r) (dbUsers db) of
        Inr u \<Rightarrow> Ret (Some u)
      | Inl e \<Rightarrow> if IsRecordNotFound e then Ret None else Fail e)"

definition ListUsersWithoutRepos :: "driver \<Rightarrow> DB \<Rightarrow> User list outcome" where
  "ListUsersWithoutRepos d db =
     of_sum (sqFind (drUsers d)
       (\<lambda>r. usRepository r = None \<and> usGitlabID r \<noteq> None \<and> usGitlabLogin r \<noteq> None \<and> live r) (dbUsers db))"

text \<open>The clause \<open>Order("created_at")\<close> comes after \<open>Find\<close> has run the query and has no effect on it.\<close>

definition ListGroupUsers :: "driver \<Rightarrow> string \<Rightarrow> DB \<Rightarrow> User list outcome" where
  "ListGroupUsers d groupName db =
     of_sum (sqFind (drUsers d) (\<lambda>r. usRepository r \<noteq> None \<and> usGroupName r = groupName \<and> live r) (dbUsers db))"

definition unknown_user :: "nat \<Rightarrow> gerror" where
  "unknown_user uid = Errorf (''unknown user '' @ Itoa (int uid))"

definition SetUserGitlabAccount :: "driver \<Rightarrow> nat \<Rightarrow> GitlabUser \<Rightarrow> DB \<Rightarrow> DB \<times> unit outcome" where
  "SetUserGitlabAccount d uid user db =
     (case run_update (drUsers d)
             (\<lambda>r. mID r = uid \<and> (usGitlabID r = None \<or> usGitlabLogin r = None) \<and> live r)
             (\<lambda>r. r\<lparr>usGitlabID := guGitlabID user, usGitlabLogin := guGitlabLogin user\<rparr>)
             duplicate_or (unknown_user uid) (dbUsers db) of
        (rows, res) \<Rightarrow> (db\<lparr>dbUsers := rows\<rparr>, res))"

text \<open>
  \<open>db.Model(user).Update\<close>: gorm takes the condition from the primary key, and refuses an update
  without one.
\<close>

definition update_user :: "driver \<Rightarrow> User \<Rightarrow> (User \<Rightarrow> User) \<Rightarrow> DB \<Rightarrow> DB \<times> unit outcome" where
  "update_user d user f db =
     (if mID user = 0 then (db, Fail (External ''WHERE conditions required''))
      else case run_update (drUsers d) (\<lambda>r. mID r = mID user \<and> live r) f id (unknown_user (mID user)) (dbUsers db) of
             (rows, res) \<Rightarrow> (db\<lparr>dbUsers := rows\<rparr>, res))"

definition SetUserRepository :: "driver \<Rightarrow> User \<Rightarrow> DB \<Rightarrow> DB \<times> unit outcome" where
  "SetUserRepository d user = update_user d user (\<lambda>r. r\<lparr>usRepository := usRepository user\<rparr>)"

definition SetUserTelegramID :: "driver \<Rightarrow> User \<Rightarrow> DB \<Rightarrow> DB \<times> unit outcome" where
  "SetUserTelegramID d user = update_user d user (\<lambda>r. r\<lparr>usTelegramID := usTelegramID user\<rparr>)"

definition SetUserGroupName :: "driver \<Rightarrow> User \<Rightarrow> DB \<Rightarrow> DB \<times> unit outcome" where
  "SetUserGroupName d user = update_user d user (\<lambda>r. r\<lparr>usGroupName := usGroupName user\<rparr>)"

section \<open>Pipelines\<close>

definition AddPipeline :: "driver \<Rightarrow> Pipeline \<Rightarrow> DB \<Rightarrow> DB \<times> unit outcome" where
  "AddPipeline d pipeline db =
     (case sqUpsert (drPipelines d) (\<lambda>p r. plID p = plID r) (\<lambda>p r. r\<lparr>plStatus := plStatus p\<rparr>) pipeline (dbPipelines db) of
        Inl e \<Rightarrow> (db, Fail e)
      | Inr (_, rows) \<Rightarrow> (db\<lparr>dbPipelines := rows\<rparr>, Ret ()))"

definition ListProjectPipelines :: "driver \<Rightarrow> string \<Rightarrow> DB \<Rightarrow> Pipeline list outcome" where
  "ListProjectPipelines d project db = of_sum (sqFind (drPipelines d) (\<lambda>r. plProject r = project) (dbPipelines db))"

definition ListAllPipelines :: "driver \<Rightarrow> DB \<Rightarrow> Pipeline list outcome" where
  "ListAllPipelines d db = of_sum (sqFind (drPipelines d) (\<lambda>r. True) (dbPipelines db))"

section \<open>Sessions\<close>

definition CreateSession :: "driver \<Rightarrow> string \<Rightarrow> nat \<Rightarrow> DB \<Rightarrow> DB \<times> Session outcome" where
  "CreateSession d uuid user db =
     (case sqInsert (drSessions d) \<lparr>ssID = 0, ssToken = uuid, ssUserID = user\<rparr> (dbSessions db) of
        Inl e \<Rightarrow> (db, Fail e)
      | Inr (session, rows) \<Rightarrow> (db\<lparr>dbSessions := rows\<rparr>, Ret session))"

text \<open>\<open>Take\<close> reports a missing row as an error, so the check of the number of rows never fires.\<close>

definition FindSession :: "driver \<Rightarrow> string \<Rightarrow> DB \<Rightarrow> Session outcome" where
  "FindSession d token db = of_sum (sqFirst (drSessions d) (\<lambda>r. ssToken r = token) (dbSessions db))"

definition FindUserBySession :: "driver \<Rightarrow> string \<Rightarrow> DB \<Rightarrow> (User \<times> Session) outcome" where
  "FindUserBySession d token db =
     and_then (FindSession d token db) (\<lambda>session.
     and_then (FindUserByID d (ssUserID session) db) (\<lambda>user. Ret (user, session)))"

section \<open>Flags\<close>

definition flag_id :: "string \<Rightarrow> string \<Rightarrow> string" where
  "flag_id task uuid = ''{FLAG-'' @ task @ ''-'' @ uuid @ ''}''"

definition CreateFlag :: "driver \<Rightarrow> string \<Rightarrow> instant \<Rightarrow> string \<Rightarrow> DB \<Rightarrow> DB \<times> Flag outcome" where
  "CreateFlag d uuid now task db =
     (case sqInsert (drFlags d) \<lparr>flID = flag_id task uuid, flTask = task, flGitlabLogin = None, flCreatedAt = now\<rparr> (dbFlags db) of
        Inl e \<Rightarrow> (db, Fail e)
      | Inr (flag, rows) \<Rightarrow> (db\<lparr>dbFlags := rows\<rparr>, Ret flag))"

definition unknown_flag :: gerror where "unknown_flag = Errorf ''unknown flag''"

definition SubmitFlag :: "driver \<Rightarrow> string \<Rightarrow> string \<Rightarrow> DB \<Rightarrow> DB \<times> unit outcome" where
  "SubmitFlag d flag gitlabLogin db =
     (case run_update (drFlags d) (\<lambda>r. flID r = flag \<and> flGitlabLogin r = None)
             (\<lambda>r. r\<lparr>flGitlabLogin := Some gitlabLogin\<rparr>)
             (\<lambda>e. if IsRecordNotFound e then unknown_flag else e) unknown_flag (dbFlags db) of
        (rows, res) \<Rightarrow> (db\<lparr>dbFlags := rows\<rparr>, res))"

definition ListUserFlags :: "driver \<Rightarrow> string \<Rightarrow> DB \<Rightarrow> Flag list outcome" where
  "ListUserFlags d gitlabLogin db =
     of_sum (sqFind (drFlags d) (\<lambda>r. flGitlabLogin r = Some gitlabLogin) (dbFlags db))"

definition ListSubmittedFlags :: "driver \<Rightarrow> DB \<Rightarrow> Flag list outcome" where
  "ListSubmittedFlags d db = of_sum (sqFind (drFlags d) (\<lambda>r. flGitlabLogin r \<noteq> None) (dbFlags db))"

section \<open>Overrides\<close>

definition ListUserOverrides :: "driver \<Rightarrow> string \<Rightarrow> DB \<Rightarrow> OverriddenScore list outcome" where
  "ListUserOverrides d login db =
     of_sum (sqFind (drOverrides d) (\<lambda>r. ovGitlabLogin r = login \<and> live r) (dbOverrides db))"

definition ListOverrides :: "driver \<Rightarrow> DB \<Rightarrow> OverriddenScore list outcome" where
  "ListOverrides d db = of_sum (sqFind (drOverrides d) live (dbOverrides db))"

definition AddOverride :: "driver \<Rightarrow> string \<Rightarrow> string \<Rightarrow> goint \<Rightarrow> PipelineStatus \<Rightarrow> DB \<Rightarrow> DB \<times> unit outcome" where
  "AddOverride d gitlabLogin task score status db =
     (case sqUpsert (drOverrides d)
             (\<lambda>p r. ovGitlabLogin p = ovGitlabLogin r \<and> ovTask p = ovTask r)
             (\<lambda>p r. r\<lparr>ovScore := ovScore p, ovStatus := ovStatus p\<rparr>)
             \<lparr>mID = 0, mDeletedAt = None, ovGitlabLogin = gitlabLogin, ovTask = task, ovScore = score, ovStatus = status\<rparr>
             (dbOverrides db) of
        Inl e \<Rightarrow> (db, Fail e)
      | Inr (_, rows) \<Rightarrow> (db\<lparr>dbOverrides := rows\<rparr>, Ret ()))"

definition RemoveOverride :: "driver \<Rightarrow> instant \<Rightarrow> string \<Rightarrow> string \<Rightarrow> DB \<Rightarrow> DB \<times> unit outcome" where
  "RemoveOverride d now gitlabLogin task db =
     (case sqUpdate (drOverrides d) (\<lambda>r. ovGitlabLogin r = gitlabLogin \<and> ovTask r = task \<and> live r)
             (\<lambda>r. r\<lparr>mDeletedAt := Some now\<rparr>) (dbOverrides db) of
        Inl e \<Rightarrow> (db, Fail e)
      | Inr (rows, _) \<Rightarrow> (db\<lparr>dbOverrides := rows\<rparr>, Ret ()))"

end
