(* ===== verification/Scorer.thy ===== *)
theory Scorer
  imports Scoring Fetcher Database
begin

text \<open>
  Package \<open>internal/scorer\<close>: the scores of one student, computed from the course plan, the best pipeline
  and the first flag of each task and the overrides, and the scoreboard of a group. The interface
  \<open>ProjectNameFactory\<close> is a record of functions; \<open>math.Exp\<close>, the Unicode tables and the order in which
  \<open>sort.Slice\<close> leaves equal elements are parameters.
\<close>

section \<open>Data\<close>

text \<open>A method that follows the user's GitLab login panics when it is nil.\<close>

record ProjectNameFactory =
  pfMakeProjectURL :: "User \<Rightarrow> string outcome"
  pfMakeProjectName :: "User \<Rightarrow> string outcome"
  pfMakePipelineURL :: "User \<Rightarrow> Pipeline \<Rightarrow> string outcome"
  pfMakeBranchURL :: "User \<Rightarrow> Pipeline \<Rightarrow> string outcome"
  pfMakeTaskURL :: "string \<Rightarrow> string"

type_synonym TaskStatus = string

record ScoredTask =
  stTask :: string
  stShortName :: string
  stStatus :: TaskStatus
  stScore :: goint
  stMaxScore :: goint
  stOverridden :: bool
  stTaskUrl :: string
  stPipelineUrl :: string
  stBranchUrl :: string

record ScoredTaskGroup =
  sgrTitle :: string
  sgrPrettyTitle :: string
  sgrDeadline :: instant
  sgrTasks :: "ScoredTask list"
  sgrScore :: goint
  sgrMaxScore :: goint

record ScoredUser =
  suFirstName :: string
  suLastName :: string
  suGitlabLogin :: string
  suGitlabProject :: string

definition FullName :: "ScoredUser \<Rightarrow> string" where
  "FullName u = suFirstName u @ '' '' @ suLastName u"

record UserScores =
  uscGroups :: "ScoredTaskGroup list"
  uscScore :: goint
  uscMaxScore :: goint
  uscFinalMark :: f64
  uscUser :: ScoredUser

record Standings =
  sdDeadlines :: Deadlines
  sdUsers :: "UserScores list"

section \<open>Pipeline statuses\<close>

abbreviation taskStatusBanned :: nat where "taskStatusBanned \<equiv> 0"
abbreviation taskStatusAssigned :: nat where "taskStatusAssigned \<equiv> 1"
abbreviation taskStatusFailed :: nat where "taskStatusFailed \<equiv> 2"
abbreviation taskStatusChecking :: nat where "taskStatusChecking \<equiv> 3"
abbreviation taskStatusSuccess :: nat where "taskStatusSuccess \<equiv> 4"

definition classifyPipelineStatus :: "PipelineStatus \<Rightarrow> nat" where
  "classifyPipelineStatus status =
     (if status = PipelineStatusBanned then taskStatusBanned
      else if status = PipelineStatusFailed then taskStatusFailed
      else if status = PipelineStatusCanceled then taskStatusFailed
      else if status = PipelineStatusPending then taskStatusChecking
      else if status = PipelineStatusRunning then taskStatusChecking
      else if status = PipelineStatusSuccess then taskStatusSuccess
      else taskStatusAssigned)"

definition ClassifyPipelineStatus :: "PipelineStatus \<Rightarrow> TaskStatus" where
  "ClassifyPipelineStatus status =
     (if status = PipelineStatusBanned then ''banned''
      else if status = PipelineStatusFailed then ''failed''
      else if status = PipelineStatusCanceled then ''failed''
      else if status = PipelineStatusPending then ''checking''
      else if status = PipelineStatusRunning then ''checking''
      else if status = PipelineStatusSuccess then ''success''
      else ''assigned'')"

definition pipelineLess :: "Pipeline \<Rightarrow> Pipeline \<Rightarrow> bool" where
  "pipelineLess left right =
     (if classifyPipelineStatus (plStatus left) = classifyPipelineStatus (plStatus right)
      then Before (plStartedAt left) (plStartedAt right)
      else classifyPipelineStatus (plStatus left) > classifyPipelineStatus (plStatus right))"

definition flag_earlier :: "Flag \<Rightarrow> Flag \<Rightarrow> bool" where
  "flag_earlier f prev = Before (flCreatedAt f) (flCreatedAt prev)"

section \<open>Loading a student's submissions\<close>

type_synonym pipelinesProvider = "string \<Rightarrow> Pipeline list outcome"
type_synonym flagsProvider = "string \<Rightarrow> Flag list outcome"

definition loadUserPipelines :: "ProjectNameFactory \<Rightarrow> User \<Rightarrow> pipelinesProvider \<Rightarrow> (string \<rightharpoonup> Pipeline) outcome" where
  "loadUserPipelines pf user provider =
     and_then (pfMakeProjectName pf user) (\<lambda>name.
     and_then (map_fail (Wrap ''Failed to list use rpipelines'') (provider name)) (\<lambda>pipelines.
     Ret (best_map plTask pipelineLess pipelines Map.empty)))"

definition loadUserFlags :: "User \<Rightarrow> flagsProvider \<Rightarrow> (string \<rightharpoonup> Flag) outcome" where
  "loadUserFlags user provider =
     (case usGitlabLogin user of
        None \<Rightarrow> Panic ''nil pointer dereference''
      | Some login \<Rightarrow>
          and_then (map_fail (Wrap ''Failed to list user flags'') (provider login)) (\<lambda>flags.
          Ret (best_map flTask flag_earlier flags Map.empty)))"

fun parseOverrides_loop :: "OverriddenScore list \<Rightarrow> (string \<times> string \<rightharpoonup> OverriddenScore) \<Rightarrow> (string \<times> string \<rightharpoonup> OverriddenScore)" where
  "parseOverrides_loop [] m = m"
| "parseOverrides_loop (r # rs) m = parseOverrides_loop rs (m((ovGitlabLogin r, ovTask r) \<mapsto> r))"

definition parseOverrides :: "OverriddenScore list \<Rightarrow> (string \<times> string \<rightharpoonup> OverriddenScore)" where
  "parseOverrides overrides = parseOverrides_loop overrides Map.empty"

section \<open>Titles\<close>

text \<open>
  The submatch of the regular expression for a number, a dash and the rest: \<open>.\<close> does not match a newline and \<open>$\<close> matches
  only at the end of the text.
\<close>

definition title_submatch :: "string \<Rightarrow> string option" where
  "title_submatch title =
     (case dropWhile is_digit title of
        c # rest \<Rightarrow>
          if takeWhile is_digit title \<noteq> [] \<and> c = CHR ''-'' \<and> CHR 0x0A \<notin> set rest then Some rest else None
      | [] \<Rightarrow> None)"

definition capitalizeWords :: "unicode \<Rightarrow> string \<Rightarrow> string" where
  "capitalizeWords uc title =
     Title uc (strings_Map (\<lambda>r. if r = 45 \<or> r = 95 \<or> r = 47 then Some 32 else Some r) title)"

definition prettifyTitle :: "unicode \<Rightarrow> string \<Rightarrow> string" where
  "prettifyTitle uc title =
     (case title_submatch title of
        None \<Rightarrow> capitalizeWords uc title
      | Some rest \<Rightarrow> capitalizeWords uc rest)"

definition makeShortTaskName :: "string \<Rightarrow> string" where
  "makeShortTaskName name = path_Base name"

section \<open>The score of a submission\<close>

definition retake_floor :: "Deadlines \<Rightarrow> Task \<Rightarrow> goint" where
  "retake_floor d task = int_of_f64 (f64_mul (f64_of_int (tkScore task)) (scRetakePenalty (dlScoring d)))"

definition scorePipeline ::
  "(f64 \<Rightarrow> f64) \<Rightarrow> ScoringPolicy option \<Rightarrow> Deadlines \<Rightarrow> User \<Rightarrow> Task \<Rightarrow> TaskGroup \<Rightarrow> Pipeline \<Rightarrow> goint" where
  "scorePipeline exp64 policy d user task grp pipeline =
     (if plStatus pipeline \<noteq> PipelineStatusSuccess then 0
      else case policy of
             None \<Rightarrow> -1
           | Some p \<Rightarrow>
               (let score =
                      (case scFinalDeadline (dlScoring d) of
                         Some deadline \<Rightarrow>
                           if After (plStartedAt pipeline) deadline then 0
                           else Score exp64 p (tkScore task) (tgDeadline grp) (plStartedAt pipeline)
                       | None \<Rightarrow> Score exp64 p (tkScore task) (tgDeadline grp) (plStartedAt pipeline))
                in if usHasRetake user \<and> score <s retake_floor d task then retake_floor d task else score))"

section \<open>The scores of a student\<close>

text \<open>
  What stays the same over the loops of \<open>calcUserScoresImpl\<close>: the receiver's functions, the plan, the user, the login its
  pointer leads to and the three maps.
\<close>

record score_env =
  seExp :: "f64 \<Rightarrow> f64"
  seUnicode :: unicode
  seProjects :: ProjectNameFactory
  seDeadlines :: Deadlines
  seUser :: User
  seLogin :: string
  sePipelines :: "string \<rightharpoonup> Pipeline"
  seFlags :: "string \<rightharpoonup> Flag"
  seOverrides :: "string \<times> string \<rightharpoonup> OverriddenScore"

definition blank_task :: "score_env \<Rightarrow> Task \<Rightarrow> ScoredTask" where
  "blank_task env task =
     \<lparr>stTask = tkTask task, stShortName = makeShortTaskName (tkTask task), stStatus = ''assigned'', stScore = 0,
      stMaxScore = tkScore task, stOverridden = False, stTaskUrl = pfMakeTaskURL (seProjects env) (tkTask task),
      stPipelineUrl = [], stBranchUrl = []\<rparr>"

text \<open>The pipeline that stands for a submitted flag; its other fields are zero.\<close>

definition flag_pipeline :: "Flag \<Rightarrow> Pipeline" where
  "flag_pipeline flag =
     \<lparr>plID = 0, plProject = [], plTask = [], plStatus = PipelineStatusSuccess, plStartedAt = flCreatedAt flag\<rparr>"

definition score_submission :: "score_env \<Rightarrow> ScoringPolicy option \<Rightarrow> TaskGroup \<Rightarrow> Task \<Rightarrow> ScoredTask outcome" where
  "score_submission env policy grp task =
     (let t = blank_task env task;
          sc = scorePipeline (seExp env) policy (seDeadlines env) (seUser env) task grp
      in case seFlags env (tkTask task) of
           Some flag \<Rightarrow> Ret (t\<lparr>stStatus := ''success'', stScore := sc (flag_pipeline flag)\<rparr>)
         | None \<Rightarrow>
             if tkCrashme task then Ret t
             else case sePipelines env (tkTask task) of
                    None \<Rightarrow> Ret t
                  | Some p \<Rightarrow>
                      and_then (pfMakePipelineURL (seProjects env) (seUser env) p) (\<lambda>url.
                      and_then (pfMakeBranchURL (seProjects env) (seUser env) p) (\<lambda>branch.
                      Ret (t\<lparr>stStatus := ClassifyPipelineStatus (plStatus p), stScore := sc p,
                             stPipelineUrl := url, stBranchUrl := branch\<rparr>))))"

definition apply_override :: "score_env \<Rightarrow> ScoredTask \<Rightarrow> ScoredTask" where
  "apply_override env t =
     (case seOverrides env (seLogin env, stTask t) of
        None \<Rightarrow> t
      | Some r \<Rightarrow> t\<lparr>stScore := ovScore r, stStatus := ClassifyPipelineStatus (ovStatus r), stOverridden := True\<rparr>)"

definition score_task :: "score_env \<Rightarrow> ScoringPolicy option \<Rightarrow> TaskGroup \<Rightarrow> Task \<Rightarrow> ScoredTask outcome" where
  "score_task env policy grp task =
     and_then (score_submission env policy grp task) (\<lambda>t. Ret (apply_override env t))"

text \<open>The loop over the tasks of a group, with its two running totals.\<close>

fun score_tasks ::
  "score_env \<Rightarrow> ScoringPolicy option \<Rightarrow> TaskGroup \<Rightarrow> Task list \<Rightarrow> ScoredTask list \<Rightarrow> goint \<Rightarrow> goint
     \<Rightarrow> (ScoredTask list \<times> goint \<times> goint) outcome" where
  "score_tasks env policy grp [] acc totalScore maxTotal = Ret (acc, totalScore, maxTotal)"
| "score_tasks env policy grp (task # tasks) acc totalScore maxTotal =
     and_then (score_task env policy grp task) (\<lambda>t.
     score_tasks env policy grp tasks (acc @ [t]) (totalScore + stScore t) (maxTotal + stMaxScore t))"

definition mark_share :: "Deadlines \<Rightarrow> TaskGroup \<Rightarrow> goint \<Rightarrow> f64 \<Rightarrow> f64" where
  "mark_share d grp totalScore mark =
     (case GetScoringGroup d grp of
        None \<Rightarrow> mark
      | Some g \<Rightarrow>
          if 0 <s sgMaxScore g
          then f64_add mark (f64_div (f64_mul (sgWeight g) (f64_of_int totalScore)) (f64_of_int (sgMaxScore g)))
          else mark)"

fun score_groups :: "score_env \<Rightarrow> TaskGroup list \<Rightarrow> UserScores \<Rightarrow> UserScores outcome" where
  "score_groups env [] scores = Ret scores"
| "score_groups env (grp # grps) scores =
     and_then (score_tasks env (GetScoringPolicy (seDeadlines env) grp) grp (tgTasks grp) [] 0 0) (\<lambda>(tasks, totalScore, maxTotal).
     score_groups env grps
       (scores\<lparr>uscGroups := uscGroups scores @
                 [\<lparr>sgrTitle = tgTitle grp, sgrPrettyTitle = prettifyTitle (seUnicode env) (tgTitle grp),
                   sgrDeadline = tgDeadline grp, sgrTasks = tasks, sgrScore = totalScore, sgrMaxScore = maxTotal\<rparr>],
               uscScore := uscScore scores + totalScore, uscMaxScore := uscMaxScore scores + maxTotal,
               uscFinalMark := mark_share (seDeadlines env) grp totalScore (uscFinalMark scores)\<rparr>))"

text \<open>The receiver \<open>Scorer\<close>, less the database, which is an argument.\<close>

record Scorer =
  scrExp :: "f64 \<Rightarrow> f64"
  scrUnicode :: unicode
  scrProjects :: ProjectNameFactory
  scrFetcher :: Fetcher

definition calcUserScoresImpl ::
  "Scorer \<Rightarrow> Deadlines \<Rightarrow> User \<Rightarrow> pipelinesProvider \<Rightarrow> flagsProvider \<Rightarrow> OverriddenScore list \<Rightarrow> UserScores outcome" where
  "calcUserScoresImpl s d user pipelinesP flagsP rawOverrides =
     and_then (loadUserPipelines (scrProjects s) user pipelinesP) (\<lambda>pipelines.
     and_then (loadUserFlags user flagsP) (\<lambda>flags.
     case usGitlabLogin user of
       None \<Rightarrow> Panic ''nil pointer dereference''
     | Some login \<Rightarrow>
         and_then (pfMakeProjectName (scrProjects s) user) (\<lambda>project.
         score_groups
           \<lparr>seExp = scrExp s, seUnicode = scrUnicode s, seProjects = scrProjects s, seDeadlines = d, seUser = user,
            seLogin = login, sePipelines = pipelines, seFlags = flags, seOverrides = parseOverrides rawOverrides\<rparr>
           (dlAssignments d)
           \<lparr>uscGroups = [], uscScore = 0, uscMaxScore = 0, uscFinalMark = Fin 0,
            uscUser = \<lparr>suFirstName = usFirstName user, suLastName = usLastName user, suGitlabLogin = login,
                       suGitlabProject = project\<rparr>\<rparr>)))"

definition CalcUserScores :: "Scorer \<Rightarrow> driver \<Rightarrow> DB \<Rightarrow> User \<Rightarrow> UserScores outcome" where
  "CalcUserScores s dr db user =
     (case GroupDeadlines (scrFetcher s) (usGroupName user) of
        None \<Rightarrow> Fail (Errorf ''no deadlines found'')
      | Some d \<Rightarrow>
          (case usGitlabLogin user of
             None \<Rightarrow> Panic ''nil pointer dereference''
           | Some login \<Rightarrow>
               and_then (map_fail (Wrap ''failed to list user overrides'') (ListUserOverrides dr login db)) (\<lambda>overrides.
               calcUserScoresImpl s d user (\<lambda>project. ListProjectPipelines dr project db)
                 (\<lambda>login. ListUserFlags dr login db) overrides)))"

section \<open>The scoreboard\<close>

fun group_by :: "('a \<Rightarrow> 'k) \<Rightarrow> 'a list \<Rightarrow> ('k \<Rightarrow> 'a list) \<Rightarrow> ('k \<Rightarrow> 'a list)" where
  "group_by key [] m = m"
| "group_by key (x # xs) m = group_by key xs (m(key x := m (key x) @ [x]))"

definition makeCachedPipelinesProvider :: "driver \<Rightarrow> DB \<Rightarrow> pipelinesProvider outcome" where
  "makeCachedPipelinesProvider dr db =
     and_then (ListAllPipelines dr db) (\<lambda>pipelines.
     Ret (\<lambda>project. Ret (group_by plProject pipelines (\<lambda>_. []) project)))"

text \<open>\<open>*flag.GitlabLogin\<close> panics when a flag of the list has no login.\<close>

definition makeCachedFlagsProvider :: "driver \<Rightarrow> DB \<Rightarrow> flagsProvider outcome" where
  "makeCachedFlagsProvider dr db =
     and_then (ListSubmittedFlags dr db) (\<lambda>flags.
     if list_all (\<lambda>f. flGitlabLogin f \<noteq> None) flags
     then Ret (\<lambda>login. Ret (group_by (\<lambda>f. the (flGitlabLogin f)) flags (\<lambda>_. []) login))
     else Panic ''nil pointer dereference'')"

definition standing_less :: "UserScores \<Rightarrow> UserScores \<Rightarrow> bool" where
  "standing_less a b =
     (if \<not> f64_eq (uscFinalMark a) (uscFinalMark b)
      then f64_less (uscFinalMark b) (uscFinalMark a)
      else string_less (FullName (uscUser a)) (FullName (uscUser b)))"

definition copyDeadlines :: "Deadlines \<Rightarrow> Deadlines" where
  "copyDeadlines src = src\<lparr>dlAssignments := map (\<lambda>i. dlAssignments src ! i) [0..<length (dlAssignments src)]\<rparr>"

type_synonym sort_slice = "(UserScores \<Rightarrow> UserScores \<Rightarrow> bool) \<Rightarrow> UserScores list \<Rightarrow> UserScores list"

definition CalcScoreboardWithFilter ::
  "sort_slice \<Rightarrow> Scorer \<Rightarrow> driver \<Rightarrow> DB \<Rightarrow> string \<Rightarrow> (User \<Rightarrow> bool) option \<Rightarrow> Standings outcome" where
  "CalcScoreboardWithFilter sort_Slice s dr db groupName keep =
     (case GroupDeadlines (scrFetcher s) groupName of
        None \<Rightarrow> Fail (Errorf ''no deadlines found'')
      | Some d \<Rightarrow>
          and_then (ListGroupUsers dr groupName db) (\<lambda>allUsers.
          let users = (case keep of None \<Rightarrow> allUsers | Some f \<Rightarrow> filter f allUsers) in
          and_then (makeCachedPipelinesProvider dr db) (\<lambda>pipelines.
          and_then (makeCachedFlagsProvider dr db) (\<lambda>flags.
          and_then (map_fail (Wrap ''failed to list all overrides'') (ListOverrides dr db)) (\<lambda>overrides.
          and_then (map_outcome (\<lambda>user. calcUserScoresImpl s d user pipelines flags overrides) users) (\<lambda>scores.
          Ret \<lparr>sdDeadlines = copyDeadlines d, sdUsers = sort_Slice standing_less scores\<rparr>))))))"

definition CalcScoreboard :: "sort_slice \<Rightarrow> Scorer \<Rightarrow> driver \<Rightarrow> DB \<Rightarrow> string \<Rightarrow> Standings outcome" where
  "CalcScoreboard sort_Slice s dr db groupName = CalcScoreboardWithFilter sort_Slice s dr db groupName None"

end
