(* ===== verification/DatabaseHistory.thy ===== *)
theory DatabaseHistory
  imports Database
begin

text \<open>
  What the database operations keep: the constraints of the tables, and how a row may change over any
  sequence of operations. Each table has a relation between a row and what later
  operations may make of it; the locale \<open>row_order\<close> derives from its laws that the
  table only grows and that its rows only change along the relation.
\<close>

section \<open>Constraints of the tables\<close>

definition unique_key :: "('r \<Rightarrow> 'k option) \<Rightarrow> 'r list \<Rightarrow> bool" where
  "unique_key key rs = distinct (List.map_filter key rs)"

lemma unique_key_Nil [simp]: "unique_key key []"
  by (simp add: unique_key_def map_filter_def)

lemma unique_key_eq:
  "unique_key key rs \<Longrightarrow> x \<in> set rs \<Longrightarrow> y \<in> set rs \<Longrightarrow> key x = Some k \<Longrightarrow> key y = Some k \<Longrightarrow> x = y"
proof (induction rs)
  case (Cons r rs)
  have mem: "k \<in> set (List.map_filter key rs)" if "z \<in> set rs" "key z = Some k" for z
    using that by (force simp: map_filter_def)
  from Cons.prems have u: "unique_key key rs" "key r = Some k \<Longrightarrow> k \<notin> set (List.map_filter key rs)"
    by (auto simp: unique_key_def map_filter_def split: option.splits if_splits)
  with Cons.prems Cons.IH mem show ?case by auto
qed simp

lemma unique_key_split:
  assumes "unique_key key (xs @ u # ys)" "key u = Some k" "r \<in> set xs \<or> r \<in> set ys"
  shows "key r \<noteq> Some k"
proof
  assume r: "key r = Some k"
  from assms(1,2) have "k \<notin> set (List.map_filter key xs)" "k \<notin> set (List.map_filter key ys)"
    by (auto simp: unique_key_def map_filter_def)
  moreover have "k \<in> set (List.map_filter key zs)" if "r \<in> set zs" for zs
    using that r by (force simp: map_filter_def)
  ultimately show False using assms(3) by blast
qed

definition users_ok :: "User list \<Rightarrow> bool" where
  "users_ok us =
     (unique_key (\<lambda>u. Some (mID u)) us \<and> unique_key usGitlabID us \<and> unique_key usGitlabLogin us
      \<and> unique_key (\<lambda>u. Some (usFirstName u, usLastName u, usGroupName u)) us)"

definition pipelines_ok :: "Pipeline list \<Rightarrow> bool" where
  "pipelines_ok ps = unique_key (\<lambda>p. Some (plID p)) ps"

definition sessions_ok :: "Session list \<Rightarrow> bool" where
  "sessions_ok ss = (unique_key (\<lambda>s. Some (ssID s)) ss \<and> unique_key (\<lambda>s. Some (ssToken s)) ss)"

definition flags_ok :: "Flag list \<Rightarrow> bool" where
  "flags_ok fs = unique_key (\<lambda>f. Some (flID f)) fs"

definition overrides_ok :: "OverriddenScore list \<Rightarrow> bool" where
  "overrides_ok os =
     (unique_key (\<lambda>r. Some (mID r)) os \<and> unique_key (\<lambda>r. Some (ovGitlabLogin r, ovTask r)) os)"

definition db_ok :: "DB \<Rightarrow> bool" where
  "db_ok db =
     (users_ok (dbUsers db) \<and> pipelines_ok (dbPipelines db) \<and> sessions_ok (dbSessions db)
      \<and> flags_ok (dbFlags db) \<and> overrides_ok (dbOverrides db))"

text \<open>Rows as stored: the database chooses primary keys that are left zero.\<close>

definition stored_user :: "User \<Rightarrow> User \<Rightarrow> bool" where
  "stored_user r r' = (r'\<lparr>mID := mID r\<rparr> = r \<and> mID r' \<noteq> 0)"

definition stored_override :: "OverriddenScore \<Rightarrow> OverriddenScore \<Rightarrow> bool" where
  "stored_override r r' = (r'\<lparr>mID := mID r\<rparr> = r)"

definition stored_session :: "Session \<Rightarrow> Session \<Rightarrow> bool" where
  "stored_session r r' = (r'\<lparr>ssID := ssID r\<rparr> = r)"

definition stored_pipeline :: "Pipeline \<Rightarrow> Pipeline \<Rightarrow> bool" where
  "stored_pipeline r r' = (r'\<lparr>plID := plID r\<rparr> = r \<and> (plID r \<noteq> 0 \<longrightarrow> r' = r))"

definition lawful_driver :: "driver \<Rightarrow> bool" where
  "lawful_driver d =
     (lawful_sql users_ok stored_user (drUsers d) \<and> lawful_sql pipelines_ok stored_pipeline (drPipelines d)
      \<and> lawful_sql sessions_ok stored_session (drSessions d) \<and> lawful_sql flags_ok (=) (drFlags d)
      \<and> lawful_sql overrides_ok stored_override (drOverrides d))"

section \<open>The laws one by one\<close>

lemma lawful_findD:
  assumes "lawful_sql ok gen q" "sqFind q P rs = Inr ys" shows "mset ys = mset (filter P rs)"
proof -
  from assms(1) have "find_law q" by (simp add: lawful_sql_def)
  from this [unfolded find_law_def, rule_format, OF assms(2)] show ?thesis .
qed

lemma lawful_firstD:
  assumes "lawful_sql ok gen q" "sqFirst q P rs = Inr y" shows "y \<in> set rs \<and> P y"
proof -
  from assms(1) have "first_law q" by (simp add: lawful_sql_def)
  from this [unfolded first_law_def, rule_format, OF assms(2)] show ?thesis .
qed

lemma lawful_missingD:
  assumes "lawful_sql ok gen q" "sqFirst q P rs = Inl ErrRecordNotFound" "y \<in> set rs" shows "\<not> P y"
proof -
  from assms(1) have "missing_law q" by (simp add: lawful_sql_def)
  from this [unfolded missing_law_def, rule_format, OF assms(2,3)] show ?thesis .
qed

lemma lawful_updateD:
  assumes "lawful_sql ok gen q" "sqUpdate q P f rs = Inr (rs', n)"
  shows "rs' = map (\<lambda>r. if P r then f r else r) rs \<and> n = length (filter P rs) \<and> (ok rs \<longrightarrow> ok rs')"
proof -
  from assms(1) have "update_law ok q" by (simp add: lawful_sql_def)
  from this [unfolded update_law_def, rule_format, OF assms(2)] show ?thesis by blast
qed

lemma lawful_insertD:
  assumes "lawful_sql ok gen q" "sqInsert q r rs = Inr (r', rs')"
  shows "rs' = rs @ [r'] \<and> gen r r' \<and> (ok rs \<longrightarrow> ok rs')"
proof -
  from assms(1) have "insert_law ok gen q" by (simp add: lawful_sql_def)
  from this [unfolded insert_law_def, rule_format, OF assms(2)] show ?thesis by blast
qed

lemma lawful_upsertD:
  assumes "lawful_sql ok gen q" "sqUpsert q c u r rs = Inr (r', rs')"
  shows "(if \<exists>x \<in> set rs. c r x then rs' = map (\<lambda>x. if c r x then u r x else x) rs else rs' = rs @ [r'] \<and> gen r r')
     \<and> (ok rs \<longrightarrow> ok rs')"
proof -
  from assms(1) have "upsert_law ok gen q" by (simp add: lawful_sql_def)
  then show ?thesis unfolding upsert_law_def using assms(2) by (elim allE impE) assumption
qed

text \<open>The outcome of an update as the program runs it.\<close>

lemma run_update_cases:
  assumes law: "lawful_sql ok gen q" and run: "run_update q P f wrap none rs = (rs', res)"
  obtains (err) e where "rs' = rs" "res = Fail (wrap e)"
  | (missed) "rs' = rs" "res = Fail none" "\<forall>r \<in> set rs. \<not> P r"
  | (hit) r where "rs' = map (\<lambda>r. if P r then f r else r) rs" "res = Ret ()" "r \<in> set rs" "P r" "ok rs \<longrightarrow> ok rs'"
proof (cases "sqUpdate q P f rs")
  case (Inl e)
  with run err show ?thesis by (auto simp: run_update_def)
next
  case (Inr x)
  obtain rows n where x: "x = (rows, n)" by fastforce
  from lawful_updateD [OF law] Inr x have u: "rows = map (\<lambda>r. if P r then f r else r) rs"
    "n = length (filter P rs)" "ok rs \<longrightarrow> ok rows" by auto
  show ?thesis
  proof (cases "\<exists>r \<in> set rs. P r")
    case True
    then have "filter P rs \<noteq> []" by (auto simp: filter_empty_conv)
    then have "0 < n" using u by simp
    with run Inr x u True hit show ?thesis by (auto simp: run_update_def)
  next
    case False
    then have "n = 0" "rows = rs" using u by (auto simp: filter_empty_conv map_idI)
    with run Inr x False missed show ?thesis by (auto simp: run_update_def)
  qed
qed

section \<open>Tables that only grow\<close>

definition extends :: "('r \<Rightarrow> 'r \<Rightarrow> bool) \<Rightarrow> 'r list \<Rightarrow> 'r list \<Rightarrow> bool" where
  "extends R rs rs' \<longleftrightarrow> length rs \<le> length rs' \<and> (\<forall>i < length rs. R (rs ! i) (rs' ! i))"

lemma extends_mem:
  assumes "extends R rs rs'" "r \<in> set rs" obtains r' where "r' \<in> set rs'" "R r r'"
proof -
  from assms(2) obtain i where "i < length rs" "r = rs ! i" by (metis in_set_conv_nth)
  with assms(1) that [of "rs' ! i"] show ?thesis by (auto simp: extends_def)
qed

locale row_order =
  fixes R :: "'r \<Rightarrow> 'r \<Rightarrow> bool"
  assumes refl: "R r r"
    and trans: "R r s \<Longrightarrow> R s t \<Longrightarrow> R r t"
begin

lemma extends_refl: "extends R rs rs"
  by (simp add: extends_def refl)

lemma extends_trans: "extends R rs ss \<Longrightarrow> extends R ss ts \<Longrightarrow> extends R rs ts"
  unfolding extends_def by (auto intro: trans)

lemma extends_append: "extends R rs (rs @ ss)"
  by (simp add: extends_def refl nth_append)

lemma extends_map: "(\<And>r. P r \<Longrightarrow> R r (f r)) \<Longrightarrow> extends R rs (map (\<lambda>r. if P r then f r else r) rs)"
  by (simp add: extends_def refl)

lemma run_update_extends:
  assumes "lawful_sql ok gen q" "run_update q P f wrap none rs = (rs', res)" "\<And>r. P r \<Longrightarrow> R r (f r)"
  shows "extends R rs rs' \<and> (ok rs \<longrightarrow> ok rs')"
  using assms(1,2) by (cases rule: run_update_cases) (simp_all add: extends_refl extends_map assms(3))

lemma update_extends:
  assumes "lawful_sql ok gen q" "sqUpdate q P f rs = Inr (rs', n)" "\<And>r. P r \<Longrightarrow> R r (f r)"
  shows "extends R rs rs' \<and> (ok rs \<longrightarrow> ok rs')"
  using lawful_updateD [OF assms(1,2)] by (auto simp: extends_map assms(3))

lemma insert_extends:
  assumes "lawful_sql ok gen q" "sqInsert q r rs = Inr (r', rs')"
  shows "extends R rs rs' \<and> (ok rs \<longrightarrow> ok rs')"
  using lawful_insertD [OF assms] by (auto simp: extends_append)

lemma upsert_extends:
  assumes "lawful_sql ok gen q" "sqUpsert q c u r rs = Inr (r', rs')" "\<And>x. c r x \<Longrightarrow> R x (u r x)"
  shows "extends R rs rs' \<and> (ok rs \<longrightarrow> ok rs')"
  using lawful_upsertD [OF assms(1,2)] by (auto simp: extends_append extends_map assms(3) split: if_splits)

end

text \<open>
  A user keeps the key, the name, the retake mark, and, once both halves are set, the GitLab account.
\<close>

definition user_later :: "User \<Rightarrow> User \<Rightarrow> bool" where
  "user_later r s =
     (mID s = mID r \<and> mDeletedAt s = mDeletedAt r \<and> usFirstName s = usFirstName r \<and> usLastName s = usLastName r
      \<and> usHasRetake s = usHasRetake r
      \<and> (usGitlabID r \<noteq> None \<and> usGitlabLogin r \<noteq> None \<longrightarrow>
           usGitlabID s = usGitlabID r \<and> usGitlabLogin s = usGitlabLogin r))"

text \<open>A pipeline changes nothing but its status.\<close>

definition pipeline_later :: "Pipeline \<Rightarrow> Pipeline \<Rightarrow> bool" where
  "pipeline_later r s = (s\<lparr>plStatus := plStatus r\<rparr> = r)"

text \<open>A flag changes nothing but its owner, who is set once.\<close>

definition flag_later :: "Flag \<Rightarrow> Flag \<Rightarrow> bool" where
  "flag_later r s =
     (s\<lparr>flGitlabLogin := flGitlabLogin r\<rparr> = r \<and> (flGitlabLogin r \<noteq> None \<longrightarrow> s = r))"

text \<open>An override keeps its user and task, and once it is deleted it stays deleted.\<close>

definition override_later :: "OverriddenScore \<Rightarrow> OverriddenScore \<Rightarrow> bool" where
  "override_later r s =
     (mID s = mID r \<and> ovGitlabLogin s = ovGitlabLogin r \<and> ovTask s = ovTask r \<and> (\<not> live r \<longrightarrow> \<not> live s))"

interpretation user_order: row_order user_later
  by unfold_locales (auto simp: user_later_def)

interpretation pipeline_order: row_order pipeline_later
proof
  fix r s t
  assume "pipeline_later r s" "pipeline_later s t"
  then show "pipeline_later r t" by (cases r; cases s; cases t) (auto simp: pipeline_later_def)
qed (simp add: pipeline_later_def)

interpretation flag_order: row_order flag_later
proof
  fix r s t
  assume "flag_later r s" "flag_later s t"
  then show "flag_later r t" by (cases r; cases s; cases t) (auto simp: flag_later_def)
qed (simp add: flag_later_def)

interpretation override_order: row_order override_later
  by unfold_locales (auto simp: override_later_def)

interpretation session_order: row_order "(=) :: Session \<Rightarrow> Session \<Rightarrow> bool"
  by unfold_locales auto

section \<open>Operations and histories\<close>

text \<open>The operations that change the database; a time or a generated token is an argument.\<close>

datatype db_op =
    OpAddUser User
  | OpSetUserGitlabAccount nat GitlabUser
  | OpSetUserRepository User
  | OpSetUserTelegramID User
  | OpSetUserGroupName User
  | OpAddPipeline Pipeline
  | OpCreateSession string nat
  | OpCreateFlag string instant string
  | OpSubmitFlag string string
  | OpAddOverride string string goint PipelineStatus
  | OpRemoveOverride instant string string

fun run_op :: "driver \<Rightarrow> db_op \<Rightarrow> DB \<Rightarrow> DB" where
  "run_op d (OpAddUser u) db = fst (AddUser d u db)"
| "run_op d (OpSetUserGitlabAccount uid gu) db = fst (SetUserGitlabAccount d uid gu db)"
| "run_op d (OpSetUserRepository u) db = fst (SetUserRepository d u db)"
| "run_op d (OpSetUserTelegramID u) db = fst (SetUserTelegramID d u db)"
| "run_op d (OpSetUserGroupName u) db = fst (SetUserGroupName d u db)"
| "run_op d (OpAddPipeline p) db = fst (AddPipeline d p db)"
| "run_op d (OpCreateSession uuid uid) db = fst (CreateSession d uuid uid db)"
| "run_op d (OpCreateFlag uuid now task) db = fst (CreateFlag d uuid now task db)"
| "run_op d (OpSubmitFlag flag login) db = fst (SubmitFlag d flag login db)"
| "run_op d (OpAddOverride login task score status) db = fst (AddOverride d login task score status db)"
| "run_op d (OpRemoveOverride now login task) db = fst (RemoveOverride d now login task db)"

text \<open>
  A history of the database: any operations in any order, the driver free to fail or to
  answer differently each time, as long as it keeps to the laws.
\<close>

inductive history :: "DB \<Rightarrow> DB \<Rightarrow> bool" where
  start: "history db db"
| step: "history db db1 \<Longrightarrow> lawful_driver d \<Longrightarrow> history db (run_op d op1 db1)"

text \<open>What one step, and so a whole history, may do to the database.\<close>

definition evolves :: "DB \<Rightarrow> DB \<Rightarrow> bool" where
  "evolves db db' \<longleftrightarrow>
     extends user_later (dbUsers db) (dbUsers db') \<and> extends pipeline_later (dbPipelines db) (dbPipelines db')
     \<and> extends (=) (dbSessions db) (dbSessions db') \<and> extends flag_later (dbFlags db) (dbFlags db')
     \<and> extends override_later (dbOverrides db) (dbOverrides db') \<and> (db_ok db \<longrightarrow> db_ok db')"

lemmas extends_refls [simp] =
  user_order.extends_refl pipeline_order.extends_refl session_order.extends_refl
  flag_order.extends_refl override_order.extends_refl

lemma evolves_refl [simp]: "evolves db db"
  by (simp add: evolves_def)

lemma evolves_trans: "evolves a b \<Longrightarrow> evolves b c \<Longrightarrow> evolves a c"
  unfolding evolves_def
  using user_order.extends_trans pipeline_order.extends_trans session_order.extends_trans
    flag_order.extends_trans override_order.extends_trans by blast

lemma evolves_users:
  "extends user_later (dbUsers db) us \<and> (users_ok (dbUsers db) \<longrightarrow> users_ok us) \<Longrightarrow> evolves db (db\<lparr>dbUsers := us\<rparr>)"
  by (auto simp: evolves_def db_ok_def)

lemma evolves_pipelines:
  "extends pipeline_later (dbPipelines db) ps \<and> (pipelines_ok (dbPipelines db) \<longrightarrow> pipelines_ok ps)
     \<Longrightarrow> evolves db (db\<lparr>dbPipelines := ps\<rparr>)"
  by (auto simp: evolves_def db_ok_def)

lemma evolves_sessions:
  "extends (=) (dbSessions db) ss \<and> (sessions_ok (dbSessions db) \<longrightarrow> sessions_ok ss) \<Longrightarrow> evolves db (db\<lparr>dbSessions := ss\<rparr>)"
  by (auto simp: evolves_def db_ok_def)

lemma evolves_flags:
  "extends flag_later (dbFlags db) fs \<and> (flags_ok (dbFlags db) \<longrightarrow> flags_ok fs) \<Longrightarrow> evolves db (db\<lparr>dbFlags := fs\<rparr>)"
  by (auto simp: evolves_def db_ok_def)

lemma evolves_overrides:
  "extends override_later (dbOverrides db) os \<and> (overrides_ok (dbOverrides db) \<longrightarrow> overrides_ok os)
     \<Longrightarrow> evolves db (db\<lparr>dbOverrides := os\<rparr>)"
  by (auto simp: evolves_def db_ok_def)

lemma lawful_driverD:
  assumes "lawful_driver d"
  shows "lawful_sql users_ok stored_user (drUsers d)" "lawful_sql pipelines_ok stored_pipeline (drPipelines d)"
    "lawful_sql sessions_ok stored_session (drSessions d)" "lawful_sql flags_ok (=) (drFlags d)"
    "lawful_sql overrides_ok stored_override (drOverrides d)"
  using assms by (simp_all add: lawful_driver_def)

lemma AddUser_evolves: "lawful_driver d \<Longrightarrow> evolves db (fst (AddUser d u db))"
  using user_order.insert_extends [OF lawful_driverD(1)]
  by (auto simp: AddUser_def intro!: evolves_users split: sum.split)

lemma SetUserGitlabAccount_evolves:
  assumes "lawful_driver d" shows "evolves db (fst (SetUserGitlabAccount d uid gu db))"
proof -
  obtain rows res where r: "run_update (drUsers d)
      (\<lambda>r. mID r = uid \<and> (usGitlabID r = None \<or> usGitlabLogin r = None) \<and> live r)
      (\<lambda>r. r\<lparr>usGitlabID := guGitlabID gu, usGitlabLogin := guGitlabLogin gu\<rparr>)
      duplicate_or (unknown_user uid) (dbUsers db) = (rows, res)" by fastforce
  have "extends user_later (dbUsers db) rows \<and> (users_ok (dbUsers db) \<longrightarrow> users_ok rows)"
    by (rule user_order.run_update_extends [OF lawful_driverD(1) [OF assms] r]) (auto simp: user_later_def)
  with r show ?thesis by (simp add: SetUserGitlabAccount_def evolves_users)
qed

lemma update_user_evolves:
  assumes "lawful_driver d" and f: "\<And>r. user_later r (f r)" shows "evolves db (fst (update_user d u f db))"
proof (cases "mID u = 0")
  case True
  then show ?thesis by (simp add: update_user_def)
next
  case False
  obtain rows res where r: "run_update (drUsers d) (\<lambda>r. mID r = mID u \<and> live r) f id (unknown_user (mID u)) (dbUsers db)
      = (rows, res)" by fastforce
  have "extends user_later (dbUsers db) rows \<and> (users_ok (dbUsers db) \<longrightarrow> users_ok rows)"
    by (rule user_order.run_update_extends [OF lawful_driverD(1) [OF assms(1)] r]) (rule f)
  with r False show ?thesis by (simp add: update_user_def evolves_users)
qed

lemma SubmitFlag_evolves:
  assumes "lawful_driver d" shows "evolves db (fst (SubmitFlag d flag login db))"
proof -
  obtain rows res where r: "run_update (drFlags d) (\<lambda>r. flID r = flag \<and> flGitlabLogin r = None)
      (\<lambda>r. r\<lparr>flGitlabLogin := Some login\<rparr>)
      (\<lambda>e. if IsRecordNotFound e then unknown_flag else e) unknown_flag (dbFlags db) = (rows, res)" by fastforce
  have "extends flag_later (dbFlags db) rows \<and> (flags_ok (dbFlags db) \<longrightarrow> flags_ok rows)"
    by (rule flag_order.run_update_extends [OF lawful_driverD(4) [OF assms] r]) (auto simp: flag_later_def)
  with r show ?thesis by (simp add: SubmitFlag_def evolves_flags)
qed

lemma AddPipeline_evolves: "lawful_driver d \<Longrightarrow> evolves db (fst (AddPipeline d p db))"
  using pipeline_order.upsert_extends [OF lawful_driverD(2)]
  by (auto simp: AddPipeline_def pipeline_later_def intro!: evolves_pipelines split: sum.split)

lemma CreateSession_evolves: "lawful_driver d \<Longrightarrow> evolves db (fst (CreateSession d uuid uid db))"
  using session_order.insert_extends [OF lawful_driverD(3)]
  by (auto simp: CreateSession_def intro!: evolves_sessions split: sum.split)

lemma CreateFlag_evolves: "lawful_driver d \<Longrightarrow> evolves db (fst (CreateFlag d uuid now task db))"
  using flag_order.insert_extends [OF lawful_driverD(4)]
  by (auto simp: CreateFlag_def intro!: evolves_flags split: sum.split)

lemma AddOverride_evolves: "lawful_driver d \<Longrightarrow> evolves db (fst (AddOverride d login task score status db))"
  using override_order.upsert_extends [OF lawful_driverD(5)]
  by (auto simp: AddOverride_def override_later_def live_def intro!: evolves_overrides split: sum.split)

lemma RemoveOverride_evolves: "lawful_driver d \<Longrightarrow> evolves db (fst (RemoveOverride d now login task db))"
  using override_order.update_extends [OF lawful_driverD(5)]
  by (auto simp: RemoveOverride_def override_later_def live_def intro!: evolves_overrides split: sum.split)

lemma run_op_evolves: "lawful_driver d \<Longrightarrow> evolves db (run_op d op1 db)"
proof -
  have "user_later r (r\<lparr>usRepository := x\<rparr>)" "user_later r (r\<lparr>usTelegramID := y\<rparr>)"
    "user_later r (r\<lparr>usGroupName := z\<rparr>)" for r :: User and x y z
    by (simp_all add: user_later_def)
  then show "lawful_driver d \<Longrightarrow> evolves db (run_op d op1 db)"
    by (cases op1) (simp_all add: AddUser_evolves SetUserGitlabAccount_evolves update_user_evolves
      SetUserRepository_def SetUserTelegramID_def SetUserGroupName_def SubmitFlag_evolves AddPipeline_evolves
      CreateSession_evolves CreateFlag_evolves AddOverride_evolves RemoveOverride_evolves)
qed

lemma history_evolves: "history db db' \<Longrightarrow> evolves db db'"
proof (induction rule: history.induct)
  case (step db db1 d op1)
  then show ?case using run_op_evolves evolves_trans by blast
qed simp

section \<open>A reference driver\<close>

text \<open>
  A table in memory that satisfies the laws: it shows that they can hold, and the concrete
  instances of the properties run on it.
\<close>

definition commit :: "('r list \<Rightarrow> bool) \<Rightarrow> 'a \<Rightarrow> 'r list \<Rightarrow> gerror + 'a" where
  "commit ok x rs = (if ok rs then Inr x else Inl PgUniqueViolation)"

definition mem_insert :: "('r list \<Rightarrow> bool) \<Rightarrow> ('r \<Rightarrow> 'r list \<Rightarrow> 'r) \<Rightarrow> 'r \<Rightarrow> 'r list \<Rightarrow> gerror + 'r \<times> 'r list" where
  "mem_insert ok store r rs = commit ok (store r rs, rs @ [store r rs]) (rs @ [store r rs])"

definition mem_sql :: "('r list \<Rightarrow> bool) \<Rightarrow> ('r \<Rightarrow> 'r list \<Rightarrow> 'r) \<Rightarrow> 'r sql" where
  "mem_sql ok store =
     \<lparr>sqFind = (\<lambda>P rs. Inr (filter P rs)),
      sqFirst = (\<lambda>P rs. case List.find P rs of None \<Rightarrow> Inl ErrRecordNotFound | Some r \<Rightarrow> Inr r),
      sqUpdate = (\<lambda>P f rs. commit ok (map (\<lambda>r. if P r then f r else r) rs, length (filter P rs))
        (map (\<lambda>r. if P r then f r else r) rs)),
      sqInsert = mem_insert ok store,
      sqUpsert = (\<lambda>c u r rs.
        if list_ex (c r) rs
        then commit ok (r, map (\<lambda>x. if c r x then u r x else x) rs) (map (\<lambda>x. if c r x then u r x else x) rs)
        else mem_insert ok store r rs)\<rparr>"

lemma mem_sql_lawful:
  assumes "\<And>r rs. gen r (store r rs)" shows "lawful_sql ok gen (mem_sql ok store)"
  unfolding lawful_sql_def
proof (intro conjI)
  show "find_law (mem_sql ok store)" by (simp add: find_law_def mem_sql_def Let_def)
  show "first_law (mem_sql ok store)"
    by (auto simp: first_law_def mem_sql_def Let_def find_Some_iff split: option.splits)
  show "missing_law (mem_sql ok store)"
    by (auto simp: missing_law_def mem_sql_def Let_def find_None_iff split: option.splits)
  show "update_law ok (mem_sql ok store)"
    by (auto simp: update_law_def mem_sql_def mem_insert_def commit_def split: if_splits)
  show "insert_law ok gen (mem_sql ok store)"
    using assms by (auto simp: insert_law_def mem_sql_def mem_insert_def commit_def split: if_splits)
  show "upsert_law ok gen (mem_sql ok store)"
    using assms by (auto simp: upsert_law_def mem_sql_def mem_insert_def commit_def list_ex_iff split: if_splits)
qed

definition next_id :: "('r \<Rightarrow> nat) \<Rightarrow> 'r list \<Rightarrow> nat" where
  "next_id key rs = Suc (foldr max (map key rs) 0)"

definition mem_driver :: driver where
  "mem_driver =
     \<lparr>drUsers = mem_sql users_ok (\<lambda>r rs. r\<lparr>mID := next_id mID rs\<rparr>),
      drPipelines = mem_sql pipelines_ok (\<lambda>r rs. r),
      drSessions = mem_sql sessions_ok (\<lambda>r rs. r\<lparr>ssID := next_id ssID rs\<rparr>),
      drFlags = mem_sql flags_ok (\<lambda>r rs. r),
      drOverrides = mem_sql overrides_ok (\<lambda>r rs. r\<lparr>mID := next_id mID rs\<rparr>)\<rparr>"

lemma mem_driver_lawful: "lawful_driver mem_driver"
  by (simp add: lawful_driver_def mem_driver_def mem_sql_lawful stored_user_def stored_pipeline_def
      stored_session_def stored_override_def next_id_def)

lemmas mem_eval =
  mem_driver_def mem_sql_def mem_insert_def commit_def next_id_def users_ok_def pipelines_ok_def sessions_ok_def flags_ok_def
  overrides_ok_def unique_key_def map_filter_def run_update_def live_def

section \<open>Lookups after a history\<close>

lemma db_okD:
  assumes "db_ok db"
  shows "unique_key (\<lambda>u. Some (mID u)) (dbUsers db)" "unique_key usGitlabLogin (dbUsers db)"
    "unique_key usGitlabID (dbUsers db)"
    "unique_key (\<lambda>u. Some (usFirstName u, usLastName u, usGroupName u)) (dbUsers db)"
    "unique_key (\<lambda>s. Some (ssToken s)) (dbSessions db)" "unique_key (\<lambda>f. Some (flID f)) (dbFlags db)"
    "unique_key (\<lambda>p. Some (plID p)) (dbPipelines db)"
    "unique_key (\<lambda>r. Some (ovGitlabLogin r, ovTask r)) (dbOverrides db)"
  using assms by (simp_all add: db_ok_def users_ok_def sessions_ok_def flags_ok_def pipelines_ok_def overrides_ok_def)

lemma history_db_ok: "history db db' \<Longrightarrow> db_ok db \<Longrightarrow> db_ok db'"
  using history_evolves by (auto simp: evolves_def)

lemma history_users:
  assumes "history db db'" "u \<in> set (dbUsers db)"
  obtains u' where "u' \<in> set (dbUsers db')" "user_later u u'"
  using history_evolves [OF assms(1)] extends_mem [OF _ assms(2)] by (auto simp: evolves_def)

lemma history_flags:
  assumes "history db db'" "f \<in> set (dbFlags db)"
  obtains f' where "f' \<in> set (dbFlags db')" "flag_later f f'"
  using history_evolves [OF assms(1)] extends_mem [OF _ assms(2)] by (auto simp: evolves_def)

lemma history_pipelines:
  assumes "history db db'" "p \<in> set (dbPipelines db)"
  obtains p' where "p' \<in> set (dbPipelines db')" "pipeline_later p p'"
  using history_evolves [OF assms(1)] extends_mem [OF _ assms(2)] by (auto simp: evolves_def)

lemma history_sessions:
  assumes "history db db'" "s \<in> set (dbSessions db)" shows "s \<in> set (dbSessions db')"
proof -
  have "extends (=) (dbSessions db) (dbSessions db')" using history_evolves [OF assms(1)] by (simp add: evolves_def)
  from extends_mem [OF this assms(2)] show ?thesis by metis
qed

lemma CreateSession_Ret:
  assumes "lawful_driver d" "CreateSession d uuid uid db = (db1, Ret s)"
  shows "s \<in> set (dbSessions db1)" "ssToken s = uuid" "ssUserID s = uid" "db_ok db \<longrightarrow> db_ok db1"
proof -
  from assms(2) obtain rows where
    i: "sqInsert (drSessions d) \<lparr>ssID = 0, ssToken = uuid, ssUserID = uid\<rparr> (dbSessions db) = Inr (s, rows)"
    and db1: "db1 = db\<lparr>dbSessions := rows\<rparr>"
    by (auto simp: CreateSession_def split: sum.splits)
  from lawful_insertD [OF lawful_driverD(3) [OF assms(1)] i]
  have r: "rows = dbSessions db @ [s]" and st: "stored_session \<lparr>ssID = 0, ssToken = uuid, ssUserID = uid\<rparr> s"
    and ok: "sessions_ok (dbSessions db) \<longrightarrow> sessions_ok rows" by auto
  from r db1 show "s \<in> set (dbSessions db1)" by simp
  from st show "ssToken s = uuid" "ssUserID s = uid" by (cases s; simp add: stored_session_def)+
  from ok db1 show "db_ok db \<longrightarrow> db_ok db1" by (simp add: db_ok_def)
qed

lemma FindSession_unique:
  assumes law: "lawful_driver d" and ok: "db_ok db" and s: "s \<in> set (dbSessions db)"
  shows "FindSession d (ssToken s) db = Ret s
    \<or> (\<exists>e. FindSession d (ssToken s) db = Fail e \<and> e \<noteq> ErrRecordNotFound)"
proof (cases "sqFirst (drSessions d) (\<lambda>r. ssToken r = ssToken s) (dbSessions db)")
  case (Inl e)
  with lawful_missingD [OF lawful_driverD(3) [OF law] _ s, of "\<lambda>r. ssToken r = ssToken s"]
  show ?thesis by (auto simp: FindSession_def)
next
  case (Inr r)
  from lawful_firstD [OF lawful_driverD(3) [OF law] this]
  have "r \<in> set (dbSessions db)" "ssToken r = ssToken s" by auto
  with unique_key_eq [OF db_okD(5) [OF ok] _ s] Inr show ?thesis by (auto simp: FindSession_def)
qed

lemma FindUserByID_result:
  assumes law: "lawful_driver d" and r: "FindUserByID d uid db = r"
  shows "r = Ret u \<Longrightarrow> u \<in> set (dbUsers db) \<and> mID u = uid \<and> live u"
    and "r = Fail ErrRecordNotFound \<Longrightarrow> u \<in> set (dbUsers db) \<Longrightarrow> live u \<Longrightarrow> mID u \<noteq> uid"
    and "r \<noteq> Panic m"
proof -
  let ?P = "\<lambda>r. mID r = uid \<and> live r"
  show "r = Ret u \<Longrightarrow> u \<in> set (dbUsers db) \<and> mID u = uid \<and> live u"
    using r lawful_firstD [OF lawful_driverD(1) [OF law], of ?P "dbUsers db" u] by (simp add: FindUserByID_def)
  show "r \<noteq> Panic m" using r by (cases "sqFirst (drUsers d) ?P (dbUsers db)") (auto simp: FindUserByID_def)
  assume "r = Fail ErrRecordNotFound" and u: "u \<in> set (dbUsers db)" "live u"
  with r have "sqFirst (drUsers d) ?P (dbUsers db) = Inl ErrRecordNotFound"
    by (cases "sqFirst (drUsers d) ?P (dbUsers db)") (auto simp: FindUserByID_def)
  from lawful_missingD [OF lawful_driverD(1) [OF law] this u(1)] u show "mID u \<noteq> uid" by simp
qed

lemma SubmitFlag_result:
  assumes law: "lawful_driver d" and s: "SubmitFlag d flag login db = (db', res)"
  shows "res = Ret () \<Longrightarrow> (\<exists>f \<in> set (dbFlags db). flID f = flag \<and> flGitlabLogin f = None)
      \<and> dbFlags db' = map (\<lambda>f. if flID f = flag \<and> flGitlabLogin f = None then f\<lparr>flGitlabLogin := Some login\<rparr> else f) (dbFlags db)"
    and "res \<noteq> Ret () \<Longrightarrow> db' = db"
    and "\<nexists>f. f \<in> set (dbFlags db) \<and> flID f = flag \<and> flGitlabLogin f = None \<Longrightarrow> res \<noteq> Ret ()"
    and "db' = db\<lparr>dbFlags := dbFlags db'\<rparr>"
proof -
  let ?P = "\<lambda>r. flID r = flag \<and> flGitlabLogin r = None"
  obtain rows where r: "run_update (drFlags d) ?P (\<lambda>r. r\<lparr>flGitlabLogin := Some login\<rparr>)
      (\<lambda>e. if IsRecordNotFound e then unknown_flag else e) unknown_flag (dbFlags db) = (rows, res)"
    and db': "db' = db\<lparr>dbFlags := rows\<rparr>"
    using s by (auto simp: SubmitFlag_def split: prod.splits)
  from run_update_cases [OF lawful_driverD(4) [OF law] r]
  have c: "(\<exists>r. rows = map (\<lambda>r. if ?P r then r\<lparr>flGitlabLogin := Some login\<rparr> else r) (dbFlags db)
              \<and> res = Ret () \<and> r \<in> set (dbFlags db) \<and> ?P r)
          \<or> (rows = dbFlags db \<and> res \<noteq> Ret ())"
    by cases auto
  show "res = Ret () \<Longrightarrow> (\<exists>f \<in> set (dbFlags db). ?P f)
      \<and> dbFlags db' = map (\<lambda>f. if ?P f then f\<lparr>flGitlabLogin := Some login\<rparr> else f) (dbFlags db)"
    using c db' by auto
  show "res \<noteq> Ret () \<Longrightarrow> db' = db" using c db' by auto
  show "\<nexists>f. f \<in> set (dbFlags db) \<and> ?P f \<Longrightarrow> res \<noteq> Ret ()" using c by auto
  show "db' = db\<lparr>dbFlags := dbFlags db'\<rparr>" using db' by simp
qed

lemma SubmitFlag_db_ok: "lawful_driver d \<Longrightarrow> SubmitFlag d flag login db = (db', res) \<Longrightarrow> db_ok db \<Longrightarrow> db_ok db'"
  using SubmitFlag_evolves [of d db flag login] by (simp add: evolves_def)

section \<open>Properties\<close>


text \<open>
  C13. A session token opens the session of its user only: after \<open>CreateSession\<close>, whatever happens in between,
  \<open>FindUserBySession\<close> with the token either fails or returns that very session and the user with the identifier it was
  created for; when it reports a missing record, no such user exists any more.
\<close>

theorem session_roundtrip:
  assumes "lawful_driver d" and "db_ok db" and "CreateSession d uuid uid db = (db1, Ret s)"
    and "history db1 db2" and "lawful_driver d2" and "FindUserBySession d2 uuid db2 = r"
  shows "(\<forall>u s'. r = Ret (u, s') \<longrightarrow> s' = s \<and> u \<in> set (dbUsers db2) \<and> mID u = uid \<and> live u)
    \<and> (r = Fail ErrRecordNotFound \<longrightarrow> (\<forall>u \<in> set (dbUsers db2). live u \<longrightarrow> mID u \<noteq> uid))
    \<and> (\<forall>m. r \<noteq> Panic m)"
proof -
  note s = CreateSession_Ret [OF assms(1,3)]
  have "s \<in> set (dbSessions db2)" using history_sessions [OF assms(4)] s(1) by blast
  moreover have "db_ok db2" using history_db_ok [OF assms(4)] s(4) assms(2) by blast
  ultimately have "FindSession d2 uuid db2 = Ret s \<or> (\<exists>e. FindSession d2 uuid db2 = Fail e \<and> e \<noteq> ErrRecordNotFound)"
    using FindSession_unique [OF assms(5)] s(2) by blast
  then show ?thesis
  proof
    assume f: "FindSession d2 uuid db2 = Ret s"
    with FindUserByID_result [OF assms(5) refl, of uid db2] assms(6) s(3) show ?thesis
      by (cases "FindUserByID d2 uid db2") (auto simp: FindUserBySession_def)
  next
    assume "\<exists>e. FindSession d2 uuid db2 = Fail e \<and> e \<noteq> ErrRecordNotFound"
    with assms(6) show ?thesis by (auto simp: FindUserBySession_def)
  qed
qed

text \<open>
  A flag can be submitted once: after a successful \<open>SubmitFlag\<close>, whatever happens in between, the flag
  belongs to the student who submitted it, and every further \<open>SubmitFlag\<close> of it fails and changes nothing.
\<close>

theorem flag_submitted_once:
  assumes "lawful_driver d" and "db_ok db" and "SubmitFlag d flag login db = (db1, Ret ())"
    and "history db1 db2" and "lawful_driver d2" and "SubmitFlag d2 flag login2 db2 = (db3, res)"
  shows "(\<exists>f \<in> set (dbFlags db2). flID f = flag \<and> flGitlabLogin f = Some login) \<and> res \<noteq> Ret () \<and> db3 = db2"
proof -
  from SubmitFlag_result(1) [OF assms(1,3)] obtain f where f: "f \<in> set (dbFlags db)" "flID f = flag" "flGitlabLogin f = None"
    and flags: "dbFlags db1 = map (\<lambda>f. if flID f = flag \<and> flGitlabLogin f = None then f\<lparr>flGitlabLogin := Some login\<rparr> else f) (dbFlags db)"
    by auto
  let ?f = "f\<lparr>flGitlabLogin := Some login\<rparr>"
  from f flags have "?f \<in> set (dbFlags db1)" by force
  with assms(4) obtain f' where "f' \<in> set (dbFlags db2)" "flag_later ?f f'" by (rule history_flags)
  then have f2: "?f \<in> set (dbFlags db2)" by (simp add: flag_later_def)
  have "db_ok db2" using history_db_ok [OF assms(4) SubmitFlag_db_ok [OF assms(1,3,2)]] .
  then have "\<nexists>g. g \<in> set (dbFlags db2) \<and> flID g = flag \<and> flGitlabLogin g = None"
    using unique_key_eq [OF db_okD(6) f2] f(2) by fastforce
  with SubmitFlag_result(2,3) [OF assms(5,6)] f2 f(2) show ?thesis by fastforce
qed

lemma SetUserGitlabAccount_result:
  assumes law: "lawful_driver d" and s: "SetUserGitlabAccount d uid gu db = (db', res)"
  obtains (kept) "db' = db" "res \<noteq> Ret ()"
  | (linked) u where "res = Ret ()" "u \<in> set (dbUsers db)" "mID u = uid" "usGitlabID u = None \<or> usGitlabLogin u = None"
    "db' = db\<lparr>dbUsers := map (\<lambda>r. if mID r = uid \<and> (usGitlabID r = None \<or> usGitlabLogin r = None) \<and> live r
        then r\<lparr>usGitlabID := guGitlabID gu, usGitlabLogin := guGitlabLogin gu\<rparr> else r) (dbUsers db)\<rparr>" "live u"
proof -
  obtain rows where r: "run_update (drUsers d)
      (\<lambda>r. mID r = uid \<and> (usGitlabID r = None \<or> usGitlabLogin r = None) \<and> live r)
      (\<lambda>r. r\<lparr>usGitlabID := guGitlabID gu, usGitlabLogin := guGitlabLogin gu\<rparr>)
      duplicate_or (unknown_user uid) (dbUsers db) = (rows, res)" and db': "db' = db\<lparr>dbUsers := rows\<rparr>"
    using s by (auto simp: SetUserGitlabAccount_def split: prod.splits)
  from lawful_driverD(1) [OF law] r show ?thesis
    by (cases rule: run_update_cases) (use db' kept linked in auto)
qed

text \<open>
  \<open>SetUserGitlabAccount\<close> links exactly one user, the one with the identifier, and only while one half of the account
  is still missing; every other row of the database is untouched, and when it fails nothing changes. A
  user whose account is complete is rejected.
\<close>

theorem SetUserGitlabAccount_correct:
  assumes "lawful_driver d" and "db_ok db" and "SetUserGitlabAccount d uid gu db = (db', res)"
  shows "if res = Ret ()
    then \<exists>xs u ys. dbUsers db = xs @ u # ys \<and> mID u = uid \<and> live u \<and> (usGitlabID u = None \<or> usGitlabLogin u = None)
      \<and> db' = db\<lparr>dbUsers := xs @ u\<lparr>usGitlabID := guGitlabID gu, usGitlabLogin := guGitlabLogin gu\<rparr> # ys\<rparr>
    else db' = db"
  using assms(1,3)
proof (cases rule: SetUserGitlabAccount_result)
  case kept
  then show ?thesis by simp
next
  case (linked u)
  from linked(2) obtain xs ys where us: "dbUsers db = xs @ u # ys" by (metis split_list)
  have "mID r \<noteq> uid" if "r \<in> set xs \<or> r \<in> set ys" for r
    using unique_key_split [OF db_okD(1) [OF assms(2), unfolded us] _ that] linked(3) by fastforce
  then have "map (\<lambda>r. if mID r = uid \<and> (usGitlabID r = None \<or> usGitlabLogin r = None) \<and> live r
        then r\<lparr>usGitlabID := guGitlabID gu, usGitlabLogin := guGitlabLogin gu\<rparr> else r) (dbUsers db)
      = xs @ u\<lparr>usGitlabID := guGitlabID gu, usGitlabLogin := guGitlabLogin gu\<rparr> # ys"
    using linked by (simp add: us) (auto intro!: map_idI)
  with linked us show ?thesis by auto
qed

text \<open>
  After a successful \<open>AddPipeline\<close> the database holds exactly one pipeline with the identifier, and it has the new status.
  A pipeline that was known keeps its task, project and start; no other pipeline changes.
\<close>

theorem AddPipeline_correct:
  assumes "lawful_driver d" and "db_ok db" and "plID p \<noteq> 0" and "AddPipeline d p db = (db', Ret ())"
  shows "\<exists>q. {r \<in> set (dbPipelines db'). plID r = plID p} = {q} \<and> plStatus q = plStatus p
    \<and> {r \<in> set (dbPipelines db'). plID r \<noteq> plID p} = {r \<in> set (dbPipelines db). plID r \<noteq> plID p}
    \<and> (if \<exists>r \<in> set (dbPipelines db). plID r = plID p
       then \<exists>r \<in> set (dbPipelines db). plID r = plID p \<and> q = r\<lparr>plStatus := plStatus p\<rparr>
       else q = p)"
proof -
  from assms(4) obtain x rows where u: "sqUpsert (drPipelines d) (\<lambda>p r. plID p = plID r)
      (\<lambda>p r. r\<lparr>plStatus := plStatus p\<rparr>) p (dbPipelines db) = Inr (x, rows)" and db': "db' = db\<lparr>dbPipelines := rows\<rparr>"
    by (auto simp: AddPipeline_def split: sum.splits)
  note law = lawful_upsertD [OF lawful_driverD(2) [OF assms(1)] u]
  show ?thesis
  proof (cases "\<exists>r \<in> set (dbPipelines db). plID r = plID p")
    case True
    then obtain r where r: "r \<in> set (dbPipelines db)" "plID r = plID p" by blast
    then have "\<exists>x \<in> set (dbPipelines db). plID p = plID x" by (intro bexI [of _ r]) simp_all
    then have rows: "rows = map (\<lambda>x. if plID p = plID x then x\<lparr>plStatus := plStatus p\<rparr> else x) (dbPipelines db)"
      using law by simp
    have only: "x = r" if "x \<in> set (dbPipelines db)" "plID x = plID p" for x
      using unique_key_eq [OF db_okD(7) [OF assms(2)] that(1) r(1)] that r by simp
    have "{x \<in> set rows. plID x = plID p} = {r\<lparr>plStatus := plStatus p\<rparr>}"
    proof (intro equalityI subsetI)
      fix y assume "y \<in> {x \<in> set rows. plID x = plID p}"
      then obtain x where x: "x \<in> set (dbPipelines db)" "plID y = plID p"
        "y = (if plID p = plID x then x\<lparr>plStatus := plStatus p\<rparr> else x)" by (auto simp: rows)
      then have "plID x = plID p" by (auto split: if_splits)
      with only [OF x(1)] x(3) show "y \<in> {r\<lparr>plStatus := plStatus p\<rparr>}" by simp
    next
      fix y assume "y \<in> {r\<lparr>plStatus := plStatus p\<rparr>}"
      with r show "y \<in> {x \<in> set rows. plID x = plID p}" by (auto simp: rows intro!: image_eqI [of _ _ r])
    qed
    moreover have "{x \<in> set rows. plID x \<noteq> plID p} = {x \<in> set (dbPipelines db). plID x \<noteq> plID p}"
      by (auto simp: rows intro: rev_image_eqI)
    ultimately show ?thesis using r True db' by (intro exI [of _ "r\<lparr>plStatus := plStatus p\<rparr>"]) auto
  next
    case False
    then have no: "\<not> (\<exists>x \<in> set (dbPipelines db). plID p = plID x)" by auto
    with law have "rows = dbPipelines db @ [x] \<and> stored_pipeline p x" by (simp only: if_False)
    with assms(3) have "rows = dbPipelines db @ [p]" by (simp add: stored_pipeline_def)
    with False db' no show ?thesis by (intro exI [of _ p]) auto
  qed
qed

lemma unique_key_filter:
  assumes "unique_key key rs" "x \<in> set rs" "key x = Some k" "P x" "\<And>r. r \<in> set rs \<Longrightarrow> P r \<Longrightarrow> key r = Some k"
  shows "filter P rs = [x]"
proof -
  from assms(2) obtain xs ys where rs: "rs = xs @ x # ys" by (metis split_list)
  have "\<not> P r" if "r \<in> set xs \<or> r \<in> set ys" for r
    using unique_key_split [OF assms(1) [unfolded rs] assms(3) that] assms(5) [of r] that rs by auto
  with assms(4) show ?thesis by (auto simp: rs filter_empty_conv)
qed

lemma listed_overrides:
  assumes "lawful_driver d" "ListUserOverrides d login db = Ret os"
  shows "mset (filter (\<lambda>r. ovTask r = task) os)
    = mset (filter (\<lambda>r. ovGitlabLogin r = login \<and> ovTask r = task \<and> live r) (dbOverrides db))"
proof -
  from assms(2) have "sqFind (drOverrides d) (\<lambda>r. ovGitlabLogin r = login \<and> live r) (dbOverrides db) = Inr os"
    by (simp add: ListUserOverrides_def)
  from lawful_findD [OF lawful_driverD(5) [OF assms(1)] this]
  have "filter_mset (\<lambda>r. ovTask r = task) (mset os)
      = filter_mset (\<lambda>r. ovTask r = task) (mset (filter (\<lambda>r. ovGitlabLogin r = login \<and> live r) (dbOverrides db)))"
    by simp
  then show ?thesis by (simp add: conj_ac flip: mset_filter)
qed

lemma AddOverride_rows:
  assumes "lawful_driver d" "AddOverride d login task score status db = (db', Ret ())"
  defines "same \<equiv> \<lambda>r. ovGitlabLogin r = login \<and> ovTask r = task"
  shows "if \<exists>r \<in> set (dbOverrides db). same r
    then dbOverrides db' = map (\<lambda>r. if same r then r\<lparr>ovScore := score, ovStatus := status\<rparr> else r) (dbOverrides db)
    else \<exists>n. dbOverrides db' = dbOverrides db @
      [\<lparr>mID = n, mDeletedAt = None, ovGitlabLogin = login, ovTask = task, ovScore = score, ovStatus = status\<rparr>]"
proof -
  let ?p = "\<lparr>mID = 0, mDeletedAt = None, ovGitlabLogin = login, ovTask = task, ovScore = score, ovStatus = status\<rparr>"
  from assms(2) obtain x rows where u: "sqUpsert (drOverrides d) (\<lambda>p r. ovGitlabLogin p = ovGitlabLogin r \<and> ovTask p = ovTask r)
      (\<lambda>p r. r\<lparr>ovScore := ovScore p, ovStatus := ovStatus p\<rparr>) ?p (dbOverrides db) = Inr (x, rows)"
    and db': "db' = db\<lparr>dbOverrides := rows\<rparr>"
    by (auto simp: AddOverride_def split: sum.splits)
  have eq: "(login = ovGitlabLogin r \<and> task = ovTask r) = same r" for r by (auto simp: same_def)
  have "\<exists>n. x = \<lparr>mID = n, mDeletedAt = None, ovGitlabLogin = login, ovTask = task, ovScore = score, ovStatus = status\<rparr>"
    if "stored_override ?p x" using that by (cases x) (auto simp: stored_override_def)
  with lawful_upsertD [OF lawful_driverD(5) [OF assms(1)] u] db' show ?thesis
    by (simp add: eq split: if_splits)
qed

text \<open>
  C18. After a successful \<open>AddOverride\<close>, the list of the user's overrides has exactly one entry for the task, with the given
  score and status, unless an override of that user and task was removed before: then the new one is
  written to the removed row, which stays invisible.
\<close>

theorem AddOverride_listed:
  assumes "lawful_driver d" and "db_ok db" and "AddOverride d login task score status db = (db', Ret ())"
    and "lawful_driver d2" and "ListUserOverrides d2 login db' = Ret os"
  shows "if \<exists>r \<in> set (dbOverrides db). ovGitlabLogin r = login \<and> ovTask r = task \<and> \<not> live r
    then \<forall>r \<in> set os. ovTask r \<noteq> task
    else \<exists>r. filter (\<lambda>r. ovTask r = task) os = [r] \<and> ovGitlabLogin r = login \<and> ovScore r = score \<and> ovStatus r = status"
proof -
  let ?same = "\<lambda>r. ovGitlabLogin r = login \<and> ovTask r = task" and ?rs = "dbOverrides db"
  let ?f = "\<lambda>r. r\<lparr>ovScore := score, ovStatus := status\<rparr>"
  let ?vis = "\<lambda>r. ovGitlabLogin r = login \<and> ovTask r = task \<and> live r"
  note rows = AddOverride_rows [OF assms(1,3)]
  note os = listed_overrides [OF assms(4,5), of task]
  note uk = unique_key_filter [OF db_okD(8) [OF assms(2)], where k = "(login, task)" and P = ?same]
  have lv: "live (?f r) = live r" for r by (simp add: live_def)
  show ?thesis
  proof (cases "\<exists>r \<in> set ?rs. ?same r")
    case True
    then obtain r where r: "r \<in> set ?rs" "?same r" by blast
    with uk [of r] have one: "filter ?same ?rs = [r]" by auto
    from True rows have db': "dbOverrides db' = map (\<lambda>r. if ?same r then ?f r else r) ?rs" by simp
    have "filter ?vis (dbOverrides db') = map ?f (filter live (filter ?same ?rs))"
      unfolding db' by (simp add: filter_map o_def lv conj_ac if_distrib [of live] cong: if_cong)
        (auto intro: map_cong filter_cong)
    then have vis: "filter ?vis (dbOverrides db') = (if live r then [?f r] else [])" by (simp add: one)
    have same: "x = r" if "x \<in> set ?rs" "?same x" for x
    proof -
      from that have "x \<in> set (filter ?same ?rs)" by simp
      then show ?thesis by (simp only: one) simp
    qed
    show ?thesis
    proof (cases "live r")
      case True
      with vis os have "filter (\<lambda>r. ovTask r = task) os = [?f r]" by (simp del: mset_filter)
      moreover from same r True have "\<not> (\<exists>x \<in> set ?rs. ovGitlabLogin x = login \<and> ovTask x = task \<and> \<not> live x)"
        by blast
      ultimately show ?thesis using r by (simp only: if_False) simp
    next
      case False
      with vis os have "filter (\<lambda>r. ovTask r = task) os = []" by simp
      with r False show ?thesis by (auto simp: filter_empty_conv)
    qed
  next
    case False
    with rows obtain n where db': "dbOverrides db' = ?rs @
      [\<lparr>mID = n, mDeletedAt = None, ovGitlabLogin = login, ovTask = task, ovScore = score, ovStatus = status\<rparr>]"
      by auto
    from False have "filter ?vis ?rs = []" by (auto simp: filter_empty_conv)
    with db' os have "filter (\<lambda>r. ovTask r = task) os =
      [\<lparr>mID = n, mDeletedAt = None, ovGitlabLogin = login, ovTask = task, ovScore = score, ovStatus = status\<rparr>]"
      by (simp add: live_def del: mset_filter)
    with False show ?thesis by auto
  qed
qed

text \<open>
  C19. Removing an override is final: after a successful \<open>RemoveOverride\<close> of an override that was visible, no later operation,
  not even \<open>AddOverride\<close>, makes an override of that user and task visible again.
\<close>

theorem removed_override_stays_hidden:
  assumes "lawful_driver d" and "db_ok db" and "RemoveOverride d now login task db = (db1, Ret ())"
    and "r \<in> set (dbOverrides db)" and "ovGitlabLogin r = login" and "ovTask r = task"
    and "history db1 db2" and "lawful_driver d2" and "ListUserOverrides d2 login db2 = Ret os"
  shows "\<forall>r \<in> set os. ovTask r \<noteq> task"
proof -
  from assms(3) obtain rows n where u: "sqUpdate (drOverrides d) (\<lambda>r. ovGitlabLogin r = login \<and> ovTask r = task \<and> live r)
      (\<lambda>r. r\<lparr>mDeletedAt := Some now\<rparr>) (dbOverrides db) = Inr (rows, n)" and db1: "db1 = db\<lparr>dbOverrides := rows\<rparr>"
    by (auto simp: RemoveOverride_def split: sum.splits)
  from lawful_updateD [OF lawful_driverD(5) [OF assms(1)] u]
  have rows: "rows = map (\<lambda>r. if ovGitlabLogin r = login \<and> ovTask r = task \<and> live r then r\<lparr>mDeletedAt := Some now\<rparr> else r) (dbOverrides db)"
    by simp
  define r1 where "r1 = (if live r then r\<lparr>mDeletedAt := Some now\<rparr> else r)"
  have r1: "ovGitlabLogin r1 = login" "ovTask r1 = task" "\<not> live r1"
    using assms(5,6) by (auto simp: r1_def live_def)
  have "r1 \<in> set (dbOverrides db1)" using assms(4-6) by (auto simp: db1 rows r1_def)
  moreover have "extends override_later (dbOverrides db1) (dbOverrides db2)"
    using history_evolves [OF assms(7)] by (simp add: evolves_def)
  ultimately obtain r2 where r2: "r2 \<in> set (dbOverrides db2)" "override_later r1 r2" using extends_mem by metis
  then have hid: "ovGitlabLogin r2 = login" "ovTask r2 = task" "\<not> live r2"
    using r1 by (auto simp: override_later_def)
  have "evolves db db1" using RemoveOverride_evolves [OF assms(1), of db now login task] assms(3) by simp
  then have ok: "db_ok db2" using history_evolves [OF assms(7)] assms(2) by (auto simp: evolves_def)
  have "filter (\<lambda>r. ovGitlabLogin r = login \<and> ovTask r = task \<and> live r) (dbOverrides db2) = []"
  proof -
    have "\<not> live x" if "x \<in> set (dbOverrides db2)" "ovGitlabLogin x = login" "ovTask x = task" for x
      using unique_key_eq [OF db_okD(8) [OF ok] that(1) r2(1), of "(login, task)"] that hid by simp
    then show ?thesis by (auto simp: filter_empty_conv)
  qed
  with listed_overrides [OF assms(8,9), of task] show ?thesis by (simp add: filter_empty_conv)
qed

definition new_user :: "string \<Rightarrow> string \<Rightarrow> string \<Rightarrow> User" where
  "new_user fname lname grp =
     \<lparr>mID = 0, mDeletedAt = None, usGitlabID = None, usGitlabLogin = None, usRepository = None,
      usFirstName = fname, usLastName = lname, usGroupName = grp, usTelegramID = None, usHasRetake = False\<rparr>"

text \<open>
  Registering a student by name: \<open>AddUser\<close> returns a visible user of exactly that first name, last name and group, and
  it is the only such user; the database gains at most this one row, and only when there was no visible user of that name,
  and nothing changes when it fails.
\<close>

theorem AddUser_correct:
  assumes "lawful_driver d" and "db_ok db" and "fname \<noteq> []" and "lname \<noteq> []" and "grp \<noteq> []"
    and "AddUser d (new_user fname lname grp) db = (db', res)"
  defines "named \<equiv> \<lambda>u. usFirstName u = fname \<and> usLastName u = lname \<and> usGroupName u = grp"
  shows "case res of
      Ret u \<Rightarrow> named u \<and> live u \<and> {r \<in> set (dbUsers db'). named r} = {u}
        \<and> (db' = db \<or> (\<forall>r \<in> set (dbUsers db). \<not> named r) \<and> db' = db\<lparr>dbUsers := dbUsers db @ [u]\<rparr>)
    | Fail e \<Rightarrow> db' = db
    | Panic m \<Rightarrow> False"
proof -
  have ok': "db_ok db'" using AddUser_evolves [OF assms(1), of db "new_user fname lname grp"] assms(2,6)
    by (auto simp: evolves_def)
  have only: "{r \<in> set (dbUsers db'). named r} = {u}" if "u \<in> set (dbUsers db')" "named u" for u
  proof -
    have "r = u" if "r \<in> set (dbUsers db')" "named r" for r
      using unique_key_eq [OF db_okD(4) [OF ok'] that(1) \<open>u \<in> set (dbUsers db')\<close>] that(2) \<open>named u\<close>
      by (simp add: named_def)
    with that show ?thesis by blast
  qed
  have c: "user_cond (new_user fname lname grp) r \<longleftrightarrow> named r \<and> live r" for r
    using assms(3-5) by (auto simp: user_cond_def new_user_def named_def)
  show ?thesis
  proof (cases "sqFirst (drUsers d) (user_cond (new_user fname lname grp)) (dbUsers db)")
    case (Inr u)
    with lawful_firstD [OF lawful_driverD(1) [OF assms(1)] Inr] assms(6) c only show ?thesis
      by (auto simp: AddUser_def)
  next
    case (Inl e)
    show ?thesis
    proof (cases "e = ErrRecordNotFound")
      case False
      with Inl assms(6) show ?thesis by (auto simp: AddUser_def)
    next
      case True
      show ?thesis
      proof (cases "sqInsert (drUsers d) (new_user fname lname grp) (dbUsers db)")
        case (Inl e')
        with True \<open>sqFirst _ _ _ = Inl e\<close> assms(6) show ?thesis by (auto simp: AddUser_def)
      next
        case (Inr x)
        obtain u rows where x: "x = (u, rows)" by fastforce
        from lawful_insertD [OF lawful_driverD(1) [OF assms(1)] Inr [unfolded x]]
        have rows: "rows = dbUsers db @ [u]" and st: "stored_user (new_user fname lname grp) u" by auto
        from st have u: "named u" "live u" by (cases u; simp add: stored_user_def new_user_def named_def live_def)+
        have db': "db' = db\<lparr>dbUsers := dbUsers db @ [u]\<rparr>" and res: "res = Ret u"
          using assms(6) True \<open>sqFirst _ _ _ = Inl e\<close> Inr x rows by (auto simp: AddUser_def)
        have "\<not> named r" if "r \<in> set (dbUsers db)" for r
        proof
          assume r: "named r"
          from db_okD(4) [OF ok'] have
            "unique_key (\<lambda>u. Some (usFirstName u, usLastName u, usGroupName u)) (dbUsers db @ u # [])"
            by (simp add: db')
          from unique_key_split [OF this, of "(fname, lname, grp)" r] u(1) r that show False
            by (simp add: named_def)
        qed
        with u res db' only [of u] show ?thesis by auto
      qed
    qed
  qed
qed

section \<open>Concrete instances\<close>

definition sample_user :: User where
  "sample_user = (new_user ''A'' ''B'' ''g'')\<lparr>mID := 1\<rparr>"

definition sample_db :: DB where
  "sample_db =
     \<lparr>dbUsers = [sample_user],
      dbPipelines = [\<lparr>plID = 7, plProject = ''p'', plTask = ''t'', plStatus = ''running'', plStartedAt = 5\<rparr>],
      dbSessions = [],
      dbFlags = [\<lparr>flID = ''f'', flTask = ''t'', flGitlabLogin = None, flCreatedAt = 0\<rparr>],
      dbOverrides = [\<lparr>mID = 1, mDeletedAt = None, ovGitlabLogin = ''a'', ovTask = ''t'', ovScore = 3, ovStatus = ''success''\<rparr>]\<rparr>"

lemma sample_db_ok: "db_ok sample_db"
  by (simp add: db_ok_def sample_db_def mem_eval)

lemmas sample_eval = sample_db_def sample_user_def new_user_def mem_eval

definition linked_db :: DB where
  "linked_db = fst (SetUserGitlabAccount mem_driver 1 \<lparr>guGitlabID = Some 10, guGitlabLogin = Some ''a'', guRepository = None\<rparr> sample_db)"

lemma linked_db_ok: "db_ok linked_db"
  using SetUserGitlabAccount_evolves [OF mem_driver_lawful, of sample_db 1] sample_db_ok
  by (simp add: linked_db_def evolves_def)


lemma session_roundtrip_witness:
  "\<exists>db1 s. CreateSession mem_driver ''token'' 1 sample_db = (db1, Ret s)
     \<and> FindUserBySession mem_driver ''token'' db1 = Ret (sample_user, s) \<and> ssUserID s = 1"
proof -
  obtain db1 s where c: "CreateSession mem_driver ''token'' 1 sample_db = (db1, Ret s)" and "ssUserID s = 1"
    by (simp add: CreateSession_def sample_eval)
  moreover obtain u s' where f: "FindUserBySession mem_driver ''token'' db1 = Ret (u, s')" and "u = sample_user"
    using c by (auto simp: CreateSession_def FindUserBySession_def FindSession_def FindUserByID_def sample_eval)
  moreover from session_roundtrip [OF mem_driver_lawful sample_db_ok c history.start mem_driver_lawful f]
  have "s' = s" by simp
  ultimately show ?thesis by blast
qed

lemma flag_submitted_once_witness:
  "\<exists>db1. SubmitFlag mem_driver ''f'' ''a'' sample_db = (db1, Ret ())
     \<and> (\<exists>res. SubmitFlag mem_driver ''f'' ''b'' db1 = (db1, res) \<and> res \<noteq> Ret ())"
proof -
  obtain db1 where s: "SubmitFlag mem_driver ''f'' ''a'' sample_db = (db1, Ret ())"
    by (simp add: SubmitFlag_def sample_eval)
  obtain db3 res where "SubmitFlag mem_driver ''f'' ''b'' db1 = (db3, res)" by fastforce
  with flag_submitted_once [OF mem_driver_lawful sample_db_ok s history.start mem_driver_lawful this] s
  show ?thesis by auto
qed

lemma SetUserGitlabAccount_correct_witness:
  "\<exists>db'. SetUserGitlabAccount mem_driver 1 \<lparr>guGitlabID = Some 10, guGitlabLogin = Some ''a'', guRepository = None\<rparr> sample_db = (db', Ret ())
     \<and> (\<exists>xs u ys. dbUsers sample_db = xs @ u # ys \<and> mID u = 1
          \<and> dbUsers db' = xs @ u\<lparr>usGitlabID := Some 10, usGitlabLogin := Some ''a''\<rparr> # ys)"
proof -
  obtain db' where s: "SetUserGitlabAccount mem_driver 1 \<lparr>guGitlabID = Some 10, guGitlabLogin = Some ''a'', guRepository = None\<rparr>
      sample_db = (db', Ret ())"
    by (simp add: SetUserGitlabAccount_def sample_eval)
  from SetUserGitlabAccount_correct [OF mem_driver_lawful sample_db_ok s] s show ?thesis by fastforce
qed

lemma AddPipeline_correct_witness:
  "\<exists>db'. AddPipeline mem_driver \<lparr>plID = 7, plProject = ''q'', plTask = ''u'', plStatus = ''success'', plStartedAt = 9\<rparr> sample_db = (db', Ret ())
     \<and> (\<exists>q. {r \<in> set (dbPipelines db'). plID r = 7} = {q} \<and> plStatus q = ''success'' \<and> plTask q = ''t'')"
proof -
  let ?p = "\<lparr>plID = 7, plProject = ''q'', plTask = ''u'', plStatus = ''success'', plStartedAt = 9\<rparr>"
  obtain db' where s: "AddPipeline mem_driver ?p sample_db = (db', Ret ())"
    by (simp add: AddPipeline_def sample_eval)
  from AddPipeline_correct [OF mem_driver_lawful sample_db_ok _ s] obtain q where
    "{r \<in> set (dbPipelines db'). plID r = 7} = {q}" "plStatus q = ''success''" "plTask q = ''t''"
    by (auto simp: sample_db_def)
  with s show ?thesis by blast
qed

lemma AddOverride_listed_witness:
  "\<exists>db' os r. AddOverride mem_driver ''a'' ''t'' 5 ''success'' sample_db = (db', Ret ())
     \<and> ListUserOverrides mem_driver ''a'' db' = Ret os \<and> filter (\<lambda>r. ovTask r = ''t'') os = [r] \<and> ovScore r = 5"
proof -
  obtain db' where s: "AddOverride mem_driver ''a'' ''t'' 5 ''success'' sample_db = (db', Ret ())"
    by (simp add: AddOverride_def sample_eval)
  obtain os where l: "ListUserOverrides mem_driver ''a'' db' = Ret os"
    by (simp add: ListUserOverrides_def mem_driver_def mem_sql_def)
  from AddOverride_listed [OF mem_driver_lawful sample_db_ok s mem_driver_lawful l] s l show ?thesis
    by (auto simp: sample_db_def live_def)
qed

lemma removed_override_stays_hidden_witness:
  "\<exists>db1 db2 os. RemoveOverride mem_driver 9 ''a'' ''t'' sample_db = (db1, Ret ())
     \<and> AddOverride mem_driver ''a'' ''t'' 5 ''success'' db1 = (db2, Ret ())
     \<and> ListUserOverrides mem_driver ''a'' db2 = Ret os \<and> filter (\<lambda>r. ovTask r = ''t'') os = []"
proof -
  obtain db1 where s: "RemoveOverride mem_driver 9 ''a'' ''t'' sample_db = (db1, Ret ())"
    by (simp add: RemoveOverride_def sample_eval)
  obtain db2 where a: "AddOverride mem_driver ''a'' ''t'' 5 ''success'' db1 = (db2, Ret ())"
    using s by (auto simp: RemoveOverride_def AddOverride_def sample_eval)
  have "history db1 (run_op mem_driver (OpAddOverride ''a'' ''t'' 5 ''success'') db1)"
    by (intro history.step [OF history.start] mem_driver_lawful)
  with a have h: "history db1 db2" by simp
  obtain os where l: "ListUserOverrides mem_driver ''a'' db2 = Ret os"
    by (simp add: ListUserOverrides_def mem_driver_def mem_sql_def)
  have m: "hd (dbOverrides sample_db) \<in> set (dbOverrides sample_db)"
    "ovGitlabLogin (hd (dbOverrides sample_db)) = ''a''" "ovTask (hd (dbOverrides sample_db)) = ''t''"
    by (simp_all add: sample_db_def)
  from removed_override_stays_hidden [OF mem_driver_lawful sample_db_ok s m h mem_driver_lawful l] s a l
  show ?thesis by (auto simp: filter_empty_conv)
qed

lemma AddUser_correct_witness:
  "\<exists>db' u. AddUser mem_driver (new_user ''C'' ''D'' ''g'') sample_db = (db', Ret u)
     \<and> usFirstName u = ''C'' \<and> usLastName u = ''D'' \<and> db' = sample_db\<lparr>dbUsers := [sample_user, u]\<rparr>"
proof -
  obtain db' u where s: "AddUser mem_driver (new_user ''C'' ''D'' ''g'') sample_db = (db', Ret u)"
    and n: "db' \<noteq> sample_db"
    by (simp add: AddUser_def user_cond_def sample_eval)
  from AddUser_correct [OF mem_driver_lawful sample_db_ok _ _ _ s] n s show ?thesis
    by (auto simp: sample_db_def)
qed

end
