(* ===== verification/ScorerSpec.thy ===== *)
theory ScorerSpec
  imports Scorer DatabaseHistory
begin

text \<open>
  What the scorer promises: which submission of a task counts, what score and status a task gets, how the totals and the final mark
  are made of them, that the two ways the program computes a student's scores agree, and the order of the scoreboard.
\<close>

section \<open>Which submission counts\<close>

text \<open>
  The loops over pipelines and flags are instances of \<open>best_map\<close>; these two orders satisfy the laws of its interface.
\<close>

interpretation pipeline_pref: preference pipelineLess
  by unfold_locales (auto simp: pipelineLess_def Before_def split: if_splits)

interpretation flag_pref: preference flag_earlier
  by unfold_locales (auto simp: flag_earlier_def Before_def)

lemma not_pipelineLess:
  "\<not> pipelineLess q p \<longleftrightarrow>
     classifyPipelineStatus (plStatus q) < classifyPipelineStatus (plStatus p)
     \<or> (classifyPipelineStatus (plStatus q) = classifyPipelineStatus (plStatus p) \<and> plStartedAt p \<le> plStartedAt q)"
  by (auto simp: pipelineLess_def Before_def)

lemma best_pipeline:
  assumes "best_map plTask pipelineLess ps Map.empty t = Some p"
  shows "p \<in> set ps \<and> plTask p = t"
    and "q \<in> set ps \<Longrightarrow> plTask q = t \<Longrightarrow> \<not> pipelineLess q p"
  using pipeline_pref.best_map_Some [OF assms] by (auto simp: unbeaten_def)

lemma best_flag:
  assumes "best_map flTask flag_earlier fs Map.empty t = Some f"
  shows "f \<in> set fs \<and> flTask f = t"
    and "g \<in> set fs \<Longrightarrow> flTask g = t \<Longrightarrow> flCreatedAt f \<le> flCreatedAt g"
  using flag_pref.best_map_Some [OF assms] by (auto simp: unbeaten_def flag_earlier_def Before_def)

section \<open>Totals\<close>

lemma score_tasks_Ret_iff:
  "score_tasks env policy grp tasks acc a b = Ret r \<longleftrightarrow>
     (\<exists>ts. map_outcome (score_task env policy grp) tasks = Ret ts
        \<and> r = (acc @ ts, a + sum_list (map stScore ts), b + sum_list (map stMaxScore ts)))"
proof (induction tasks arbitrary: acc a b)
  case Nil
  then show ?case by auto
next
  case (Cons task tasks)
  show ?case by (cases "score_task env policy grp task") (auto simp: Cons.IH add.assoc)
qed

definition scored_group :: "score_env \<Rightarrow> TaskGroup \<Rightarrow> ScoredTaskGroup outcome" where
  "scored_group env grp =
     and_then (map_outcome (score_task env (GetScoringPolicy (seDeadlines env) grp) grp) (tgTasks grp)) (\<lambda>ts.
     Ret \<lparr>sgrTitle = tgTitle grp, sgrPrettyTitle = prettifyTitle (seUnicode env) (tgTitle grp),
          sgrDeadline = tgDeadline grp, sgrTasks = ts, sgrScore = sum_list (map stScore ts),
          sgrMaxScore = sum_list (map stMaxScore ts)\<rparr>)"

definition final_mark :: "Deadlines \<Rightarrow> TaskGroup list \<Rightarrow> ScoredTaskGroup list \<Rightarrow> f64 \<Rightarrow> f64" where
  "final_mark d grps gs mark = fold (\<lambda>(grp, g). mark_share d grp (sgrScore g)) (zip grps gs) mark"

lemma score_groups_Ret_iff:
  "score_groups env grps scores = Ret r \<longleftrightarrow>
     (\<exists>gs. map_outcome (scored_group env) grps = Ret gs
        \<and> r = scores\<lparr>uscGroups := uscGroups scores @ gs, uscScore := uscScore scores + sum_list (map sgrScore gs),
               uscMaxScore := uscMaxScore scores + sum_list (map sgrMaxScore gs),
               uscFinalMark := final_mark (seDeadlines env) grps gs (uscFinalMark scores)\<rparr>)"
proof (induction grps arbitrary: scores)
  case Nil
  then show ?case by (auto simp: final_mark_def)
next
  case (Cons grp grps)
  let ?m = "map_outcome (score_task env (GetScoringPolicy (seDeadlines env) grp) grp) (tgTasks grp)"
  show ?case
  proof (cases ?m)
    case (Ret ts)
    then have "score_tasks env (GetScoringPolicy (seDeadlines env) grp) grp (tgTasks grp) [] 0 0
        = Ret (ts, sum_list (map stScore ts), sum_list (map stMaxScore ts))"
      by (simp add: score_tasks_Ret_iff)
    with Ret show ?thesis
      by (auto simp: Cons.IH scored_group_def final_mark_def add.assoc)
  next
    case (Fail e)
    then have "score_tasks env (GetScoringPolicy (seDeadlines env) grp) grp (tgTasks grp) [] 0 0 \<noteq> Ret x" for x
      by (simp add: score_tasks_Ret_iff)
    with Fail show ?thesis by (simp add: scored_group_def)
  next
    case (Panic m)
    then have "score_tasks env (GetScoringPolicy (seDeadlines env) grp) grp (tgTasks grp) [] 0 0 \<noteq> Ret x" for x
      by (simp add: score_tasks_Ret_iff)
    with Panic show ?thesis by (simp add: scored_group_def)
  qed
qed

lemma score_task_fields:
  "score_task env policy grp task = Ret t \<Longrightarrow> stTask t = tkTask task \<and> stMaxScore t = tkScore task"
  by (auto simp: score_task_def score_submission_def apply_override_def blank_task_def Let_def
      split: option.splits if_splits)

lemma map_outcome_map:
  assumes "map_outcome f xs = Ret ys" "\<And>x y. f x = Ret y \<Longrightarrow> g y = h x" shows "map g ys = map h xs"
  using assms(1) by (induction xs arbitrary: ys) (auto dest: assms(2))

text \<open>The environment in which a student is scored.\<close>

definition env_of :: "Scorer \<Rightarrow> Deadlines \<Rightarrow> User \<Rightarrow> string \<Rightarrow> Pipeline list \<Rightarrow> Flag list \<Rightarrow> OverriddenScore list \<Rightarrow> score_env" where
  "env_of s d user login ps fs os =
     \<lparr>seExp = scrExp s, seUnicode = scrUnicode s, seProjects = scrProjects s, seDeadlines = d, seUser = user,
      seLogin = login, sePipelines = best_map plTask pipelineLess ps Map.empty,
      seFlags = best_map flTask flag_earlier fs Map.empty, seOverrides = parseOverrides os\<rparr>"

lemma env_of_simps [simp]:
  "seDeadlines (env_of s d user login ps fs os) = d" "seLogin (env_of s d user login ps fs os) = login"
  "seUser (env_of s d user login ps fs os) = user" "seExp (env_of s d user login ps fs os) = scrExp s"
  "seProjects (env_of s d user login ps fs os) = scrProjects s"
  by (simp_all add: env_of_def)

lemma calcUserScoresImpl_Ret:
  assumes "calcUserScoresImpl s d user pp fp os = Ret r"
  obtains login project ps fs gs where
    "usGitlabLogin user = Some login" "pfMakeProjectName (scrProjects s) user = Ret project"
    "pp project = Ret ps" "fp login = Ret fs"
    "map_outcome (scored_group (env_of s d user login ps fs os)) (dlAssignments d) = Ret gs"
    "r = \<lparr>uscGroups = gs, uscScore = sum_list (map sgrScore gs), uscMaxScore = sum_list (map sgrMaxScore gs),
          uscFinalMark = final_mark d (dlAssignments d) gs (Fin 0),
          uscUser = \<lparr>suFirstName = usFirstName user, suLastName = usLastName user, suGitlabLogin = login,
                     suGitlabProject = project\<rparr>\<rparr>"
  using assms
  by (fastforce simp: calcUserScoresImpl_def loadUserPipelines_def loadUserFlags_def env_of_def score_groups_Ret_iff
      split: option.splits)

lemma calcUserScoresImpl_Ret_iff:
  assumes "usGitlabLogin user = Some login" "pfMakeProjectName (scrProjects s) user = Ret project"
    and "pp project = Ret ps" and "fp login = Ret fs"
  shows "calcUserScoresImpl s d user pp fp os = Ret r \<longleftrightarrow>
    (\<exists>gs. map_outcome (scored_group (env_of s d user login ps fs os)) (dlAssignments d) = Ret gs
      \<and> r = \<lparr>uscGroups = gs, uscScore = sum_list (map sgrScore gs), uscMaxScore = sum_list (map sgrMaxScore gs),
          uscFinalMark = final_mark d (dlAssignments d) gs (Fin 0),
          uscUser = \<lparr>suFirstName = usFirstName user, suLastName = usLastName user, suGitlabLogin = login,
                     suGitlabProject = project\<rparr>\<rparr>)"
  using assms by (auto simp: calcUserScoresImpl_def loadUserPipelines_def loadUserFlags_def env_of_def score_groups_Ret_iff)

section \<open>What decides the score of a task\<close>

lemma parseOverrides_loop_find:
  "parseOverrides_loop os m (l, t) =
     (case List.find (\<lambda>r. ovGitlabLogin r = l \<and> ovTask r = t) (rev os) of None \<Rightarrow> m (l, t) | Some r \<Rightarrow> Some r)"
  by (induction os arbitrary: m) (auto simp: find_append split: option.splits)

lemma parseOverrides_find:
  "parseOverrides os (l, t) = List.find (\<lambda>r. ovGitlabLogin r = l \<and> ovTask r = t) (rev os)"
  by (simp add: parseOverrides_def parseOverrides_loop_find split: option.splits)

text \<open>
  The scored task for a task of the plan, in terms of the lists that the database returned: an override decides
  first (the last one listed for the student and the task); otherwise a submitted flag, at the time
  of the earliest; otherwise, unless the task is a crashme, a pipeline that no other pipeline of the task beats; otherwise the
  task is merely assigned.
\<close>

definition decided_by_override :: "string \<Rightarrow> OverriddenScore list \<Rightarrow> ScoredTask \<Rightarrow> bool" where
  "decided_by_override login os t =
     (case List.find (\<lambda>r. ovGitlabLogin r = login \<and> ovTask r = stTask t) (rev os) of
        None \<Rightarrow> False
      | Some r \<Rightarrow> stOverridden t \<and> stScore t = ovScore r \<and> stStatus t = ClassifyPipelineStatus (ovStatus r))"

definition decided_by_flag :: "(Pipeline \<Rightarrow> goint) \<Rightarrow> Flag list \<Rightarrow> ScoredTask \<Rightarrow> bool" where
  "decided_by_flag sc fs t \<longleftrightarrow>
     (\<exists>f \<in> set fs. flTask f = stTask t \<and> (\<forall>g \<in> set fs. flTask g = stTask t \<longrightarrow> flCreatedAt f \<le> flCreatedAt g)
        \<and> stScore t = sc (flag_pipeline f) \<and> stStatus t = ''success'')"

definition decided_by_pipeline :: "(Pipeline \<Rightarrow> goint) \<Rightarrow> Pipeline list \<Rightarrow> ScoredTask \<Rightarrow> bool" where
  "decided_by_pipeline sc ps t \<longleftrightarrow>
     (\<exists>p \<in> set ps. plTask p = stTask t
        \<and> (\<forall>q \<in> set ps. plTask q = stTask t \<longrightarrow>
             classifyPipelineStatus (plStatus q) < classifyPipelineStatus (plStatus p)
             \<or> (classifyPipelineStatus (plStatus q) = classifyPipelineStatus (plStatus p) \<and> plStartedAt p \<le> plStartedAt q))
        \<and> stScore t = sc p \<and> stStatus t = ClassifyPipelineStatus (plStatus p))"

definition task_spec ::
  "(Pipeline \<Rightarrow> goint) \<Rightarrow> string \<Rightarrow> Pipeline list \<Rightarrow> Flag list \<Rightarrow> OverriddenScore list \<Rightarrow> Task \<Rightarrow> ScoredTask \<Rightarrow> bool" where
  "task_spec sc login ps fs os task t \<longleftrightarrow>
     stTask t = tkTask task \<and> stMaxScore t = tkScore task \<and>
     (if \<exists>r \<in> set os. ovGitlabLogin r = login \<and> ovTask r = tkTask task then decided_by_override login os t
      else \<not> stOverridden t \<and>
        (if \<exists>f \<in> set fs. flTask f = tkTask task then decided_by_flag sc fs t
         else if \<not> tkCrashme task \<and> (\<exists>p \<in> set ps. plTask p = tkTask task) then decided_by_pipeline sc ps t
         else stScore t = 0 \<and> stStatus t = ''assigned''))"

text \<open>Without an override.\<close>

definition submission_spec :: "(Pipeline \<Rightarrow> goint) \<Rightarrow> Pipeline list \<Rightarrow> Flag list \<Rightarrow> Task \<Rightarrow> ScoredTask \<Rightarrow> bool" where
  "submission_spec sc ps fs task t \<longleftrightarrow>
     stTask t = tkTask task \<and> stMaxScore t = tkScore task \<and> \<not> stOverridden t \<and>
     (if \<exists>f \<in> set fs. flTask f = tkTask task then decided_by_flag sc fs t
      else if \<not> tkCrashme task \<and> (\<exists>p \<in> set ps. plTask p = tkTask task) then decided_by_pipeline sc ps t
      else stScore t = 0 \<and> stStatus t = ''assigned'')"

lemma score_submission_spec:
  assumes "score_submission (env_of s d user login ps fs os) policy grp task = Ret t"
  shows "submission_spec (scorePipeline (scrExp s) policy d user task grp) ps fs task t"
proof (cases "best_map flTask flag_earlier fs Map.empty (tkTask task)")
  case (Some f)
  note f = best_flag [OF Some]
  with assms Some show ?thesis
    by (auto simp: score_submission_def env_of_def blank_task_def Let_def submission_spec_def decided_by_flag_def)
next
  case None
  then have nf: "\<not> (\<exists>f \<in> set fs. flTask f = tkTask task)" by (force simp: best_map_None_iff)
  show ?thesis
  proof (cases "best_map plTask pipelineLess ps Map.empty (tkTask task)")
    case np: None
    then have "\<not> (\<exists>p \<in> set ps. plTask p = tkTask task)" by (force simp: best_map_None_iff)
    with assms None np nf show ?thesis
      by (auto simp: score_submission_def env_of_def blank_task_def Let_def submission_spec_def split: if_splits)
  next
    case (Some p)
    note p = best_pipeline [OF Some]
    show ?thesis
    proof (cases "tkCrashme task")
      case True
      with assms None nf show ?thesis
        by (auto simp: score_submission_def env_of_def blank_task_def Let_def submission_spec_def)
    next
      case False
      with assms None Some have t: "stTask t = tkTask task" "stMaxScore t = tkScore task" "\<not> stOverridden t"
        "stScore t = scorePipeline (scrExp s) policy d user task grp p" "stStatus t = ClassifyPipelineStatus (plStatus p)"
        by (auto simp: score_submission_def env_of_def blank_task_def Let_def)
      have "decided_by_pipeline (scorePipeline (scrExp s) policy d user task grp) ps t"
        unfolding decided_by_pipeline_def not_pipelineLess [symmetric]
        using p t by (intro bexI [of _ p]) auto
      with t False nf p(1) show ?thesis by (auto simp: submission_spec_def)
    qed
  qed
qed

lemma score_task_spec:
  assumes "score_task (env_of s d user login ps fs os) policy grp task = Ret t"
  shows "task_spec (scorePipeline (scrExp s) policy d user task grp) login ps fs os task t"
proof -
  from assms obtain t0 where t0: "score_submission (env_of s d user login ps fs os) policy grp task = Ret t0"
    and t: "t = apply_override (env_of s d user login ps fs os) t0" by (auto simp: score_task_def)
  note sub = score_submission_spec [OF t0]
  then have f0: "stTask t0 = tkTask task" by (simp add: submission_spec_def)
  show ?thesis
  proof (cases "List.find (\<lambda>r. ovGitlabLogin r = login \<and> ovTask r = tkTask task) (rev os)")
    case None
    with t f0 have "t = t0" by (simp add: apply_override_def env_of_def parseOverrides_find)
    with None sub show ?thesis by (auto simp: submission_spec_def task_spec_def find_None_iff)
  next
    case (Some r)
    then have ex: "\<exists>r \<in> set os. ovGitlabLogin r = login \<and> ovTask r = tkTask task"
      by (metis (mono_tags, lifting) find_Some_iff nth_mem set_rev)
    have "t = t0\<lparr>stScore := ovScore r, stStatus := ClassifyPipelineStatus (ovStatus r), stOverridden := True\<rparr>"
      using t f0 Some by (simp add: apply_override_def env_of_def parseOverrides_find)
    with Some ex sub show ?thesis by (simp add: submission_spec_def task_spec_def decided_by_override_def)
  qed
qed

section \<open>Properties of a student's scores\<close>

definition scored_as :: "Scorer \<Rightarrow> Deadlines \<Rightarrow> User \<Rightarrow> string \<Rightarrow> Pipeline list \<Rightarrow> Flag list \<Rightarrow> OverriddenScore list \<Rightarrow> TaskGroup \<Rightarrow> ScoredTaskGroup \<Rightarrow> bool" where
  "scored_as s d user login ps fs os grp g \<longleftrightarrow>
     sgrTitle g = tgTitle grp \<and> sgrDeadline g = tgDeadline grp \<and>
     list_all2 (\<lambda>task. task_spec (scorePipeline (scrExp s) (GetScoringPolicy d grp) d user task grp) login ps fs os task)
       (tgTasks grp) (sgrTasks g)"

lemma scored_group_as:
  "scored_group (env_of s d user login ps fs os) grp = Ret g \<Longrightarrow> scored_as s d user login ps fs os grp g"
  by (auto simp: scored_group_def scored_as_def map_outcome_Ret_iff intro!: list_all2_mono [OF _ score_task_spec])

text \<open>
  C4. The scores of a student list the groups of the course plan and the tasks of each group in the plan's order. Each
  task is decided by the student's override if there is one, else by the earliest submitted flag, else, unless the task is a
  crashme, by a pipeline with the best status and among those the earliest start, else it is merely assigned.
\<close>

theorem calcUserScores_tasks:
  assumes "calcUserScoresImpl s d user pp fp os = Ret r"
  shows "\<exists>login project ps fs.
    usGitlabLogin user = Some login \<and> pfMakeProjectName (scrProjects s) user = Ret project
    \<and> pp project = Ret ps \<and> fp login = Ret fs
    \<and> list_all2 (scored_as s d user login ps fs os) (dlAssignments d) (uscGroups r)"
  using assms
proof (rule calcUserScoresImpl_Ret)
  fix login project ps fs gs
  assume "usGitlabLogin user = Some login" "pfMakeProjectName (scrProjects s) user = Ret project"
    "pp project = Ret ps" "fp login = Ret fs"
    and gs: "map_outcome (scored_group (env_of s d user login ps fs os)) (dlAssignments d) = Ret gs"
    and r: "r = \<lparr>uscGroups = gs, uscScore = sum_list (map sgrScore gs), uscMaxScore = sum_list (map sgrMaxScore gs),
          uscFinalMark = final_mark d (dlAssignments d) gs (Fin 0),
          uscUser = \<lparr>suFirstName = usFirstName user, suLastName = usLastName user, suGitlabLogin = login,
                     suGitlabProject = project\<rparr>\<rparr>"
  moreover have "list_all2 (scored_as s d user login ps fs os) (dlAssignments d) gs"
    using gs unfolding map_outcome_Ret_iff by (rule list_all2_mono) (rule scored_group_as)
  ultimately show ?thesis by auto
qed

lemma mark_share_fun:
  "mark_share d grp totalScore = (\<lambda>mark.
     case GetScoringGroup d grp of
       None \<Rightarrow> mark
     | Some sg \<Rightarrow>
         if 0 < sint (sgMaxScore sg)
         then f64_add mark (f64_div (f64_mul (sgWeight sg) (f64_of_int totalScore)) (f64_of_int (sgMaxScore sg)))
         else mark)"
  by (rule ext) (simp add: mark_share_def word_sless_alt split: option.split)

lemma scored_group_totals:
  assumes "scored_group env grp = Ret g"
  shows "sgrScore g = sum_list (map stScore (sgrTasks g)) \<and> sgrMaxScore g = sum_list (map tkScore (tgTasks grp))"
proof -
  from assms obtain ts where ts: "map_outcome (score_task env (GetScoringPolicy (seDeadlines env) grp) grp) (tgTasks grp) = Ret ts"
    and g: "sgrTasks g = ts" "sgrScore g = sum_list (map stScore ts)" "sgrMaxScore g = sum_list (map stMaxScore ts)"
    by (auto simp: scored_group_def)
  have "map stMaxScore ts = map tkScore (tgTasks grp)"
    using ts by (rule map_outcome_map) (simp add: score_task_fields)
  with g show ?thesis by simp
qed

text \<open>
  C5. The totals add up: a group's score is the sum of its tasks' scores, its maximal score the sum of the plan's task scores, the
  student's scores are the sums over the groups, and the final mark is the float sum, in the plan's order,
  of weight times group score over the maximal score of the scoring group, over the
  groups whose scoring group exists and has a positive maximal score.
\<close>

theorem calcUserScores_totals:
  assumes "calcUserScoresImpl s d user pp fp os = Ret r"
  shows "uscScore r = sum_list (map sgrScore (uscGroups r)) \<and> uscMaxScore r = sum_list (map sgrMaxScore (uscGroups r))
    \<and> list_all2 (\<lambda>grp g. sgrScore g = sum_list (map stScore (sgrTasks g))
           \<and> sgrMaxScore g = sum_list (map tkScore (tgTasks grp))) (dlAssignments d) (uscGroups r)
    \<and> uscFinalMark r =
        fold (\<lambda>(grp, g) mark.
                case GetScoringGroup d grp of
                  None \<Rightarrow> mark
                | Some sg \<Rightarrow>
                    if 0 < sint (sgMaxScore sg)
                    then f64_add mark (f64_div (f64_mul (sgWeight sg) (f64_of_int (sgrScore g))) (f64_of_int (sgMaxScore sg)))
                    else mark)
          (zip (dlAssignments d) (uscGroups r)) (Fin 0)"
  using assms
proof (rule calcUserScoresImpl_Ret)
  fix login project ps fs gs
  assume gs: "map_outcome (scored_group (env_of s d user login ps fs os)) (dlAssignments d) = Ret gs"
    and r: "r = \<lparr>uscGroups = gs, uscScore = sum_list (map sgrScore gs), uscMaxScore = sum_list (map sgrMaxScore gs),
          uscFinalMark = final_mark d (dlAssignments d) gs (Fin 0),
          uscUser = \<lparr>suFirstName = usFirstName user, suLastName = usLastName user, suGitlabLogin = login,
                     suGitlabProject = project\<rparr>\<rparr>"
  have "list_all2 (\<lambda>grp g. sgrScore g = sum_list (map stScore (sgrTasks g))
           \<and> sgrMaxScore g = sum_list (map tkScore (tgTasks grp))) (dlAssignments d) gs"
    using gs unfolding map_outcome_Ret_iff by (rule list_all2_mono) (rule scored_group_totals)
  with r show ?thesis
    by (simp add: final_mark_def mark_share_fun)
qed

section \<open>Bounds of a submission's score\<close>

definition retake_ok :: "Deadlines \<Rightarrow> bool" where
  "retake_ok d = (case scRetakePenalty (dlScoring d) of Fin p \<Rightarrow> 0 \<le> p \<and> p \<le> 1 | _ \<Rightarrow> False)"

lemma retake_floor_range:
  assumes "retake_ok d" "0 \<le> sint (tkScore task)" "sint (tkScore task) \<le> 2 ^ 53"
  shows "0 \<le> sint (retake_floor d task) \<and> sint (retake_floor d task) \<le> sint (tkScore task)"
proof -
  from assms(1) obtain p where p: "scRetakePenalty (dlScoring d) = Fin p" "0 \<le> p" "p \<le> 1"
    by (auto simp: retake_ok_def split: f64.splits)
  with score_of_factor [OF refl assms(2,3), of p] scaled_bounds [OF assms(2,3), of p] show ?thesis
    by (simp add: retake_floor_def)
qed

lemma policy_ok_maxScore: "policy_ok exp64 n policy \<Longrightarrow> 0 \<le> sint n \<and> sint n \<le> 2 ^ 53"
  by (cases policy) (auto simp: exponential_ok_def linear_ok_def)

lemma scorePipeline_success:
  assumes "plStatus p = PipelineStatusSuccess"
  shows "scorePipeline exp64 (Some policy) d user task grp p =
    (let base = if \<exists>f. scFinalDeadline (dlScoring d) = Some f \<and> f < plStartedAt p then 0
                else Score exp64 policy (tkScore task) (tgDeadline grp) (plStartedAt p)
     in if usHasRetake user \<and> sint base < sint (retake_floor d task) then retake_floor d task else base)"
  using assms by (auto simp: scorePipeline_def Let_def After_def word_sless_alt split: option.split)

text \<open>
  C6. The score of a submission under a sane policy, with a retake penalty between 0 and 1, lies between 0 and the task's score. It
  is 0 for a pipeline that did not succeed. One that started before the deadline, and not after the final deadline, gets
  the full score; one that started after the final deadline gets 0, or the floor of the retake penalty for a student with a retake.
\<close>

theorem scorePipeline_bounds:
  fixes user :: User and grp :: TaskGroup and p :: Pipeline
  assumes "policy_ok exp64 (tkScore task) policy" and "retake_ok d"
  defines "sc \<equiv> scorePipeline exp64 (Some policy) d user task grp p"
    and "late \<equiv> \<exists>f. scFinalDeadline (dlScoring d) = Some f \<and> f < plStartedAt p"
  shows "0 \<le> sint sc \<and> sint sc \<le> sint (tkScore task)
    \<and> (plStatus p \<noteq> PipelineStatusSuccess \<longrightarrow> sc = 0)
    \<and> (plStatus p = PipelineStatusSuccess \<and> \<not> late \<and> plStartedAt p < tgDeadline grp \<longrightarrow> sc = tkScore task)
    \<and> (plStatus p = PipelineStatusSuccess \<and> late \<longrightarrow> sc = (if usHasRetake user then retake_floor d task else 0))
    \<and> (plStatus p = PipelineStatusSuccess \<and> usHasRetake user \<longrightarrow> sint (retake_floor d task) \<le> sint sc)"
proof (cases "plStatus p = PipelineStatusSuccess")
  case False
  with policy_ok_maxScore [OF assms(1)] show ?thesis by (simp add: sc_def scorePipeline_def)
next
  case True
  note n = policy_ok_maxScore [OF assms(1)]
  note r = Score_range [OF assms(1), of "tgDeadline grp" "plStartedAt p"]
  note f = retake_floor_range [OF assms(2), of task]
  from scorePipeline_success [OF True] have sc: "sc = (let base = if late then 0 else Score exp64 policy (tkScore task) (tgDeadline grp) (plStartedAt p)
      in if usHasRetake user \<and> sint base < sint (retake_floor d task) then retake_floor d task else base)"
    by (simp add: sc_def late_def)
  have zero: "retake_floor d task = 0" if "sint (retake_floor d task) \<le> 0"
    using that f n by (intro signed_word_eqI) auto
  show ?thesis
  proof (cases late)
    case True
    with n f zero show ?thesis by (simp add: sc \<open>plStatus p = _\<close> Let_def)
  next
    case False
    with n r f Score_early [of "plStartedAt p" "tgDeadline grp" exp64 policy "tkScore task"] show ?thesis
      by (auto simp: sc \<open>plStatus p = _\<close> Let_def)
  qed
qed

lemma scorePipeline_bounds_witness:
  "let d = \<lparr>dlAssignments = [], dlScoring = defaultScoring\<lparr>scFinalDeadline := Some 50, scRetakePenalty := Fin (1 / 2)\<rparr>,
            dlpolicies = Map.empty, dlgroups = Map.empty\<rparr>;
       task = \<lparr>tkTask = ''a'', tkScore = 10, tkCrashme = False\<rparr>;
       grp = \<lparr>tgTitle = [], tgGroup = [], tgDeadline = 20, tgStart = 0, tgTasks = [task]\<rparr>;
       p = \<lparr>plID = 1, plProject = [], plTask = ''a'', plStatus = ''success'', plStartedAt = 60\<rparr>
   in scorePipeline (\<lambda>x. x) (Some (LinearScore 10 (Fin (1 / 2)))) d ((new_user ''A'' ''B'' ''g'')\<lparr>usHasRetake := True\<rparr>) task grp p
        = retake_floor d task
      \<and> scorePipeline (\<lambda>x. x) (Some (LinearScore 10 (Fin (1 / 2)))) d (new_user ''A'' ''B'' ''g'') task grp p = 0"
proof -
  define d where "d = \<lparr>dlAssignments = [], dlScoring = defaultScoring\<lparr>scFinalDeadline := Some 50, scRetakePenalty := Fin (1 / 2)\<rparr>,
            dlpolicies = Map.empty, dlgroups = Map.empty\<rparr>"
  define task where "task = \<lparr>tkTask = ''a'', tkScore = 10, tkCrashme = False\<rparr>"
  define p where "p = \<lparr>plID = 1, plProject = [], plTask = ''a'', plStatus = ''success'', plStartedAt = 60\<rparr>"
  have ok: "policy_ok (\<lambda>x. x) (tkScore task) (LinearScore 10 (Fin (1 / 2)))"
    by (simp add: task_def linear_ok_def max_duration_def)
  have rt: "retake_ok d" by (simp add: retake_ok_def d_def)
  have "scFinalDeadline (dlScoring d) = Some 50" "plStartedAt p = 60" "plStatus p = ''success''"
    by (simp_all add: d_def p_def)
  with scorePipeline_bounds [OF ok rt, of _ _ p] show ?thesis
    by (simp add: Let_def new_user_def flip: d_def task_def p_def)
qed

end
