(* ===== verification/ScorerBoard.thy ===== *)
theory ScorerBoard
  imports ScorerSpec
begin

text \<open>
  The scoreboard: its entries are the scores that the same students get one by one, whatever the order in
  which the database lists the rows, and its order.
\<close>

section \<open>Scores do not depend on the order of rows\<close>

text \<open>
  Two pipelines that tie in status and start may be exchanged, which shows in the links only.
\<close>

definition without_links :: "ScoredTask \<Rightarrow> ScoredTask" where
  "without_links t = t\<lparr>stPipelineUrl := [], stBranchUrl := []\<rparr>"

definition group_without_links :: "ScoredTaskGroup \<Rightarrow> ScoredTaskGroup" where
  "group_without_links g = g\<lparr>sgrTasks := map without_links (sgrTasks g)\<rparr>"

definition scores_without_links :: "UserScores \<Rightarrow> UserScores" where
  "scores_without_links r = r\<lparr>uscGroups := map group_without_links (uscGroups r)\<rparr>"

definition ties :: "Pipeline \<Rightarrow> Pipeline \<Rightarrow> bool" where
  "ties p q \<longleftrightarrow>
     classifyPipelineStatus (plStatus p) = classifyPipelineStatus (plStatus q) \<and> plStartedAt p = plStartedAt q"

lemma ties_score:
  assumes "ties p q"
  shows "scorePipeline exp64 policy d user task grp p = scorePipeline exp64 policy d user task grp q"
    and "ClassifyPipelineStatus (plStatus p) = ClassifyPipelineStatus (plStatus q)"
proof -
  have "(plStatus p = PipelineStatusSuccess) = (plStatus q = PipelineStatusSuccess)"
    using assms by (auto simp: ties_def classifyPipelineStatus_def split: if_splits)
  moreover have "plStartedAt p = plStartedAt q" using assms by (simp add: ties_def)
  ultimately show "scorePipeline exp64 policy d user task grp p = scorePipeline exp64 policy d user task grp q"
    unfolding scorePipeline_def by presburger
  show "ClassifyPipelineStatus (plStatus p) = ClassifyPipelineStatus (plStatus q)"
    using assms by (auto simp: ties_def classifyPipelineStatus_def ClassifyPipelineStatus_def split: if_splits)
qed

lemma best_pipelines_tie:
  assumes "mset ps = mset ps'"
  shows "rel_option ties (best_map plTask pipelineLess ps Map.empty t) (best_map plTask pipelineLess ps' Map.empty t)"
proof -
  have set_eq: "set ps = set ps'" using assms by (metis set_mset_mset)
  have none: "best_map plTask pipelineLess ps Map.empty t = None \<longleftrightarrow> best_map plTask pipelineLess ps' Map.empty t = None"
    by (simp add: best_map_None_iff set_eq)
  show ?thesis
  proof (cases "best_map plTask pipelineLess ps Map.empty t")
    case (Some p)
    with none obtain q where q: "best_map plTask pipelineLess ps' Map.empty t = Some q" by fastforce
    note bp = best_pipeline [OF Some] and bq = best_pipeline [OF q]
    have "\<not> pipelineLess q p" "\<not> pipelineLess p q" using bp bq set_eq by blast+
    then have "ties p q" unfolding not_pipelineLess ties_def by linarith
    with Some q show ?thesis by simp
  qed (use none in simp)
qed

lemma best_flags_tie:
  assumes "mset fs = mset fs'"
  shows "map_option flCreatedAt (best_map flTask flag_earlier fs Map.empty t)
       = map_option flCreatedAt (best_map flTask flag_earlier fs' Map.empty t)"
proof -
  have set_eq: "set fs = set fs'" using assms by (metis set_mset_mset)
  have none: "best_map flTask flag_earlier fs Map.empty t = None \<longleftrightarrow> best_map flTask flag_earlier fs' Map.empty t = None"
    by (simp add: best_map_None_iff set_eq)
  show ?thesis
  proof (cases "best_map flTask flag_earlier fs Map.empty t")
    case (Some f)
    with none obtain g where g: "best_map flTask flag_earlier fs' Map.empty t = Some g" by fastforce
    from best_flag [OF Some] best_flag [OF g] set_eq
    have "flCreatedAt f \<le> flCreatedAt g" "flCreatedAt g \<le> flCreatedAt f" by blast+
    with Some g show ?thesis by simp
  qed (use none in simp)
qed

lemma score_task_order:
  assumes ps: "mset ps = mset ps'" and fs: "mset fs = mset fs'"
    and os: "\<And>t. parseOverrides os (login, t) = parseOverrides os' (login, t)"
    and t: "score_task (env_of s d user login ps fs os) policy grp task = Ret t"
    and t': "score_task (env_of s d user login ps' fs' os') policy grp task = Ret t'"
  shows "without_links t = without_links t'"
proof -
  note defs = score_task_def score_submission_def apply_override_def env_of_def blank_task_def Let_def
    without_links_def flag_pipeline_def
  note P = best_pipelines_tie [OF ps, of "tkTask task"] and F = best_flags_tie [OF fs, of "tkTask task"]
  have o: "parseOverrides os' (login, tkTask task) = parseOverrides os (login, tkTask task)" by (simp add: os)
  show ?thesis
  proof (cases "best_map flTask flag_earlier fs Map.empty (tkTask task)")
    case (Some f)
    with F obtain g where g: "best_map flTask flag_earlier fs' Map.empty (tkTask task) = Some g"
      "flCreatedAt g = flCreatedAt f"
      by (cases "best_map flTask flag_earlier fs' Map.empty (tkTask task)") auto
    with Some t t' show ?thesis by (auto simp: defs o split: option.splits)
  next
    case nf: None
    with F have nf': "best_map flTask flag_earlier fs' Map.empty (tkTask task) = None" by simp
    show ?thesis
    proof (cases "best_map plTask pipelineLess ps Map.empty (tkTask task)")
      case None
      with P have "best_map plTask pipelineLess ps' Map.empty (tkTask task) = None" by simp
      with None nf nf' t t' show ?thesis by (auto simp: defs o split: option.splits if_splits)
    next
      case (Some p)
      with P obtain q where q: "best_map plTask pipelineLess ps' Map.empty (tkTask task) = Some q" and tie: "ties p q"
        by (auto simp: option_rel_Some1)
      from Some q nf nf' t t' ties_score [OF tie] show ?thesis
        by (auto simp: defs o split: option.splits if_splits)
    qed
  qed
qed

lemma map_outcome_all2:
  assumes "map_outcome f xs = Ret ys" "map_outcome g xs = Ret zs" "\<And>x y z. f x = Ret y \<Longrightarrow> g x = Ret z \<Longrightarrow> h y = h z"
  shows "map h ys = map h zs"
  using assms(1,2) by (induction xs arbitrary: ys zs) (auto intro: assms(3))

lemma scored_group_order:
  assumes ps: "mset ps = mset ps'" and fs: "mset fs = mset fs'"
    and os: "\<And>t. parseOverrides os (login, t) = parseOverrides os' (login, t)"
    and g: "scored_group (env_of s d user login ps fs os) grp = Ret g"
    and g': "scored_group (env_of s d user login ps' fs' os') grp = Ret g'"
  shows "group_without_links g = group_without_links g' \<and> sgrScore g = sgrScore g'"
proof -
  obtain ts ts' where ts: "map_outcome (score_task (env_of s d user login ps fs os) (GetScoringPolicy d grp) grp) (tgTasks grp) = Ret ts"
    "map_outcome (score_task (env_of s d user login ps' fs' os') (GetScoringPolicy d grp) grp) (tgTasks grp) = Ret ts'"
    and gs: "g = \<lparr>sgrTitle = tgTitle grp, sgrPrettyTitle = prettifyTitle (scrUnicode s) (tgTitle grp),
        sgrDeadline = tgDeadline grp, sgrTasks = ts, sgrScore = sum_list (map stScore ts), sgrMaxScore = sum_list (map stMaxScore ts)\<rparr>"
      "g' = \<lparr>sgrTitle = tgTitle grp, sgrPrettyTitle = prettifyTitle (scrUnicode s) (tgTitle grp),
        sgrDeadline = tgDeadline grp, sgrTasks = ts', sgrScore = sum_list (map stScore ts'), sgrMaxScore = sum_list (map stMaxScore ts')\<rparr>"
    using g g' by (auto simp: scored_group_def env_of_def)
  have m: "map without_links ts = map without_links ts'"
    using ts by (rule map_outcome_all2) (rule score_task_order [OF ps fs os])
  have "map stScore xs = map stScore (map without_links xs)" "map stMaxScore xs = map stMaxScore (map without_links xs)" for xs
    by (simp_all add: without_links_def)
  with m gs show ?thesis by (metis (no_types, lifting) ScoredTaskGroup.select_convs(4,5) ScoredTaskGroup.update_convs(4) group_without_links_def)
qed

lemma final_mark_cong:
  "map sgrScore gs = map sgrScore gs' \<Longrightarrow> final_mark d grps gs mark = final_mark d grps gs' mark"
proof (induction gs arbitrary: gs' grps mark)
  case Nil
  then show ?case by simp
next
  case (Cons g gs)
  then obtain g' gs'' where "gs' = g' # gs''" "sgrScore g = sgrScore g'" "map sgrScore gs = map sgrScore gs''" by auto
  with Cons.IH [of gs''] show ?case by (cases grps) (simp_all add: final_mark_def)
qed

lemma calcUserScoresImpl_order:
  assumes r: "calcUserScoresImpl s d user pp fp os = Ret r" and r': "calcUserScoresImpl s d user pp' fp' os' = Ret r'"
    and pp: "\<And>project ps ps'. pp project = Ret ps \<Longrightarrow> pp' project = Ret ps' \<Longrightarrow> mset ps = mset ps'"
    and fp: "\<And>login fs fs'. fp login = Ret fs \<Longrightarrow> fp' login = Ret fs' \<Longrightarrow> mset fs = mset fs'"
    and os: "\<And>login t. usGitlabLogin user = Some login \<Longrightarrow> parseOverrides os (login, t) = parseOverrides os' (login, t)"
  shows "scores_without_links r = scores_without_links r'"
  using r
proof (rule calcUserScoresImpl_Ret)
  fix login project ps fs gs
  assume l: "usGitlabLogin user = Some login" and n: "pfMakeProjectName (scrProjects s) user = Ret project"
    and p: "pp project = Ret ps" and f: "fp login = Ret fs"
    and gs: "map_outcome (scored_group (env_of s d user login ps fs os)) (dlAssignments d) = Ret gs"
    and req: "r = \<lparr>uscGroups = gs, uscScore = sum_list (map sgrScore gs), uscMaxScore = sum_list (map sgrMaxScore gs),
          uscFinalMark = final_mark d (dlAssignments d) gs (Fin 0),
          uscUser = \<lparr>suFirstName = usFirstName user, suLastName = usLastName user, suGitlabLogin = login,
                     suGitlabProject = project\<rparr>\<rparr>"
  from r' show ?thesis
  proof (rule calcUserScoresImpl_Ret)
    fix login' project' ps' fs' gs'
    assume l': "usGitlabLogin user = Some login'" and n': "pfMakeProjectName (scrProjects s) user = Ret project'"
      and p': "pp' project' = Ret ps'" and f': "fp' login' = Ret fs'"
      and gs': "map_outcome (scored_group (env_of s d user login' ps' fs' os')) (dlAssignments d) = Ret gs'"
      and req': "r' = \<lparr>uscGroups = gs', uscScore = sum_list (map sgrScore gs'), uscMaxScore = sum_list (map sgrMaxScore gs'),
            uscFinalMark = final_mark d (dlAssignments d) gs' (Fin 0),
            uscUser = \<lparr>suFirstName = usFirstName user, suLastName = usLastName user, suGitlabLogin = login',
                       suGitlabProject = project'\<rparr>\<rparr>"
    have eq: "login' = login" "project' = project" using l l' n n' by auto
    note ord = scored_group_order [OF pp [OF p p' [unfolded eq]] fp [OF f f' [unfolded eq]] os [OF l]]
    have m: "map group_without_links gs = map group_without_links gs'"
      using gs gs' [unfolded eq] by (rule map_outcome_all2) (simp add: ord)
    have sc: "map sgrScore gs = map sgrScore gs'"
      using gs gs' [unfolded eq] by (rule map_outcome_all2) (simp add: ord)
    have "map sgrMaxScore xs = map sgrMaxScore (map group_without_links xs)" for xs
      by (simp add: group_without_links_def)
    with m have mx: "map sgrMaxScore gs = map sgrMaxScore gs'" by metis
    show ?thesis
      using m sc mx final_mark_cong [OF sc] by (simp add: req req' eq scores_without_links_def)
  qed
qed

section \<open>The providers of the scoreboard\<close>

lemma group_by_filter: "group_by key xs m k = m k @ filter (\<lambda>x. key x = k) xs"
  by (induction xs arbitrary: m) auto

lemma cached_pipelines:
  assumes "lawful_driver dr" "makeCachedPipelinesProvider dr db = Ret pp" "pp project = Ret ps"
  shows "mset ps = mset (filter (\<lambda>r. plProject r = project) (dbPipelines db))"
proof -
  from assms(2) obtain all where all: "sqFind (drPipelines dr) (\<lambda>r. True) (dbPipelines db) = Inr all"
    and pp: "pp = (\<lambda>project. Ret (group_by plProject all (\<lambda>_. []) project))"
    by (auto simp: makeCachedPipelinesProvider_def ListAllPipelines_def)
  from lawful_findD [OF lawful_driverD(2) [OF assms(1)] all] have "mset all = mset (dbPipelines db)" by simp
  with pp assms(3) show ?thesis by (auto simp: group_by_filter)
qed

lemma listed_pipelines:
  assumes "lawful_driver dr" "ListProjectPipelines dr project db = Ret ps"
  shows "mset ps = mset (filter (\<lambda>r. plProject r = project) (dbPipelines db))"
  using lawful_findD [OF lawful_driverD(2) [OF assms(1)]] assms(2) by (auto simp: ListProjectPipelines_def)

lemma cached_flags:
  assumes "lawful_driver dr" "makeCachedFlagsProvider dr db = Ret fp" "fp login = Ret fs"
  shows "mset fs = mset (filter (\<lambda>r. flGitlabLogin r = Some login) (dbFlags db))"
proof -
  from assms(2) obtain all where all: "sqFind (drFlags dr) (\<lambda>r. flGitlabLogin r \<noteq> None) (dbFlags db) = Inr all"
    and fp: "fp = (\<lambda>login. Ret (group_by (\<lambda>f. the (flGitlabLogin f)) all (\<lambda>_. []) login))"
    by (auto simp: makeCachedFlagsProvider_def ListSubmittedFlags_def split: if_splits)
  have m: "mset all = filter_mset (\<lambda>r. flGitlabLogin r \<noteq> None) (mset (dbFlags db))"
    using lawful_findD [OF lawful_driverD(4) [OF assms(1)] all] by simp
  from fp assms(3) have "fs = filter (\<lambda>f. the (flGitlabLogin f) = login) all" by (auto simp: group_by_filter)
  then have "mset fs = filter_mset (\<lambda>f. the (flGitlabLogin f) = login \<and> flGitlabLogin f \<noteq> None) (mset (dbFlags db))"
    by (simp add: m filter_filter_mset conj_ac)
  also have "\<dots> = filter_mset (\<lambda>r. flGitlabLogin r = Some login) (mset (dbFlags db))"
    by (rule filter_mset_cong) auto
  finally show ?thesis by simp
qed

lemma listed_flags:
  assumes "lawful_driver dr" "ListUserFlags dr login db = Ret fs"
  shows "mset fs = mset (filter (\<lambda>r. flGitlabLogin r = Some login) (dbFlags db))"
  using lawful_findD [OF lawful_driverD(4) [OF assms(1)]] assms(2) by (auto simp: ListUserFlags_def)

text \<open>A map of overrides has for a student and a task the one visible override, if there is one.\<close>

lemma parse_listed_overrides:
  assumes ok: "db_ok db" and os: "\<And>r. r \<in> set os \<and> ovGitlabLogin r = login \<longleftrightarrow> r \<in> set (dbOverrides db) \<and> live r \<and> ovGitlabLogin r = login"
  shows "parseOverrides os (login, t) = Some r \<longleftrightarrow>
    r \<in> set (dbOverrides db) \<and> live r \<and> ovGitlabLogin r = login \<and> ovTask r = t"
proof -
  let ?P = "\<lambda>r. ovGitlabLogin r = login \<and> ovTask r = t"
  have found: "x \<in> set os \<and> ?P x" if "List.find ?P (rev os) = Some x" for x
    using that by (auto simp: find_Some_iff) (metis length_rev nth_mem set_rev)
  have none: "\<not> (x \<in> set os \<and> ?P x)" if "List.find ?P (rev os) = None" for x
    using that by (auto simp: find_None_iff)
  show ?thesis
  proof
    assume "parseOverrides os (login, t) = Some r"
    with found [of r] os [of r] show "r \<in> set (dbOverrides db) \<and> live r \<and> ?P r"
      by (auto simp: parseOverrides_find)
  next
    assume r: "r \<in> set (dbOverrides db) \<and> live r \<and> ?P r"
    with os [of r] none [of r] obtain x where x: "List.find ?P (rev os) = Some x"
      by (cases "List.find ?P (rev os)") auto
    with found [OF x] os [of x] have "x \<in> set (dbOverrides db)" "?P x" by auto
    with r unique_key_eq [OF db_okD(8) [OF ok], of x r "(login, t)"] have "x = r" by auto
    with x show "parseOverrides os (login, t) = Some r" by (simp add: parseOverrides_find)
  qed
qed

lemma option_eqI: "(\<And>r. x = Some r \<longleftrightarrow> y = Some r) \<Longrightarrow> x = y"
  by (cases x; cases y) auto

section \<open>Sorting\<close>

text \<open>The contract of \<open>sort.Slice\<close>: a permutation, and sorted when the function is a strict weak order on the elements.\<close>

definition strict_weak_on :: "('a \<Rightarrow> 'a \<Rightarrow> bool) \<Rightarrow> 'a set \<Rightarrow> bool" where
  "strict_weak_on lt S \<longleftrightarrow>
     (\<forall>x \<in> S. \<forall>y \<in> S. lt x y \<longrightarrow> \<not> lt y x)
     \<and> (\<forall>x \<in> S. \<forall>y \<in> S. \<forall>z \<in> S. \<not> lt x y \<longrightarrow> \<not> lt y z \<longrightarrow> \<not> lt x z)"

definition sort_slice_ok :: "sort_slice \<Rightarrow> bool" where
  "sort_slice_ok sort_Slice \<longleftrightarrow>
     (\<forall>lt xs. mset (sort_Slice lt xs) = mset xs
        \<and> (strict_weak_on lt (set xs) \<longrightarrow> sorted_wrt (\<lambda>x y. \<not> lt y x) (sort_Slice lt xs)))"

text \<open>The insertion sort that \<open>sort.Slice\<close> runs on short slices, on the reversed sorted prefix.\<close>

fun insert_back :: "('a \<Rightarrow> 'a \<Rightarrow> bool) \<Rightarrow> 'a \<Rightarrow> 'a list \<Rightarrow> 'a list" where
  "insert_back lt x [] = [x]"
| "insert_back lt x (y # ys) = (if lt x y then y # insert_back lt x ys else x # y # ys)"

definition insertionSort :: "('a \<Rightarrow> 'a \<Rightarrow> bool) \<Rightarrow> 'a list \<Rightarrow> 'a list" where
  "insertionSort lt xs = rev (fold (insert_back lt) xs [])"

lemma mset_insert_back [simp]: "mset (insert_back lt x ys) = add_mset x (mset ys)"
  by (induction ys) auto

lemma set_insert_back [simp]: "set (insert_back lt x ys) = insert x (set ys)"
  by (metis mset_insert_back set_mset_add_mset_insert set_mset_mset)

lemma strict_weak_onD:
  assumes "strict_weak_on lt S"
  shows "x \<in> S \<Longrightarrow> y \<in> S \<Longrightarrow> lt x y \<Longrightarrow> \<not> lt y x"
    and "x \<in> S \<Longrightarrow> y \<in> S \<Longrightarrow> z \<in> S \<Longrightarrow> \<not> lt x y \<Longrightarrow> \<not> lt y z \<Longrightarrow> \<not> lt x z"
  using assms unfolding strict_weak_on_def by blast+

lemma sorted_insert_back:
  assumes "strict_weak_on lt S" "x \<in> S" "set ys \<subseteq> S" "sorted_wrt (\<lambda>a b. \<not> lt a b) ys"
  shows "sorted_wrt (\<lambda>a b. \<not> lt a b) (insert_back lt x ys)"
  using assms(3,4)
proof (induction ys)
  case (Cons y ys)
  note D = strict_weak_onD [OF assms(1)]
  from Cons.prems have S: "y \<in> S" "set ys \<subseteq> S" and y: "\<forall>z \<in> set ys. \<not> lt y z"
    and s: "sorted_wrt (\<lambda>a b. \<not> lt a b) ys" by auto
  show ?case
  proof (cases "lt x y")
    case True
    with Cons.IH S s y D(1) [OF assms(2) S(1) True] show ?thesis by simp
  next
    case False
    have "\<not> lt x z" if "z \<in> set ys" for z
      using D(2) [OF assms(2) S(1) _ False] that S y by blast
    with False y s show ?thesis by simp
  qed
qed simp

lemma fold_insert_back:
  assumes "strict_weak_on lt S" "set xs \<subseteq> S" "set ys \<subseteq> S" "sorted_wrt (\<lambda>a b. \<not> lt a b) ys"
  shows "sorted_wrt (\<lambda>a b. \<not> lt a b) (fold (insert_back lt) xs ys)"
  using assms(2-4)
proof (induction xs arbitrary: ys)
  case (Cons x xs)
  then show ?case using sorted_insert_back [OF assms(1), of x ys] by simp
qed simp

lemma mset_fold_insert_back: "mset (fold (insert_back lt) xs ys) = mset xs + mset ys"
  by (induction xs arbitrary: ys) auto

lemma insertionSort_ok: "sort_slice_ok insertionSort"
  using fold_insert_back [of _ "set xs" xs "[]" for xs]
  by (auto simp: sort_slice_ok_def insertionSort_def mset_fold_insert_back sorted_wrt_rev)

lemma f64_total: "x \<noteq> NaN \<Longrightarrow> y \<noteq> NaN \<Longrightarrow> f64_less x y \<or> f64_eq x y \<or> f64_less y x"
  by (cases x; cases y) auto

lemma f64_eq_refl: "x \<noteq> NaN \<Longrightarrow> f64_eq x y \<longleftrightarrow> x = y"
  by (cases x; cases y) auto

lemma f64_less_trans: "f64_less x y \<Longrightarrow> f64_less y z \<Longrightarrow> f64_less x z"
  by (cases x; cases y; cases z) auto

lemma f64_less_irrefl: "\<not> f64_less x x"
  by (cases x) auto

lemma standing_less_iff:
  "uscFinalMark a \<noteq> NaN \<Longrightarrow> standing_less a b \<longleftrightarrow>
     f64_less (uscFinalMark b) (uscFinalMark a)
     \<or> (uscFinalMark a = uscFinalMark b \<and> string_less (FullName (uscUser a)) (FullName (uscUser b)))"
  using f64_less_irrefl by (auto simp: standing_less_def f64_eq_refl)

lemma standing_not_less:
  assumes "\<not> standing_less a b" "uscFinalMark a \<noteq> NaN" "uscFinalMark b \<noteq> NaN"
  shows "f64_less (uscFinalMark a) (uscFinalMark b)
      \<or> uscFinalMark a = uscFinalMark b
        \<and> (FullName (uscUser a) = FullName (uscUser b) \<or> string_less (FullName (uscUser b)) (FullName (uscUser a)))"
  using assms f64_total [of "uscFinalMark a" "uscFinalMark b"] string_less_total [of "FullName (uscUser a)" "FullName (uscUser b)"]
  by (auto simp: standing_less_iff f64_eq_refl)

lemma standing_less_swo:
  assumes "\<And>e. e \<in> S \<Longrightarrow> uscFinalMark e \<noteq> NaN" shows "strict_weak_on standing_less S"
  unfolding strict_weak_on_def
proof (intro conjI ballI impI)
  fix x y assume "x \<in> S" "y \<in> S" and l: "standing_less x y"
  with assms have n: "uscFinalMark x \<noteq> NaN" "uscFinalMark y \<noteq> NaN" by auto
  show "\<not> standing_less y x"
    using l n f64_less_irrefl string_less_irrefl
    by (auto simp: standing_less_iff dest: f64_less_trans string_less_trans)
next
  fix x y z assume "x \<in> S" "y \<in> S" "z \<in> S" and l: "\<not> standing_less x y" "\<not> standing_less y z"
  with assms have n: "uscFinalMark x \<noteq> NaN" "uscFinalMark y \<noteq> NaN" "uscFinalMark z \<noteq> NaN" by auto
  from standing_not_less [OF l(1) n(1,2)] standing_not_less [OF l(2) n(2,3)] show "\<not> standing_less x z"
    unfolding standing_less_iff [OF n(1)] using f64_less_irrefl string_less_irrefl
    by (auto dest: f64_less_trans string_less_trans)
qed

section \<open>Properties\<close>

lemma CalcScoreboard_Ret:
  assumes "CalcScoreboardWithFilter sort_Slice s dr db groupName keep = Ret st"
  obtains d users pp fp os scores where
    "GroupDeadlines (scrFetcher s) groupName = Some d"
    "sqFind (drUsers dr) (\<lambda>r. usRepository r \<noteq> None \<and> usGroupName r = groupName \<and> live r) (dbUsers db) = Inr users"
    "makeCachedPipelinesProvider dr db = Ret pp" "makeCachedFlagsProvider dr db = Ret fp" "ListOverrides dr db = Ret os"
    "map_outcome (\<lambda>user. calcUserScoresImpl s d user pp fp os) (case keep of None \<Rightarrow> users | Some f \<Rightarrow> filter f users) = Ret scores"
    "st = \<lparr>sdDeadlines = copyDeadlines d, sdUsers = sort_Slice standing_less scores\<rparr>"
proof (cases "GroupDeadlines (scrFetcher s) groupName")
  case None
  with assms show ?thesis by (simp add: CalcScoreboardWithFilter_def)
next
  case (Some d)
  from assms show ?thesis
    unfolding CalcScoreboardWithFilter_def ListGroupUsers_def Let_def Some option.case and_then_Ret_iff
      map_fail_Ret_iff of_sum_Ret outcome.inject
    by (elim exE conjE) (rule that [OF Some], assumption+, simp)
qed

lemma listed_all_overrides:
  assumes "lawful_driver dr" "ListOverrides dr db = Ret os" shows "set os = {r \<in> set (dbOverrides db). live r}"
proof -
  from assms(2) have "sqFind (drOverrides dr) live (dbOverrides db) = Inr os" by (simp add: ListOverrides_def)
  from lawful_findD [OF lawful_driverD(5) [OF assms(1)] this] have "mset os = mset (filter live (dbOverrides db))" .
  then have "set os = set (filter live (dbOverrides db))" by (rule mset_eq_setD)
  then show ?thesis by simp
qed

lemma listed_user_overrides:
  assumes "lawful_driver dr" "ListUserOverrides dr login db = Ret os"
  shows "set os = {r \<in> set (dbOverrides db). ovGitlabLogin r = login \<and> live r}"
proof -
  from assms(2) have "sqFind (drOverrides dr) (\<lambda>r. ovGitlabLogin r = login \<and> live r) (dbOverrides db) = Inr os"
    by (simp add: ListUserOverrides_def)
  from lawful_findD [OF lawful_driverD(5) [OF assms(1)] this]
  have "mset os = mset (filter (\<lambda>r. ovGitlabLogin r = login \<and> live r) (dbOverrides db))" .
  then have "set os = set (filter (\<lambda>r. ovGitlabLogin r = login \<and> live r) (dbOverrides db))" by (rule mset_eq_setD)
  then show ?thesis by simp
qed

lemma scoreboard_entry:
  assumes dr: "lawful_driver dr" and ok: "db_ok db" and dr2: "lawful_driver dr2"
    and d: "GroupDeadlines (scrFetcher s) (usGroupName u) = Some d"
    and pp: "makeCachedPipelinesProvider dr db = Ret pp" and fp: "makeCachedFlagsProvider dr db = Ret fp"
    and os: "ListOverrides dr db = Ret os" and e: "calcUserScoresImpl s d u pp fp os = Ret e"
    and r: "CalcUserScores s dr2 db u = Ret r"
  shows "scores_without_links e = scores_without_links r"
proof -
  from e obtain login where l: "usGitlabLogin u = Some login" by (rule calcUserScoresImpl_Ret)
  with r d obtain os2 where os2: "ListUserOverrides dr2 login db = Ret os2"
    and r2: "calcUserScoresImpl s d u (\<lambda>project. ListProjectPipelines dr2 project db)
      (\<lambda>login. ListUserFlags dr2 login db) os2 = Ret r"
    by (auto simp: CalcUserScores_def)
  have "parseOverrides os (login, t) = Some x \<longleftrightarrow> parseOverrides os2 (login, t) = Some x" for t x
    using parse_listed_overrides [OF ok, of os login t x] parse_listed_overrides [OF ok, of os2 login t x]
    unfolding listed_all_overrides [OF dr os] listed_user_overrides [OF dr2 os2] by blast
  then have "parseOverrides os (login, t) = parseOverrides os2 (login, t)" for t by (rule option_eqI)
  with l have po: "\<And>login t. usGitlabLogin u = Some login \<Longrightarrow> parseOverrides os (login, t) = parseOverrides os2 (login, t)"
    by simp
  show ?thesis
  proof (rule calcUserScoresImpl_order [OF e r2 _ _ po])
    fix project ps ps'
    assume "pp project = Ret ps" "ListProjectPipelines dr2 project db = Ret ps'"
    with cached_pipelines [OF dr pp] listed_pipelines [OF dr2] show "mset ps = mset ps'" by metis
  next
    fix login fs fs'
    assume "fp login = Ret fs" "ListUserFlags dr2 login db = Ret fs'"
    with cached_flags [OF dr fp] listed_flags [OF dr2] show "mset fs = mset fs'" by metis
  qed
qed

text \<open>
  C7. The scoreboard of a group has exactly one entry for each visible student of the group with a repository (who passes the filter,
  if there is one), and the entry is what \<open>CalcUserScores\<close> gives for that student, up to the links to one of several
  equally good pipelines: the cached providers and the queries for one student agree, in whatever
  order the database lists its rows.
\<close>

theorem scoreboard_agrees:
  assumes "sort_slice_ok sort_Slice" and "lawful_driver dr" and "db_ok db"
    and "CalcScoreboardWithFilter sort_Slice s dr db groupName keep = Ret st"
  shows "\<exists>us es.
    mset us = mset (filter (\<lambda>u. usRepository u \<noteq> None \<and> usGroupName u = groupName \<and> live u
                               \<and> (case keep of None \<Rightarrow> True | Some f \<Rightarrow> f u)) (dbUsers db))
    \<and> mset es = mset (sdUsers st)
    \<and> list_all2 (\<lambda>u e. \<forall>dr2 r. lawful_driver dr2 \<and> CalcUserScores s dr2 db u = Ret r \<longrightarrow>
                            scores_without_links e = scores_without_links r) us es"
  using assms(4)
proof (rule CalcScoreboard_Ret)
  fix d users pp fp os scores
  assume d: "GroupDeadlines (scrFetcher s) groupName = Some d"
    and users: "sqFind (drUsers dr) (\<lambda>r. usRepository r \<noteq> None \<and> usGroupName r = groupName \<and> live r) (dbUsers db) = Inr users"
    and prov: "makeCachedPipelinesProvider dr db = Ret pp" "makeCachedFlagsProvider dr db = Ret fp" "ListOverrides dr db = Ret os"
    and sc: "map_outcome (\<lambda>user. calcUserScoresImpl s d user pp fp os) (case keep of None \<Rightarrow> users | Some f \<Rightarrow> filter f users) = Ret scores"
    and st: "st = \<lparr>sdDeadlines = copyDeadlines d, sdUsers = sort_Slice standing_less scores\<rparr>"
  define us where "us = (case keep of None \<Rightarrow> users | Some f \<Rightarrow> filter f users)"
  note ul = lawful_findD [OF lawful_driverD(1) [OF assms(2)] users]
  then have m: "mset us = mset (filter (\<lambda>u. usRepository u \<noteq> None \<and> usGroupName u = groupName \<and> live u
      \<and> (case keep of None \<Rightarrow> True | Some f \<Rightarrow> f u)) (dbUsers db))"
    by (cases keep) (simp_all add: us_def filter_filter_mset conj_ac)
  have grp: "usGroupName u = groupName" if "u \<in> set us" for u
    using that mset_eq_setD [OF m] by auto
  have "list_all2 (\<lambda>u e. calcUserScoresImpl s d u pp fp os = Ret e) us scores"
    using sc by (simp add: us_def map_outcome_Ret_iff)
  then have "list_all2 (\<lambda>u e. \<forall>dr2 r. lawful_driver dr2 \<and> CalcUserScores s dr2 db u = Ret r \<longrightarrow>
      scores_without_links e = scores_without_links r) us scores"
  proof (rule list.rel_mono_strong)
    fix u e assume u: "u \<in> set us" and e: "calcUserScoresImpl s d u pp fp os = Ret e"
    from d grp [OF u] have "GroupDeadlines (scrFetcher s) (usGroupName u) = Some d" by simp
    from scoreboard_entry [OF assms(2,3) _ this prov e]
    show "\<forall>dr2 r. lawful_driver dr2 \<and> CalcUserScores s dr2 db u = Ret r \<longrightarrow> scores_without_links e = scores_without_links r"
      by blast
  qed
  moreover have "mset scores = mset (sdUsers st)" using assms(1) by (simp add: st sort_slice_ok_def)
  ultimately show ?thesis using m by blast
qed

text \<open>
  C8. The scoreboard is sorted by final mark, the highest first, and students with the same mark by full name, as long as no
  mark is NaN; it shows the course plan of the group.
\<close>

theorem scoreboard_sorted:
  assumes "sort_slice_ok sort_Slice" and "CalcScoreboardWithFilter sort_Slice s dr db groupName keep = Ret st"
    and "\<forall>e \<in> set (sdUsers st). uscFinalMark e \<noteq> NaN"
  shows "sorted_wrt (\<lambda>a b. f64_less (uscFinalMark b) (uscFinalMark a)
           \<or> (uscFinalMark a = uscFinalMark b \<and> \<not> string_less (FullName (uscUser b)) (FullName (uscUser a)))) (sdUsers st)
    \<and> GroupDeadlines (scrFetcher s) groupName = Some (sdDeadlines st)"
proof -
  from assms(2) obtain d scores where d: "GroupDeadlines (scrFetcher s) groupName = Some d"
    and st: "st = \<lparr>sdDeadlines = copyDeadlines d, sdUsers = sort_Slice standing_less scores\<rparr>"
    by (rule CalcScoreboard_Ret)
  have "mset (sdUsers st) = mset scores" using assms(1) by (simp add: st sort_slice_ok_def)
  then have "set scores = set (sdUsers st)" by (metis set_mset_mset)
  then have "strict_weak_on standing_less (set scores)" using assms(3) by (intro standing_less_swo) auto
  then have s: "sorted_wrt (\<lambda>x y. \<not> standing_less y x) (sdUsers st)"
    using assms(1) by (simp add: st sort_slice_ok_def)
  have "sorted_wrt (\<lambda>a b. f64_less (uscFinalMark b) (uscFinalMark a)
           \<or> (uscFinalMark a = uscFinalMark b \<and> \<not> string_less (FullName (uscUser b)) (FullName (uscUser a)))) (sdUsers st)"
    using s
  proof (rule sorted_wrt_mono_rel [rotated])
    fix a b assume "a \<in> set (sdUsers st)" "b \<in> set (sdUsers st)" "\<not> standing_less b a"
    with assms(3) f64_total [of "uscFinalMark a" "uscFinalMark b"]
    show "f64_less (uscFinalMark b) (uscFinalMark a)
           \<or> (uscFinalMark a = uscFinalMark b \<and> \<not> string_less (FullName (uscUser b)) (FullName (uscUser a)))"
      by (auto simp: standing_less_iff f64_eq_refl)
  qed
  moreover have "copyDeadlines d = d" by (simp add: copyDeadlines_def map_nth)
  ultimately show ?thesis using d st by simp
qed

section \<open>A concrete course\<close>

definition board_plan :: Deadlines where
  "board_plan =
     \<lparr>dlAssignments =
        [\<lparr>tgTitle = [], tgGroup = ''hw'', tgDeadline = 100, tgStart = 0,
          tgTasks = [\<lparr>tkTask = ''a'', tkScore = 10, tkCrashme = False\<rparr>, \<lparr>tkTask = ''b'', tkScore = 20, tkCrashme = True\<rparr>]\<rparr>],
      dlScoring =
        \<lparr>scPolicies = [], scGroups = [\<lparr>sgName = ''hw'', sgWeight = Fin 1, sgMaxScore = 30, sgPolicy = ''p''\<rparr>],
         scDefaultGroup = ''hw'', scFinalDeadline = None, scRetakePenalty = Fin 0\<rparr>,
      dlpolicies = [''p'' \<mapsto> Some (LinearScore 1000 (Fin (1 / 2)))], dlgroups = [''hw'' \<mapsto> 0]\<rparr>"

definition board_projects :: ProjectNameFactory where
  "board_projects =
     \<lparr>pfMakeProjectURL = (\<lambda>u. Ret []), pfMakeProjectName = (\<lambda>u. Ret (usFirstName u)), pfMakePipelineURL = (\<lambda>u p. Ret []),
      pfMakeBranchURL = (\<lambda>u p. Ret []), pfMakeTaskURL = (\<lambda>t. [])\<rparr>"

definition board_scorer :: Scorer where
  "board_scorer =
     \<lparr>scrExp = (\<lambda>x. x), scrUnicode = \<lparr>ucIsLetter = (\<lambda>r. True), ucIsDigit = (\<lambda>r. False), ucIsSpace = (\<lambda>r. False), ucToTitle = id, ucToLower = id\<rparr>,
      scrProjects = board_projects, scrFetcher = \<lparr>feCurrent = Some [''g'' \<mapsto> board_plan]\<rparr>\<rparr>"

definition student :: "nat \<Rightarrow> string \<Rightarrow> User" where
  "student i name =
     (new_user name name ''g'')\<lparr>mID := i, usGitlabID := Some (int i), usGitlabLogin := Some name, usRepository := Some name\<rparr>"

definition board_db :: DB where
  "board_db =
     \<lparr>dbUsers = [student 1 ''B'', student 2 ''A''],
      dbPipelines = [\<lparr>plID = 7, plProject = ''A'', plTask = ''a'', plStatus = ''failed'', plStartedAt = 5\<rparr>,
                     \<lparr>plID = 8, plProject = ''A'', plTask = ''a'', plStatus = ''success'', plStartedAt = 50\<rparr>],
      dbSessions = [], dbFlags = [],
      dbOverrides = [\<lparr>mID = 1, mDeletedAt = None, ovGitlabLogin = ''B'', ovTask = ''b'', ovScore = 3, ovStatus = ''failed''\<rparr>]\<rparr>"

lemmas board_eval =
  board_plan_def board_projects_def board_scorer_def student_def board_db_def new_user_def
  calcUserScoresImpl_def loadUserPipelines_def loadUserFlags_def prettifyTitle_def title_submatch_def capitalizeWords_def
  strings_Map_def runes_def runes_of.simps Title_def score_task_def score_submission_def apply_override_def blank_task_def
  parseOverrides_def pipelineLess_def classifyPipelineStatus_def ClassifyPipelineStatus_def scorePipeline_def
  GetScoringPolicy_def GetScoringGroup_def scoring_group_ref_def scoring_group_name_def makeShortTaskName_def path_Base_def slash_def
  GroupDeadlines_def linear_Score_def Before_def mark_share_def

lemma board_db_ok: "db_ok board_db"
  by (simp add: db_ok_def board_db_def student_def new_user_def mem_eval)

definition board_pp :: pipelinesProvider where
  "board_pp project = Ret (group_by plProject (dbPipelines board_db) (\<lambda>_. []) project)"

definition board_fp :: flagsProvider where
  "board_fp login = Ret (group_by (\<lambda>f. the (flGitlabLogin f)) [] (\<lambda>_. []) login)"

lemma board_scores_A:
  "\<exists>r. calcUserScoresImpl board_scorer board_plan (student 2 ''A'') board_pp board_fp (dbOverrides board_db) = Ret r
     \<and> uscScore r = 10 \<and> uscFinalMark r = Fin (6004799503160661 / 18014398509481984) \<and> FullName (uscUser r) = ''A A''"
  by (simp add: board_eval board_pp_def board_fp_def word_sless_alt FullName_def) (simp add: f64_eval)

lemma board_scores_B:
  "\<exists>r. calcUserScoresImpl board_scorer board_plan (student 1 ''B'') board_pp board_fp (dbOverrides board_db) = Ret r
     \<and> uscScore r = 3 \<and> uscFinalMark r = Fin (3602879701896397 / 36028797018963968) \<and> FullName (uscUser r) = ''B B''"
  by (simp add: board_eval board_pp_def board_fp_def word_sless_alt FullName_def) (simp add: f64_eval)

lemma board_providers:
  "makeCachedPipelinesProvider mem_driver board_db = Ret board_pp"
  "makeCachedFlagsProvider mem_driver board_db = Ret board_fp"
  "ListOverrides mem_driver board_db = Ret (dbOverrides board_db)"
  "ListGroupUsers mem_driver ''g'' board_db = Ret [student 1 ''B'', student 2 ''A'']"
  "GroupDeadlines (scrFetcher board_scorer) ''g'' = Some board_plan"
  by (simp_all add: makeCachedPipelinesProvider_def ListAllPipelines_def makeCachedFlagsProvider_def ListSubmittedFlags_def
      ListOverrides_def ListGroupUsers_def mem_driver_def mem_sql_def live_def board_db_def board_pp_def board_fp_def fun_eq_iff
      student_def new_user_def board_scorer_def GroupDeadlines_def)

lemma board_standings:
  "\<exists>st rA rB. CalcScoreboardWithFilter insertionSort board_scorer mem_driver board_db ''g'' None = Ret st
     \<and> sdUsers st = [rA, rB] \<and> uscScore rA = 10 \<and> uscScore rB = 3 \<and> uscFinalMark rA \<noteq> NaN \<and> uscFinalMark rB \<noteq> NaN"
proof -
  from board_scores_A obtain rA where A: "calcUserScoresImpl board_scorer board_plan (student 2 ''A'') board_pp board_fp (dbOverrides board_db) = Ret rA"
    "uscScore rA = 10" "uscFinalMark rA = Fin (6004799503160661 / 18014398509481984)" "FullName (uscUser rA) = ''A A''" by auto
  from board_scores_B obtain rB where B: "calcUserScoresImpl board_scorer board_plan (student 1 ''B'') board_pp board_fp (dbOverrides board_db) = Ret rB"
    "uscScore rB = 3" "uscFinalMark rB = Fin (3602879701896397 / 36028797018963968)" "FullName (uscUser rB) = ''B B''" by auto
  have "insertionSort standing_less [rB, rA] = [rA, rB]"
    by (simp add: insertionSort_def standing_less_def A B)
  with A B show ?thesis
    by (simp add: CalcScoreboardWithFilter_def board_providers)
qed

lemma board_CalcUserScores:
  "\<exists>r. CalcUserScores board_scorer mem_driver board_db (student 2 ''A'') = Ret r \<and> uscScore r = 10"
proof -
  have q: "ListUserOverrides mem_driver ''A'' board_db = Ret []" "ListUserFlags mem_driver ''A'' board_db = Ret []"
    "ListProjectPipelines mem_driver ''A'' board_db = board_pp ''A''"
    by (simp_all add: ListUserOverrides_def ListProjectPipelines_def ListUserFlags_def mem_driver_def mem_sql_def
        board_db_def board_pp_def)
  have u: "usGitlabLogin (student 2 ''A'') = Some ''A''" "usGroupName (student 2 ''A'') = ''g''"
    "pfMakeProjectName (scrProjects board_scorer) (student 2 ''A'') = Ret ''A''"
    by (simp_all add: student_def new_user_def board_scorer_def board_projects_def)
  have "CalcUserScores board_scorer mem_driver board_db (student 2 ''A'')
      = calcUserScoresImpl board_scorer board_plan (student 2 ''A'') board_pp (\<lambda>_. Ret []) []"
    by (simp add: CalcUserScores_def u board_providers q calcUserScoresImpl_def loadUserPipelines_def loadUserFlags_def)
  moreover have "\<exists>r. calcUserScoresImpl board_scorer board_plan (student 2 ''A'') board_pp (\<lambda>_. Ret []) [] = Ret r \<and> uscScore r = 10"
    by (simp add: board_eval board_pp_def word_sless_alt)
  ultimately show ?thesis by simp
qed

lemma scoreboard_agrees_witness:
  "\<exists>st r e. CalcScoreboardWithFilter insertionSort board_scorer mem_driver board_db ''g'' None = Ret st
     \<and> CalcUserScores board_scorer mem_driver board_db (student 2 ''A'') = Ret r \<and> uscScore r = 10
     \<and> e \<in> set (sdUsers st) \<and> scores_without_links e = scores_without_links r"
proof -
  from board_standings obtain st where
    st: "CalcScoreboardWithFilter insertionSort board_scorer mem_driver board_db ''g'' None = Ret st" by blast
  from board_CalcUserScores obtain r where
    r: "CalcUserScores board_scorer mem_driver board_db (student 2 ''A'') = Ret r" "uscScore r = 10" by blast
  from scoreboard_agrees [OF insertionSort_ok mem_driver_lawful board_db_ok st] obtain us es where
    m: "mset us = mset (filter (\<lambda>u. usRepository u \<noteq> None \<and> usGroupName u = ''g'' \<and> live u
          \<and> (case (None :: (User \<Rightarrow> bool) option) of None \<Rightarrow> True | Some f \<Rightarrow> f u)) (dbUsers board_db))"
    "mset es = mset (sdUsers st)"
    and a: "list_all2 (\<lambda>u e. \<forall>dr2 r. lawful_driver dr2 \<and> CalcUserScores board_scorer dr2 board_db u = Ret r \<longrightarrow>
                            scores_without_links e = scores_without_links r) us es"
    by blast
  have "student 2 ''A'' \<in> set us"
    using mset_eq_setD [OF m(1)] by (simp add: board_db_def student_def new_user_def live_def)
  then obtain i where i: "i < length us" "us ! i = student 2 ''A''" by (metis in_set_conv_nth)
  with list_all2_lengthD [OF a] have "es ! i \<in> set es" by simp
  moreover from list_all2_nthD [OF a i(1)] i(2) r(1) mem_driver_lawful
  have "scores_without_links (es ! i) = scores_without_links r" by auto
  ultimately obtain e where "e \<in> set es" "scores_without_links e = scores_without_links r" by blast
  with st r mset_eq_setD [OF m(2)] show ?thesis by blast
qed

lemma scoreboard_sorted_witness:
  "\<exists>st rA rB. CalcScoreboardWithFilter insertionSort board_scorer mem_driver board_db ''g'' None = Ret st
     \<and> sdUsers st = [rA, rB] \<and> uscScore rA = 10 \<and> uscScore rB = 3
     \<and> (f64_less (uscFinalMark rB) (uscFinalMark rA) \<or> uscFinalMark rA = uscFinalMark rB)
     \<and> sdDeadlines st = board_plan"
proof -
  from board_standings obtain st rA rB where
    st: "CalcScoreboardWithFilter insertionSort board_scorer mem_driver board_db ''g'' None = Ret st"
    and u: "sdUsers st = [rA, rB]" "uscScore rA = 10" "uscScore rB = 3" and n: "uscFinalMark rA \<noteq> NaN" "uscFinalMark rB \<noteq> NaN"
    by blast
  from u n have "\<forall>e \<in> set (sdUsers st). uscFinalMark e \<noteq> NaN" by simp
  from scoreboard_sorted [OF insertionSort_ok st this] st u show ?thesis
    by (auto simp: board_providers)
qed

lemma calcUserScores_tasks_witness:
  "\<exists>r g a b. calcUserScoresImpl board_scorer board_plan (student 2 ''A'') board_pp board_fp (dbOverrides board_db) = Ret r
     \<and> uscGroups r = [g] \<and> sgrTasks g = [a, b] \<and> stTask a = ''a'' \<and> stStatus a = ''success'' \<and> \<not> stOverridden a
     \<and> stTask b = ''b'' \<and> stScore b = 0 \<and> stStatus b = ''assigned''"
proof -
  from board_scores_A obtain r where
    r: "calcUserScoresImpl board_scorer board_plan (student 2 ''A'') board_pp board_fp (dbOverrides board_db) = Ret r" by blast
  have p: "board_pp ''A'' = Ret (dbPipelines board_db)" "board_fp ''A'' = Ret []"
    by (simp_all add: board_pp_def board_fp_def board_db_def)
  from calcUserScores_tasks [OF r] p
  have "list_all2 (scored_as board_scorer board_plan (student 2 ''A'') ''A'' (dbPipelines board_db) [] (dbOverrides board_db))
      (dlAssignments board_plan) (uscGroups r)"
    by (auto simp: student_def new_user_def board_scorer_def board_projects_def)
  then obtain g where g: "uscGroups r = [g]"
    and sg: "scored_as board_scorer board_plan (student 2 ''A'') ''A'' (dbPipelines board_db) [] (dbOverrides board_db)
      (hd (dlAssignments board_plan)) g"
    by (auto simp: board_plan_def list_all2_Cons1)
  from sg obtain a b where "sgrTasks g = [a, b]" "stTask a = ''a''" "stTask b = ''b''"
    "stStatus a = ''success''" "\<not> stOverridden a" "stScore b = 0" "stStatus b = ''assigned''"
    by (auto simp: scored_as_def board_plan_def list_all2_Cons1 task_spec_def board_db_def decided_by_pipeline_def
        classifyPipelineStatus_def ClassifyPipelineStatus_def)
  with r g show ?thesis by blast
qed

lemma calcUserScores_totals_witness:
  "\<exists>r. calcUserScoresImpl board_scorer board_plan (student 2 ''A'') board_pp board_fp (dbOverrides board_db) = Ret r
     \<and> uscScore r = 10 \<and> sum_list (map sgrScore (uscGroups r)) = 10 \<and> uscMaxScore r = 30"
proof -
  from board_scores_A obtain r where
    r: "calcUserScoresImpl board_scorer board_plan (student 2 ''A'') board_pp board_fp (dbOverrides board_db) = Ret r"
    and s: "uscScore r = 10" by blast
  note t = calcUserScores_totals [OF r]
  from t have "list_all2 (\<lambda>grp g. sgrMaxScore g = sum_list (map tkScore (tgTasks grp))) (dlAssignments board_plan) (uscGroups r)"
    by (auto elim: list_all2_mono)
  then have "sum_list (map sgrMaxScore (uscGroups r)) = 30"
    by (auto simp: board_plan_def list_all2_Cons1)
  with t r s show ?thesis by auto
qed

end
