(* ===== verification/Gitlab.thy ===== *)
theory Gitlab
  imports Scorer
begin

text \<open>
  Package \<open>internal/gitlab\<close>, file \<open>gitlab.go\<close>: the names and links of a student's project, and the steps that bring a
  project into its initial state on the GitLab server. The server is a parameter: its answer to a request
  may depend on all requests it has got before, so the model passes the log of the requests along. The
  transliteration of names is a parameter too.
\<close>

section \<open>Names and links\<close>

record GitLabConfig =
  glBaseURL :: string
  glGroupName :: string
  glGroupID :: int
  glDefaultReadme :: string
  glTaskUrlPrefix :: string
  glCIConfigPath :: string

record Client =
  clConfig :: GitLabConfig
  clTranslit :: "string \<Rightarrow> string"

definition cleanupName :: "Client \<Rightarrow> string \<Rightarrow> string" where
  "cleanupName c name =
     strings_Map (\<lambda>ch. if ch = 45 then None else if ch = 39 then None else Some ch) (clTranslit c name)"

definition cleanupLogin :: "string \<Rightarrow> string" where
  "cleanupLogin login = ReplaceAll login ''__'' []"

definition MakeProjectName :: "Client \<Rightarrow> User \<Rightarrow> string outcome" where
  "MakeProjectName c user =
     (case usGitlabLogin user of
        None \<Rightarrow> Panic ''nil pointer dereference''
      | Some login \<Rightarrow>
          Ret (usGroupName user @ ''-'' @ cleanupName c (usFirstName user) @ ''-'' @ cleanupName c (usLastName user)
               @ ''-'' @ cleanupLogin login))"

definition MakeProjectURL :: "Client \<Rightarrow> User \<Rightarrow> string outcome" where
  "MakeProjectURL c user =
     and_then (MakeProjectName c user) (\<lambda>name.
     Ret (glBaseURL (clConfig c) @ ''/'' @ glGroupName (clConfig c) @ ''/'' @ name))"

definition MakeProjectSubmitsURL :: "Client \<Rightarrow> User \<Rightarrow> string outcome" where
  "MakeProjectSubmitsURL c user = and_then (MakeProjectURL c user) (\<lambda>url. Ret (url @ ''/-/jobs''))"

definition MakeProjectWithNamespace :: "Client \<Rightarrow> string \<Rightarrow> string" where
  "MakeProjectWithNamespace c project = glGroupName (clConfig c) @ ''/'' @ project"

definition MakePipelineURL :: "Client \<Rightarrow> User \<Rightarrow> Pipeline \<Rightarrow> string outcome" where
  "MakePipelineURL c user p =
     and_then (MakeProjectName c user) (\<lambda>name.
     Ret (glBaseURL (clConfig c) @ ''/'' @ glGroupName (clConfig c) @ ''/'' @ name @ ''/-/pipelines/'' @ Itoa (plID p)))"

definition MakeBranchURL :: "Client \<Rightarrow> User \<Rightarrow> Pipeline \<Rightarrow> string outcome" where
  "MakeBranchURL c user p =
     and_then (MakeProjectName c user) (\<lambda>name.
     Ret (glBaseURL (clConfig c) @ ''/'' @ glGroupName (clConfig c) @ ''/'' @ name @ ''/-/tree/submits/'' @ plTask p))"

definition MakeTaskURL :: "Client \<Rightarrow> string \<Rightarrow> string" where
  "MakeTaskURL c task = glTaskUrlPrefix (clConfig c) @ ''/'' @ task"

text \<open>The client as the \<open>ProjectNameFactory\<close> that the server hands to the scorer.\<close>

definition client_names :: "Client \<Rightarrow> ProjectNameFactory" where
  "client_names c =
     \<lparr>pfMakeProjectURL = MakeProjectURL c, pfMakeProjectName = MakeProjectName c, pfMakePipelineURL = MakePipelineURL c,
      pfMakeBranchURL = MakeBranchURL c, pfMakeTaskURL = MakeTaskURL c\<rparr>"

definition branchPrefix :: string where "branchPrefix = ''submits/''"
definition tasksPrefix :: string where "tasksPrefix = ''tasks/''"

definition ParseTaskFromBranch :: "string \<Rightarrow> string" where
  "ParseTaskFromBranch task = TrimPrefix (TrimPrefix task branchPrefix) tasksPrefix"

section \<open>The GitLab server\<close>

datatype gl_request =
    GetProject string
  | CreateProject string int string
  | CreateReadme int string
  | ProtectMaster int
  | ListMembers int int
  | AddMember int int
  | GetPipeline string int
  | ListGroupProjects int int
  | ListProjectPipelines int int

text \<open>An error of the client library: the server's error response with its message, or any other.\<close>

datatype gl_error = ErrorResponse string | OtherError string

definition gl_err :: "gl_error \<Rightarrow> gerror" where
  "gl_err e = External (case e of ErrorResponse m \<Rightarrow> m | OtherError m \<Rightarrow> m)"

text \<open>
  The answer to the lookup of a project: no response at all, or a status code with an error or the project's identifier.
\<close>

datatype project_answer = NoResponse gl_error | Response int "gl_error + int"

record 'a page =
  pgItems :: "'a list"
  pgCurrent :: int
  pgTotal :: int
  pgNext :: int

record PipelineInfo =
  piID :: int
  piRef :: string
  piStatus :: string
  piCreatedAt :: "instant option"

type_synonym requests = "gl_request list"

record server =
  svGetProject :: "requests \<Rightarrow> project_answer"
  svCreateProject :: "requests \<Rightarrow> gl_error + int"
  svCreateReadme :: "requests \<Rightarrow> gl_error option"
  svProtectMaster :: "requests \<Rightarrow> gl_error option"
  svListMembers :: "requests \<Rightarrow> gl_error + int page"
  svAddMember :: "requests \<Rightarrow> gl_error option"
  svGetPipeline :: "requests \<Rightarrow> gl_error + PipelineInfo"
  svListGroupProjects :: "requests \<Rightarrow> gl_error + (int \<times> string) page"
  svListProjectPipelines :: "requests \<Rightarrow> gl_error + PipelineInfo page"

section \<open>InitializeProject\<close>

text \<open>
  Every function gets the log of the requests sent so far, the newest first, and returns the longer log; the server
  answers the request at the head of the log it is given.
\<close>

definition find_or_create :: "Client \<Rightarrow> server \<Rightarrow> string \<Rightarrow> requests \<Rightarrow> requests \<times> int outcome" where
  "find_or_create c sv name sent =
     (let sent1 = GetProject (glGroupName (clConfig c) @ ''/'' @ name) # sent
      in case svGetProject sv sent1 of
           NoResponse e \<Rightarrow> (sent1, Fail (Wrap ''Failed to get project'' (gl_err e)))
         | Response status res \<Rightarrow>
             if status = 404 then
               (let sent2 = CreateProject name (glGroupID (clConfig c)) (glCIConfigPath (clConfig c)) # sent1
                in case svCreateProject sv sent2 of
                     Inl e \<Rightarrow> (sent2, Fail (Wrap ''Failed to create project'' (gl_err e)))
                   | Inr project \<Rightarrow> (sent2, Ret project))
             else (case res of
                     Inl e \<Rightarrow> (sent1, Fail (Wrap ''Failed to find project'' (gl_err e)))
                   | Inr project \<Rightarrow> (sent1, Ret project)))"

definition readme_exists :: gl_error where
  "readme_exists = ErrorResponse ''{message: A file with this name already exists}''"
definition branch_forbidden :: gl_error where
  "branch_forbidden = ErrorResponse ''{message: 403 Forbidden - You are not allowed to push into this branch}''"
definition already_protected :: gl_error where
  "already_protected = ErrorResponse ''{message: Protected branch 'master' already exists}''"

definition create_readme :: "Client \<Rightarrow> server \<Rightarrow> int \<Rightarrow> requests \<Rightarrow> requests \<times> unit outcome" where
  "create_readme c sv project sent =
     (let sent1 = CreateReadme project (glDefaultReadme (clConfig c)) # sent
      in case svCreateReadme sv sent1 of
           None \<Rightarrow> (sent1, Ret ())
         | Some e \<Rightarrow>
             (sent1, if e = readme_exists \<or> e = branch_forbidden then Ret ()
                    else Fail (Wrap ''Failed to create README'' (gl_err e))))"

definition protect_master :: "server \<Rightarrow> int \<Rightarrow> requests \<Rightarrow> requests \<times> unit outcome" where
  "protect_master sv project sent =
     (let sent1 = ProtectMaster project # sent
      in case svProtectMaster sv sent1 of
           None \<Rightarrow> (sent1, Ret ())
         | Some e \<Rightarrow>
             (sent1, if e = already_protected then Ret ()
                    else Fail (Wrap ''Failed to protect master branch'' (gl_err e))))"

text \<open>
  The loop over the pages of members ends when the user is found, at the last page, or with an error. A server whose
  page numbers never reach the total would keep it running: then the value is \<open>None\<close>.
\<close>

partial_function (option) find_member :: "server \<Rightarrow> int \<Rightarrow> int \<Rightarrow> int \<Rightarrow> requests \<Rightarrow> (requests \<times> bool outcome) option" where
  "find_member sv project uid page sent =
     (let sent1 = ListMembers project page # sent
      in case svListMembers sv sent1 of
           Inl e \<Rightarrow> Some (sent1, Fail (Wrap ''Failed to list project members'' (gl_err e)))
         | Inr pg \<Rightarrow>
             if uid \<in> set (pgItems pg) then Some (sent1, Ret True)
             else if pgTotal pg \<le> pgCurrent pg then Some (sent1, Ret False)
             else find_member sv project uid (pgNext pg) sent1)"

definition add_member :: "server \<Rightarrow> int \<Rightarrow> int \<Rightarrow> requests \<Rightarrow> requests \<times> unit outcome" where
  "add_member sv project uid sent =
     (let sent1 = AddMember project uid # sent
      in (sent1, case svAddMember sv sent1 of
                  None \<Rightarrow> Ret ()
                | Some e \<Rightarrow> Fail (Wrap ''Failed to add user to the project'' (gl_err e))))"

text \<open>Go on after a step that succeeded, with its log.\<close>

fun after_step :: "requests \<times> 'a outcome \<Rightarrow> ('a \<Rightarrow> requests \<Rightarrow> (requests \<times> 'b outcome) option) \<Rightarrow> (requests \<times> 'b outcome) option" where
  "after_step (sent, Ret x) f = f x sent"
| "after_step (sent, Fail e) f = Some (sent, Fail e)"
| "after_step (sent, Panic m) f = Some (sent, Panic m)"

definition InitializeProject :: "Client \<Rightarrow> server \<Rightarrow> User \<Rightarrow> requests \<Rightarrow> (requests \<times> unit outcome) option" where
  "InitializeProject c sv user sent =
     (case (usGitlabID user, usGitlabLogin user) of
        (Some uid, Some login) \<Rightarrow>
          after_step (sent, MakeProjectName c user) (\<lambda>name sent.
          after_step (find_or_create c sv name sent) (\<lambda>project sent.
          after_step (create_readme c sv project sent) (\<lambda>_ sent.
          after_step (protect_master sv project sent) (\<lambda>_ sent.
          case find_member sv project uid 0 sent of
            None \<Rightarrow> None
          | Some found \<Rightarrow>
              after_step found (\<lambda>is_member sent.
              if is_member then Some (sent, Ret ()) else Some (add_member sv project uid sent))))))
      | _ \<Rightarrow> Some (sent, Fail (Errorf ''Empty gitlab user'')))"

end
