(* ===== verification/Pipelines.thy ===== *)
theory Pipelines
  imports Gitlab DatabaseHistory
begin

text \<open>
  Package \<open>internal/gitlab\<close>, file \<open>pipelines.go\<close>: the fetcher that copies the pipelines of GitLab into the database, by a
  pass over all projects and by polling the pipelines that were reported as fresh. Its functions pass the log of requests
  and the database along; a loop over pages that need not end is an option. The map of fresh
  pipelines is keyed by pointers: an entry is a pointer with what it points to.
\<close>

type_synonym world = "requests \<times> DB"

section \<open>Operations\<close>

record PipelinesFetcher =
  pfFresh :: "(nat \<times> (string \<times> int)) list"
  pfAllocated :: nat

definition NewPipelinesFetcher :: PipelinesFetcher where
  "NewPipelinesFetcher = \<lparr>pfFresh = [], pfAllocated = 0\<rparr>"

definition AddFresh :: "int \<Rightarrow> string \<Rightarrow> PipelinesFetcher \<Rightarrow> PipelinesFetcher" where
  "AddFresh i project pf =
     pf\<lparr>pfFresh := pfFresh pf @ [(pfAllocated pf, (project, i))], pfAllocated := Suc (pfAllocated pf)\<rparr>"

definition addPipeline :: "driver \<Rightarrow> string \<Rightarrow> PipelineInfo \<Rightarrow> DB \<Rightarrow> DB \<times> unit outcome" where
  "addPipeline d projectName pipeline db =
     (case piCreatedAt pipeline of
        None \<Rightarrow> (db, Panic ''nil pointer dereference'')
      | Some created \<Rightarrow>
          AddPipeline d
            \<lparr>plID = piID pipeline, plProject = projectName, plTask = ParseTaskFromBranch (piRef pipeline),
             plStatus = piStatus pipeline, plStartedAt = created\<rparr> db)"

definition fetch_pipeline :: "Client \<Rightarrow> server \<Rightarrow> driver \<Rightarrow> int \<Rightarrow> string \<Rightarrow> world \<Rightarrow> world \<times> PipelineInfo outcome" where
  "fetch_pipeline c sv d i project w =
     (let sent = GetPipeline (MakeProjectWithNamespace c project) i # fst w
      in case svGetPipeline sv sent of
           Inl e \<Rightarrow> ((sent, snd w), Fail (Wrap ''Failed to fetch pipeline'' (gl_err e)))
         | Inr info \<Rightarrow>
             (case addPipeline d project info (snd w) of
                (db, res) \<Rightarrow> ((sent, db), and_then res (\<lambda>_. Ret info))))"

text \<open>A pipeline that cannot be stored is logged and skipped.\<close>

fun add_listed :: "driver \<Rightarrow> string \<Rightarrow> PipelineInfo list \<Rightarrow> DB \<Rightarrow> DB \<times> unit outcome" where
  "add_listed d projectName [] db = (db, Ret ())"
| "add_listed d projectName (p # ps) db =
     (case addPipeline d projectName p db of
        (db', Panic m) \<Rightarrow> (db', Panic m)
      | (db', _) \<Rightarrow> add_listed d projectName ps db')"

partial_function (option) project_pipelines ::
  "server \<Rightarrow> driver \<Rightarrow> int \<times> string \<Rightarrow> int \<Rightarrow> world \<Rightarrow> (world \<times> unit outcome) option" where
  "project_pipelines sv d project page w =
     (let sent = ListProjectPipelines (fst project) page # fst w
      in case svListProjectPipelines sv sent of
           Inl e \<Rightarrow> Some ((sent, snd w), Fail (gl_err e))
         | Inr pg \<Rightarrow>
             (case add_listed d (snd project) (pgItems pg) (snd w) of
                (db, Panic m) \<Rightarrow> Some ((sent, db), Panic m)
              | (db, _) \<Rightarrow>
                  if pgTotal pg \<le> pgCurrent pg then Some ((sent, db), Ret ())
                  else project_pipelines sv d project (pgNext pg) (sent, db)))"

text \<open>Run the callback for the projects of one page, up to the first that fails.\<close>

fun each_project ::
  "(int \<times> string \<Rightarrow> world \<Rightarrow> (world \<times> unit outcome) option) \<Rightarrow> (int \<times> string) list \<Rightarrow> world \<Rightarrow> (world \<times> unit outcome) option" where
  "each_project callback [] w = Some (w, Ret ())"
| "each_project callback (project # projects) w =
     (case callback project w of
        Some (w', Ret _) \<Rightarrow> each_project callback projects w'
      | r \<Rightarrow> r)"

partial_function (option) forEachProject ::
  "Client \<Rightarrow> server \<Rightarrow> (int \<times> string \<Rightarrow> world \<Rightarrow> (world \<times> unit outcome) option) \<Rightarrow> int \<Rightarrow> world \<Rightarrow> (world \<times> unit outcome) option" where
  "forEachProject c sv callback page w =
     (let sent = ListGroupProjects (glGroupID (clConfig c)) page # fst w
      in case svListGroupProjects sv sent of
           Inl e \<Rightarrow> Some ((sent, snd w), Fail (gl_err e))
         | Inr pg \<Rightarrow>
             (case each_project callback (pgItems pg) (sent, snd w) of
                Some (w', Ret _) \<Rightarrow>
                  if pgTotal pg \<le> pgCurrent pg then Some (w', Ret ())
                  else forEachProject c sv callback (pgNext pg) w'
              | r \<Rightarrow> r))"

text \<open>The error of the pass is only logged; a panic ends the program.\<close>

definition fetchAllPipelines :: "Client \<Rightarrow> server \<Rightarrow> driver \<Rightarrow> world \<Rightarrow> (world \<times> unit outcome) option" where
  "fetchAllPipelines c sv d w =
     map_option (\<lambda>(w', res). (w', case res of Panic m \<Rightarrow> Panic m | _ \<Rightarrow> Ret ()))
       (forEachProject c sv (\<lambda>project. project_pipelines sv d project 0) 0 w)"

text \<open>
  \<open>Range\<close> visits the entries in an order of its own, which is the list \<open>visited\<close>; the pointers of the pipelines
  that are over are collected.
\<close>

fun visit_fresh ::
  "Client \<Rightarrow> server \<Rightarrow> driver \<Rightarrow> (nat \<times> (string \<times> int)) list \<Rightarrow> world \<Rightarrow> world \<times> nat list outcome" where
  "visit_fresh c sv d [] w = (w, Ret [])"
| "visit_fresh c sv d ((ptr, (project, i)) # visited) w =
     (case fetch_pipeline c sv d i project w of
        (w', Panic m) \<Rightarrow> (w', Panic m)
      | (w', Fail e) \<Rightarrow> visit_fresh c sv d visited w'
      | (w', Ret info) \<Rightarrow>
          (case visit_fresh c sv d visited w' of
             (w'', removed) \<Rightarrow>
               (w'', and_then removed (\<lambda>ptrs. Ret (if piStatus info \<noteq> PipelineStatusRunning then ptr # ptrs else ptrs)))))"

definition fetchFreshPipelines ::
  "Client \<Rightarrow> server \<Rightarrow> driver \<Rightarrow> (nat \<times> (string \<times> int)) list \<Rightarrow> PipelinesFetcher \<times> world \<Rightarrow> (PipelinesFetcher \<times> world) \<times> unit outcome" where
  "fetchFreshPipelines c sv d visited s =
     (case visit_fresh c sv d visited (snd s) of
        (w, removed) \<Rightarrow>
          (case removed of
             Ret ptrs \<Rightarrow> (((fst s)\<lparr>pfFresh := filter (\<lambda>(ptr, _). ptr \<notin> set ptrs) (pfFresh (fst s))\<rparr>, w), Ret ())
           | Fail e \<Rightarrow> ((fst s, w), Fail e)
           | Panic m \<Rightarrow> ((fst s, w), Panic m)))"

end
