(* ===== verification/GoRegexp.thy ===== *)
theory GoRegexp
  imports GoStrings
begin

text \<open>
  The regular expressions that the program matches whole strings with. A string is matched as its runes, as Go
  does; an expression is matched by derivatives, and \<open>matches_iff\<close> relates that to the language of the expression.
\<close>

datatype regexp =
    Nothing
  | Epsilon
  | Class "rune \<Rightarrow> bool"
  | Concat regexp regexp
  | Alternate regexp regexp
  | Repeat regexp

abbreviation Plus :: "regexp \<Rightarrow> regexp" where "Plus r \<equiv> Concat r (Repeat r)"

definition literal :: "string \<Rightarrow> regexp" where
  "literal s = foldr (\<lambda>c r. Concat (Class (\<lambda>x. x = byte c)) r) s Epsilon"

fun nullable :: "regexp \<Rightarrow> bool" where
  "nullable Nothing = False"
| "nullable Epsilon = True"
| "nullable (Class p) = False"
| "nullable (Concat r s) = (nullable r \<and> nullable s)"
| "nullable (Alternate r s) = (nullable r \<or> nullable s)"
| "nullable (Repeat r) = True"

fun deriv :: "rune \<Rightarrow> regexp \<Rightarrow> regexp" where
  "deriv x Nothing = Nothing"
| "deriv x Epsilon = Nothing"
| "deriv x (Class p) = (if p x then Epsilon else Nothing)"
| "deriv x (Concat r s) =
     (if nullable r then Alternate (Concat (deriv x r) s) (deriv x s) else Concat (deriv x r) s)"
| "deriv x (Alternate r s) = Alternate (deriv x r) (deriv x s)"
| "deriv x (Repeat r) = Concat (deriv x r) (Repeat r)"

definition matches_runes :: "regexp \<Rightarrow> rune list \<Rightarrow> bool" where
  "matches_runes r xs = nullable (foldl (\<lambda>r x. deriv x r) r xs)"

definition MatchString :: "regexp \<Rightarrow> string \<Rightarrow> bool" where
  "MatchString r s = matches_runes r (runes s)"

section \<open>The language of an expression\<close>

inductive in_lang :: "regexp \<Rightarrow> rune list \<Rightarrow> bool" where
  epsilon: "in_lang Epsilon []"
| class_rune: "p x \<Longrightarrow> in_lang (Class p) [x]"
| concat: "in_lang r xs \<Longrightarrow> in_lang s ys \<Longrightarrow> in_lang (Concat r s) (xs @ ys)"
| left: "in_lang r xs \<Longrightarrow> in_lang (Alternate r s) xs"
| right: "in_lang s xs \<Longrightarrow> in_lang (Alternate r s) xs"
| stop: "in_lang (Repeat r) []"
| again: "in_lang r xs \<Longrightarrow> in_lang (Repeat r) ys \<Longrightarrow> in_lang (Repeat r) (xs @ ys)"

inductive_simps in_lang_simps [simp]:
  "in_lang Nothing xs" "in_lang Epsilon xs" "in_lang (Class p) xs" "in_lang (Alternate r s) xs"

inductive_simps in_lang_Concat: "in_lang (Concat r s) xs"

lemma nullable_iff: "nullable r \<longleftrightarrow> in_lang r []"
  by (induction r) (auto simp: in_lang_Concat intro: in_lang.stop)

lemma Repeat_Cons:
  "in_lang (Repeat r) (x # xs) \<Longrightarrow> \<exists>ys zs. xs = ys @ zs \<and> in_lang r (x # ys) \<and> in_lang (Repeat r) zs"
proof (induction "Repeat r" "x # xs" rule: in_lang.induct)
  case (again ys zs)
  then show ?case by (cases ys) auto
qed

lemma deriv_iff: "in_lang (deriv x r) xs \<longleftrightarrow> in_lang r (x # xs)"
proof (induction r arbitrary: xs)
  case (Concat r s)
  have "in_lang (Concat r s) (x # xs) \<longleftrightarrow>
      (\<exists>ys zs. xs = ys @ zs \<and> in_lang r (x # ys) \<and> in_lang s zs) \<or> (in_lang r [] \<and> in_lang s (x # xs))"
    by (auto simp: in_lang_Concat Cons_eq_append_conv)
  with Concat show ?case by (auto simp: in_lang_Concat nullable_iff)
next
  case (Repeat r)
  show ?case
  proof
    assume "in_lang (deriv x (Repeat r)) xs"
    then obtain ys zs where "xs = ys @ zs" "in_lang r (x # ys)" "in_lang (Repeat r) zs"
      using Repeat by (auto simp: in_lang_Concat)
    then show "in_lang (Repeat r) (x # xs)" using in_lang.again [of r "x # ys" zs] by simp
  next
    assume "in_lang (Repeat r) (x # xs)"
    then show "in_lang (deriv x (Repeat r)) xs"
      using Repeat Repeat_Cons [of r x xs] by (auto simp: in_lang_Concat)
  qed
qed auto

lemma matches_iff: "matches_runes r xs \<longleftrightarrow> in_lang r xs"
  unfolding matches_runes_def by (induction xs arbitrary: r) (simp_all add: nullable_iff deriv_iff)

section \<open>Expressions the program uses\<close>

lemma lang_Plus_Class: "in_lang (Plus (Class p)) xs \<longleftrightarrow> xs \<noteq> [] \<and> list_all p xs"
proof -
  have rep: "in_lang (Repeat (Class p)) xs \<longleftrightarrow> list_all p xs" for xs
  proof
    show "in_lang (Repeat (Class p)) xs \<Longrightarrow> list_all p xs"
      by (induction "Repeat (Class p)" xs rule: in_lang.induct) auto
    show "list_all p xs \<Longrightarrow> in_lang (Repeat (Class p)) xs"
      by (induction xs) (use in_lang.stop in_lang.again [of "Class p" "[x]" for x] in auto)
  qed
  have one: "in_lang (Plus (Class p)) (a # list)" if "p a" "list_all p list" for a list
    using in_lang.concat [of "Class p" "[a]" "Repeat (Class p)" list] that by (simp add: rep)
  show ?thesis
  proof
    show "in_lang (Plus (Class p)) xs \<Longrightarrow> xs \<noteq> [] \<and> list_all p xs" by (auto simp: in_lang_Concat rep)
    show "xs \<noteq> [] \<and> list_all p xs \<Longrightarrow> in_lang (Plus (Class p)) xs" by (cases xs) (auto intro: one)
  qed
qed

lemma lang_literal: "in_lang (literal s) xs \<longleftrightarrow> xs = map byte s"
  by (induction s arbitrary: xs) (auto simp: literal_def in_lang_Concat)

text \<open>A sequence of segments, each of which starts with a given rune.\<close>

lemma lang_Repeat_segments:
  "in_lang (Repeat (Concat (Class (\<lambda>x. x = a)) r)) xs \<longleftrightarrow>
     (\<exists>segs. (\<forall>seg \<in> set segs. in_lang r seg) \<and> xs = concat (map ((#) a) segs))"
proof
  show "in_lang (Repeat (Concat (Class (\<lambda>x. x = a)) r)) xs \<Longrightarrow>
      \<exists>segs. (\<forall>seg \<in> set segs. in_lang r seg) \<and> xs = concat (map ((#) a) segs)"
  proof (induction "Repeat (Concat (Class (\<lambda>x. x = a)) r)" xs rule: in_lang.induct)
    case stop
    then show ?case by (intro exI [of _ "[]"]) simp
  next
    case (again xs ys)
    then obtain seg segs where "xs = a # seg" "in_lang r seg" "\<forall>seg \<in> set segs. in_lang r seg" "ys = concat (map ((#) a) segs)"
      by (auto simp: in_lang_Concat)
    then show ?case by (intro exI [of _ "seg # segs"]) simp
  qed
next
  assume "\<exists>segs. (\<forall>seg \<in> set segs. in_lang r seg) \<and> xs = concat (map ((#) a) segs)"
  then obtain segs where segs: "\<forall>seg \<in> set segs. in_lang r seg" and xs: "xs = concat (map ((#) a) segs)" by blast
  from segs have "in_lang (Repeat (Concat (Class (\<lambda>x. x = a)) r)) (concat (map ((#) a) segs))"
  proof (induction segs)
    case Nil
    then show ?case by (simp add: in_lang.stop)
  next
    case (Cons seg segs)
    have "in_lang (Concat (Class (\<lambda>x. x = a)) r) ([a] @ seg)" by (rule in_lang.concat) (use Cons.prems in auto)
    from in_lang.again [OF this Cons.IH] Cons.prems show ?case by simp
  qed
  with xs show "in_lang (Repeat (Concat (Class (\<lambda>x. x = a)) r)) xs" by simp
qed

end
