(* ===== verification/WebBase.thy ===== *)
theory WebBase
  imports Pipelines GoRegexp
begin

text \<open>
  Package \<open>internal/web\<close>: the configuration, requests, responses and state that its handlers share, the session cookie, and
  the links of a page. A handler maps the state to the new state, the cookie it sets, if any, and the response; a panic is
  a value, which the router answers with status 500. Libraries are parameters: gin's parsing of requests, the
  OAuth client and the GitLab user behind an access token, the signature of Telegram, and the sorting of the scoreboard.
\<close>

section \<open>Configuration\<close>

record EndpointsConfig =
  epHostName :: string
  epHome :: string
  epFlag :: string
  epLogin :: string
  epLogout :: string
  epSignup :: string
  epStandings :: string
  epRetakes :: string
  epOauthCallback :: string
  epTelegramLogin :: string
  epTelegramCallback :: string
  epApiReport :: string
  epApiFlag :: string
  epApiOverride :: string
  epApiChangeGroup :: string
  epApiStandings :: string
  epApiListGroupMembers :: string

text \<open>The testing tokens, the groups, and the token of the Telegram bot, when one is configured.\<close>

record Config =
  cfEndpoints :: EndpointsConfig
  cfTokens :: "string list"
  cfGroups :: "GroupConfig list"
  cfTelegram :: "string option"

section \<open>Server and state\<close>

record web_server =
  wsConfig :: Config
  wsGitlab :: Client
  wsScorer :: Scorer
  wsSort :: sort_slice
  wsLoginURL :: "string \<Rightarrow> string"
  wsExchange :: "string \<Rightarrow> gerror + string"
  wsOAuthUser :: "string \<Rightarrow> gerror + int \<times> string"
  wsTelegramHash :: "string \<Rightarrow> string \<Rightarrow> string"

text \<open>
  The state that requests change: the database, the fresh pipelines, the users that were handed to the goroutine that
  makes projects, oldest first, and the cache of standings, each with the time it expires.
\<close>

record web =
  wbDB :: DB
  wbPipelines :: PipelinesFetcher
  wbPrepared :: "User list"
  wbCache :: "string \<rightharpoonup> instant \<times> Standings"

section \<open>Requests and responses\<close>

text \<open>
  The session cookie is signed and encrypted: what the server did not write itself is read as an empty session.
\<close>

record cookie =
  ckToken :: "string option"
  ckOAuth :: "string option"

record ReportRequest =
  rrToken :: string
  rrTask :: string
  rrUserID :: string
  rrPipelineID :: string
  rrProjectName :: string
  rrFailed :: goint
  rrStatus :: string

record FlagRequest =
  frToken :: string
  frTask :: string

record OverrideRequest =
  orToken :: string
  orTask :: string
  orLogin :: string
  orScore :: goint
  orStatus :: string

record ChangeGroupRequest =
  cgToken :: string
  cgLogin :: string
  cgGroupName :: string

record UserScoresRequest =
  urLogin :: string

text \<open>
  A request: the form, the query (a map from names to lists of values), the cookie, the header \<open>token\<close>, the parameter of
  the path, and the body as gin binds it to the structs.
\<close>

record request =
  rqForm :: "(string \<times> string) list"
  rqQuery :: "(string \<times> string list) list"
  rqCookie :: cookie
  rqToken :: string
  rqGroup :: string
  rqReport :: "gerror + ReportRequest"
  rqFlag :: "gerror + FlagRequest"
  rqOverride :: "gerror + OverrideRequest"
  rqChangeGroup :: "gerror + ChangeGroupRequest"
  rqUserScores :: "gerror + UserScoresRequest"

text \<open>
  What else a handler gets while it runs: the database driver, the time, fresh random identifiers, the result of the
  attempts to save the session, and which entries the cache has evicted.
\<close>

record conn =
  cnDriver :: driver
  cnNow :: instant
  cnUUID :: string
  cnSave :: "nat \<Rightarrow> gerror option"
  cnEvicted :: "string \<Rightarrow> bool"

record Status =
  asOk :: bool
  asError :: string

datatype payload =
    NoPayload
  | FlagPayload string
  | ScoresPayload UserScores
  | MembersPayload "User list"
  | StandingsPayload Standings

record Links =
  lkDeadlines :: string
  lkStandings :: string
  lkTasksRepository :: string
  lkRepository :: string
  lkSubmits :: string
  lkLogout :: string
  lkSubmitFlag :: string

datatype page =
    SignupPage string
  | TelegramPage string
  | FlagPage string string Links
  | HomePage UserScores Links
  | StandingsPage "GroupConfig option" Standings "Links option"

datatype response =
    JSON int Status payload
  | HTML page
  | Redirect int string
  | Text int string

type_synonym handled = "web \<times> (cookie option \<times> response) outcome"

definition PostForm :: "request \<Rightarrow> string \<Rightarrow> string" where
  "PostForm rq name = (case map_of (rqForm rq) name of None \<Rightarrow> [] | Some v \<Rightarrow> v)"

definition query_get :: "(string \<times> string list) list \<Rightarrow> string \<Rightarrow> string" where
  "query_get q name = (case map_of q name of Some (v # _) \<Rightarrow> v | _ \<Rightarrow> [])"

abbreviation Query :: "request \<Rightarrow> string \<Rightarrow> string" where "Query rq \<equiv> query_get (rqQuery rq)"

fun error_text :: "gerror \<Rightarrow> string" where
  "error_text ErrRecordNotFound = ''record not found''"
| "error_text PgUniqueViolation = ''duplicate key value violates unique constraint''"
| "error_text (External m) = m"
| "error_text (Errorf m) = m"
| "error_text (Wrap m e) = m @ '': '' @ error_text e"
| "error_text (DuplicateKey e) = error_text e"

section \<open>Sessions\<close>

definition tryGetToken :: "cookie \<Rightarrow> string option" where
  "tryGetToken ck = (case ckToken ck of None \<Rightarrow> None | Some t \<Rightarrow> if t = [] then None else Some t)"

definition tryFindUserByToken :: "conn \<Rightarrow> request \<Rightarrow> web \<Rightarrow> (User \<times> Session) option outcome" where
  "tryFindUserByToken cn rq w =
     (case tryGetToken (rqCookie rq) of
        None \<Rightarrow> Ret None
      | Some token \<Rightarrow> and_then (FindUserBySession (cnDriver cn) token (wbDB w)) (\<lambda>us. Ret (Some us)))"

text \<open>The middleware: it answers the request itself, or lets the handler go on with the user and the session.\<close>

definition validateSession ::
  "web_server \<Rightarrow> bool \<Rightarrow> conn \<Rightarrow> request \<Rightarrow> web \<Rightarrow> response + User \<times> Session" where
  "validateSession srv verifyTelegram cn rq w =
     (let ep = cfEndpoints (wsConfig srv) in
      case tryFindUserByToken cn rq w of
        Ret (Some (user, session)) \<Rightarrow>
          if verifyTelegram \<and> cfTelegram (wsConfig srv) \<noteq> None \<and> usTelegramID user = None
          then Inl (Redirect 307 (epTelegramLogin ep))
          else if usGitlabID user = None \<or> usGitlabLogin user = None
          then Inl (Redirect 302 (epLogin ep))
          else Inr (user, session)
      | _ \<Rightarrow> Inl (Redirect 307 (epSignup ep)))"

text \<open>Another middleware, which no route uses: the user named in the query.\<close>

definition fillUserFromQuery :: "web_server \<Rightarrow> conn \<Rightarrow> request \<Rightarrow> web \<Rightarrow> response + User" where
  "fillUserFromQuery srv cn rq w =
     (case FindUserByGitlabLogin (cnDriver cn) (Query rq ''login'') (wbDB w) of
        Ret user \<Rightarrow> Inr user
      | _ \<Rightarrow> Inl (Redirect 307 (epSignup (cfEndpoints (wsConfig srv)))))"

text \<open>
  The cookie after \<open>Set\<close> and \<open>Save\<close>: when saving fails none is sent. A request saves a filled session at most once
  (number 0) and clears it at most once (number 1).
\<close>

definition saved :: "conn \<Rightarrow> nat \<Rightarrow> cookie \<Rightarrow> cookie option" where
  "saved cn n ck = (case cnSave cn n of None \<Rightarrow> Some ck | Some e \<Rightarrow> None)"

definition fillSessionForUser :: "conn \<Rightarrow> request \<Rightarrow> User \<Rightarrow> web \<Rightarrow> web \<times> cookie outcome" where
  "fillSessionForUser cn rq user w =
     (case CreateSession (cnDriver cn) (cnUUID cn) (mID user) (wbDB w) of
        (db, Ret session) \<Rightarrow>
          (w\<lparr>wbDB := db\<rparr>,
           case cnSave cn 0 of
             None \<Rightarrow> Ret ((rqCookie rq)\<lparr>ckToken := Some (ssToken session)\<rparr>)
           | Some e \<Rightarrow> Fail e)
      | (db, Fail e) \<Rightarrow> (w\<lparr>wbDB := db\<rparr>, Fail e)
      | (db, Panic m) \<Rightarrow> (w\<lparr>wbDB := db\<rparr>, Panic m))"

text \<open>The signup page with a message; the token of the session is cleared.\<close>

definition clearSession :: "conn \<Rightarrow> request \<Rightarrow> cookie option" where
  "clearSession cn rq = saved cn 1 ((rqCookie rq)\<lparr>ckToken := Some []\<rparr>)"

definition RedirectToSignup :: "conn \<Rightarrow> request \<Rightarrow> string \<Rightarrow> cookie option \<times> response" where
  "RedirectToSignup cn rq msg = (clearSession cn rq, HTML (SignupPage msg))"

section \<open>Links\<close>

text \<open>A nil user, or one without a login, makes the links panic.\<close>

definition makeLinks :: "web_server \<Rightarrow> User option \<Rightarrow> Links outcome" where
  "makeLinks srv user =
     (case user of
        None \<Rightarrow> Panic ''nil pointer dereference''
      | Some u \<Rightarrow>
          and_then (MakeProjectURL (wsGitlab srv) u) (\<lambda>repository.
          and_then (MakeProjectSubmitsURL (wsGitlab srv) u) (\<lambda>submits.
          let ep = cfEndpoints (wsConfig srv) in
          Ret \<lparr>lkDeadlines = epHome ep, lkStandings = epStandings ep,
               lkTasksRepository = glTaskUrlPrefix (clConfig (wsGitlab srv)),
               lkRepository = repository, lkSubmits = submits, lkLogout = epLogout ep, lkSubmitFlag = epFlag ep\<rparr>)))"

end
