(* ===== verification/WebLogin.thy ===== *)
theory WebLogin
  imports WebBase "HOL-Library.Char_ord" "HOL-Library.List_Lexorder"
begin

text \<open>
  File \<open>login.go\<close>: signing up with the secret of a group, logging in through GitLab, and linking a Telegram account.
  The library's orders on characters and lists give the bytewise order of Go strings, which \<open>slices.Sort\<close> uses.
\<close>

section \<open>Signing up\<close>

text \<open>The pattern for names. It has the Latin letters with diaeresis where the Cyrillic letters were meant.\<close>

definition name_rune :: "rune \<Rightarrow> bool" where
  "name_rune r \<longleftrightarrow> (1040 \<le> r \<and> r \<le> 1071) \<or> r = 203 \<or> (1072 \<le> r \<and> r \<le> 1103) \<or> r = 235 \<or> r = 45"

definition nameRe :: regexp where "nameRe = Plus (Class name_rune)"

definition normalizeName :: "unicode \<Rightarrow> string \<Rightarrow> string" where
  "normalizeName u name = Title u (ToLower u name)"

definition group_of_secret :: "GroupConfig list \<Rightarrow> string \<Rightarrow> string" where
  "group_of_secret groups secret = foldl (\<lambda>name g. if secret = gcSecret g then gcName g else name) [] groups"

definition signup :: "request \<Rightarrow> web \<Rightarrow> handled" where
  "signup rq w = (w, Ret (None, HTML (SignupPage [])))"

definition signupForm :: "web_server \<Rightarrow> conn \<Rightarrow> request \<Rightarrow> web \<Rightarrow> handled" where
  "signupForm srv cn rq w =
     (let firstName = PostForm rq ''firstname'';
          lastName = PostForm rq ''lastname'';
          groupName = group_of_secret (cfGroups (wsConfig srv)) (PostForm rq ''secret'')
      in if \<not> MatchString nameRe firstName
         then (w, Ret (RedirectToSignup cn rq ''Invalid first name, use only Cyrillic letters''))
         else if \<not> MatchString nameRe lastName
         then (w, Ret (RedirectToSignup cn rq ''Invalid last name, use only Cyrillic letters''))
         else if groupName = [] then (w, Ret (RedirectToSignup cn rq ''Invalid secret''))
         else case AddUser (cnDriver cn)
                     (new_user (normalizeName (scrUnicode (wsScorer srv)) firstName)
                       (normalizeName (scrUnicode (wsScorer srv)) lastName) groupName) (wbDB w) of
                (db, Fail e) \<Rightarrow>
                  (w\<lparr>wbDB := db\<rparr>, Ret (RedirectToSignup cn rq
                     (if IsDuplicateKey e then ''User is already registered'' else ''Internal error, try again later'')))
              | (db, Panic m) \<Rightarrow> (w\<lparr>wbDB := db\<rparr>, Panic m)
              | (db, Ret user) \<Rightarrow>
                  (if usGitlabID user \<noteq> None \<or> usGitlabLogin user \<noteq> None
                   then (w\<lparr>wbDB := db\<rparr>, Ret (RedirectToSignup cn rq ''User is already registered''))
                   else case fillSessionForUser cn rq user (w\<lparr>wbDB := db\<rparr>) of
                          (w', Ret ck) \<Rightarrow> (w', Ret (Some ck, Redirect 302 (epLogin (cfEndpoints (wsConfig srv)))))
                        | (w', Fail e) \<Rightarrow> (w', Ret (RedirectToSignup cn rq ''Failed to create session, try again later''))
                        | (w', Panic m) \<Rightarrow> (w', Panic m)))"

section \<open>Linking a Telegram account\<close>

definition telegramLogin :: "User \<Rightarrow> web \<Rightarrow> handled" where
  "telegramLogin user w = (w, Ret (None, HTML (TelegramPage ''Please, link your Telegram account to use notmanytask'')))"

text \<open>The string that Telegram signs: the sorted arguments of the query without the hash, one a line.\<close>

definition query_arguments :: "(string \<times> string list) list \<Rightarrow> string list" where
  "query_arguments q = concat (map (\<lambda>(k, vs). map (\<lambda>v. k @ ''='' @ v) vs) q)"

fun join_lines :: "string list \<Rightarrow> string" where
  "join_lines [] = []"
| "join_lines [s] = s"
| "join_lines (s # ss) = s @ CHR 0x0A # join_lines ss"

definition data_check_string :: "(string \<times> string list) list \<Rightarrow> string" where
  "data_check_string q = join_lines (sort (query_arguments (filter (\<lambda>(k, vs). k \<noteq> ''hash'') q)))"

definition telegramCallback :: "web_server \<Rightarrow> conn \<Rightarrow> request \<Rightarrow> User \<Rightarrow> web \<Rightarrow> handled" where
  "telegramCallback srv cn rq user w =
     (let ep = cfEndpoints (wsConfig srv);
          again = (None, Redirect 307 (epTelegramLogin ep))
      in case cfTelegram (wsConfig srv) of
           None \<Rightarrow> (w, Panic ''nil pointer dereference'')
         | Some bot_token \<Rightarrow>
             if wsTelegramHash srv bot_token (data_check_string (rqQuery rq)) \<noteq> Query rq ''hash'' then (w, Ret again)
             else (case Atoi (Query rq ''id'') of
                     Inl e \<Rightarrow> (w, Ret again)
                   | Inr tid \<Rightarrow>
                       (case SetUserTelegramID (cnDriver cn) (user\<lparr>usTelegramID := Some tid\<rparr>) (wbDB w) of
                          (db, Ret _) \<Rightarrow> (w\<lparr>wbDB := db\<rparr>, Ret (None, Redirect 307 (epHome ep)))
                        | (db, Fail e) \<Rightarrow> (w\<lparr>wbDB := db\<rparr>, Ret again)
                        | (db, Panic m) \<Rightarrow> (w\<lparr>wbDB := db\<rparr>, Panic m))))"

section \<open>Logging in through GitLab\<close>

definition login :: "web_server \<Rightarrow> conn \<Rightarrow> request \<Rightarrow> web \<Rightarrow> handled" where
  "login srv cn rq w =
     (w, Ret (saved cn 0 ((rqCookie rq)\<lparr>ckOAuth := Some (cnUUID cn)\<rparr>), Redirect 302 (wsLoginURL srv (cnUUID cn))))"

text \<open>
  The user of the session, or for a request without a token the user linked to the GitLab account. The link is
  made when the user has none; the user handed to the goroutine has lost the repository of the row.
\<close>

definition link_account :: "web_server \<Rightarrow> conn \<Rightarrow> request \<Rightarrow> int \<Rightarrow> string \<Rightarrow> User \<Rightarrow> web \<Rightarrow> handled" where
  "link_account srv cn rq gid glogin user w =
     (let account = \<lparr>guGitlabID = Some gid, guGitlabLogin = Some glogin, guRepository = None\<rparr>;
          home = epHome (cfEndpoints (wsConfig srv))
      in if usGitlabLogin user \<noteq> None \<and> usGitlabID user \<noteq> None
         then (case fillSessionForUser cn rq user w of
                 (w', Ret ck) \<Rightarrow> (w', Ret (Some ck, Redirect 302 home))
               | (w', Fail e) \<Rightarrow> (w', Ret (RedirectToSignup cn rq ''Internal server error, try again later''))
               | (w', Panic m) \<Rightarrow> (w', Panic m))
         else (case SetUserGitlabAccount (cnDriver cn) (mID user) account (wbDB w) of
                 (db, Fail e) \<Rightarrow>
                   (w\<lparr>wbDB := db\<rparr>, Ret (RedirectToSignup cn rq
                      (if IsDuplicateKey e then ''Gitlab account is already registered''
                       else ''Internal server error, try again later'')))
               | (db, Panic m) \<Rightarrow> (w\<lparr>wbDB := db\<rparr>, Panic m)
               | (db, Ret _) \<Rightarrow>
                   (w\<lparr>wbDB := db,
                      wbPrepared := wbPrepared w @ [user\<lparr>usGitlabID := Some gid, usGitlabLogin := Some glogin, usRepository := None\<rparr>]\<rparr>,
                    Ret (saved cn 0 (rqCookie rq), Redirect 307 home))))"

definition oauth :: "web_server \<Rightarrow> conn \<Rightarrow> request \<Rightarrow> web \<Rightarrow> handled" where
  "oauth srv cn rq w =
     (if ckOAuth (rqCookie rq) \<noteq> Some (Query rq ''state'')
      then (w, Ret (RedirectToSignup cn rq ''GitLab authentication failed, try again''))
      else case tryFindUserByToken cn rq w of
             Fail e \<Rightarrow> (w, Ret (RedirectToSignup cn rq ''You are not registered, try again''))
           | Panic m \<Rightarrow> (w, Panic m)
           | Ret found \<Rightarrow>
               (case wsExchange srv (Query rq ''code'') of
                  Inl e \<Rightarrow> (w, Ret (RedirectToSignup cn rq ''GitLab authentication failed, try again''))
                | Inr access \<Rightarrow>
                    (case wsOAuthUser srv access of
                       Inl e \<Rightarrow> (w, Ret (RedirectToSignup cn rq ''GitLab authentication failed, try again''))
                     | Inr (gid, glogin) \<Rightarrow>
                         (case found of
                            Some (user, session) \<Rightarrow> link_account srv cn rq gid glogin user w
                          | None \<Rightarrow>
                              (case FindUserByGitlabID (cnDriver cn) gid (wbDB w) of
                                 Ret user \<Rightarrow> link_account srv cn rq gid glogin user w
                               | Fail e \<Rightarrow> (w, Ret (RedirectToSignup cn rq ''You are not registered, please try to register first''))
                               | Panic m \<Rightarrow> (w, Panic m))))))"

definition logout :: "conn \<Rightarrow> request \<Rightarrow> web \<Rightarrow> handled" where
  "logout cn rq w = (w, Ret (RedirectToSignup cn rq []))"

end
