(* ===== verification/WebApi.thy ===== *)
theory WebApi
  imports WebBase
begin

text \<open>
  File \<open>api.go\<close>: the endpoints for the testing system and the command line client. Three of them check a token in the body, the
  others stand behind the middleware \<open>validateToken\<close>; \<open>userScores\<close> has no route.
\<close>

definition isTokenValid :: "web_server \<Rightarrow> string \<Rightarrow> bool" where
  "isTokenValid srv token = list_ex (\<lambda>t. token = t) (cfTokens (wsConfig srv))"

definition onError :: "int \<Rightarrow> gerror \<Rightarrow> cookie option \<times> response" where
  "onError code e = (None, JSON code \<lparr>asOk = False, asError = error_text e\<rparr> NoPayload)"

definition onOk :: "payload \<Rightarrow> cookie option \<times> response" where
  "onOk p = (None, JSON 200 \<lparr>asOk = True, asError = []\<rparr> p)"

definition invalid_token :: gerror where "invalid_token = Errorf ''invalid or expired token''"

definition validateToken :: "web_server \<Rightarrow> request \<Rightarrow> (web \<Rightarrow> handled) \<Rightarrow> web \<Rightarrow> handled" where
  "validateToken srv rq next_handler w =
     (if isTokenValid srv (rqToken rq) then next_handler w
      else (w, Ret (None, JSON 401 \<lparr>asOk = False, asError = ''Invalid or expired token''\<rparr> NoPayload)))"

definition report :: "web_server \<Rightarrow> request \<Rightarrow> web \<Rightarrow> handled" where
  "report srv rq w =
     (case rqReport rq of
        Inl e \<Rightarrow> (w, Ret (onError 400 (Wrap ''failed to parse request body'' e)))
      | Inr req \<Rightarrow>
          (case Atoi (rrPipelineID req) of
             Inl e \<Rightarrow> (w, Ret (onError 400 (Wrap ''failed to parse pipeline_id'' e)))
           | Inr i \<Rightarrow>
               (case Atoi (rrUserID req) of
                  Inl e \<Rightarrow> (w, Ret (onError 400 (Wrap ''failed to parse user_id'' e)))
                | Inr uid \<Rightarrow>
                    if \<not> isTokenValid srv (rrToken req) then (w, Ret (onError 401 invalid_token))
                    else (w\<lparr>wbPipelines := AddFresh i (rrProjectName req) (wbPipelines w)\<rparr>, Ret (onOk NoPayload)))))"

definition createFlag :: "web_server \<Rightarrow> conn \<Rightarrow> request \<Rightarrow> web \<Rightarrow> handled" where
  "createFlag srv cn rq w =
     (case rqFlag rq of
        Inl e \<Rightarrow> (w, Ret (onError 400 (Wrap ''failed to parse request body'' e)))
      | Inr req \<Rightarrow>
          if \<not> isTokenValid srv (frToken req) then (w, Ret (onError 401 invalid_token))
          else if \<not> AnyGroupHasTask (cfGroups (wsConfig srv)) (scrFetcher (wsScorer srv)) (frTask req)
          then (w, Ret (onError 400 (Errorf (''unknown task '' @ frTask req))))
          else (case CreateFlag (cnDriver cn) (cnUUID cn) (cnNow cn) (frTask req) (wbDB w) of
                  (db, Fail e) \<Rightarrow> (w\<lparr>wbDB := db\<rparr>, Ret (onError 500 e))
                | (db, Panic m) \<Rightarrow> (w\<lparr>wbDB := db\<rparr>, Panic m)
                | (db, Ret flag) \<Rightarrow> (w\<lparr>wbDB := db\<rparr>, Ret (onOk (FlagPayload (flID flag))))))"

definition override :: "web_server \<Rightarrow> conn \<Rightarrow> request \<Rightarrow> web \<Rightarrow> handled" where
  "override srv cn rq w =
     (case rqOverride rq of
        Inl e \<Rightarrow> (w, Ret (onError 400 (Wrap ''failed to parse request body'' e)))
      | Inr req \<Rightarrow>
          (case FindUserByGitlabLogin (cnDriver cn) (orLogin req) (wbDB w) of
             Fail e \<Rightarrow> (w, Ret (onError 404 (Errorf ''not found user'')))
           | Panic m \<Rightarrow> (w, Panic m)
           | Ret user \<Rightarrow>
               if \<not> AnyGroupHasTask (cfGroups (wsConfig srv)) (scrFetcher (wsScorer srv)) (orTask req)
               then (w, Ret (onError 400 (Errorf (''unknown task '' @ orTask req))))
               else (case AddOverride (cnDriver cn) (orLogin req) (orTask req) (orScore req) (orStatus req) (wbDB w) of
                       (db, Fail e) \<Rightarrow> (w\<lparr>wbDB := db\<rparr>, Ret (onError 500 e))
                     | (db, Panic m) \<Rightarrow> (w\<lparr>wbDB := db\<rparr>, Panic m)
                     | (db, Ret _) \<Rightarrow> (w\<lparr>wbDB := db\<rparr>, Ret (onOk NoPayload)))))"

definition changeGroup :: "web_server \<Rightarrow> conn \<Rightarrow> request \<Rightarrow> web \<Rightarrow> handled" where
  "changeGroup srv cn rq w =
     (case rqChangeGroup rq of
        Inl e \<Rightarrow> (w, Ret (onError 400 (Wrap ''failed to parse request body'' e)))
      | Inr req \<Rightarrow>
          if \<not> isTokenValid srv (cgToken req) then (w, Ret (onError 401 invalid_token))
          else
            (case FindUserByGitlabLogin (cnDriver cn) (cgLogin req) (wbDB w) of
               Fail e \<Rightarrow> (w, Ret (onError 404 (Errorf ''not found user'')))
             | Panic m \<Rightarrow> (w, Panic m)
             | Ret user \<Rightarrow>
                 if \<not> list_ex (\<lambda>g. gcName g = cgGroupName req) (cfGroups (wsConfig srv))
                 then (w, Ret (onError 404 (Errorf ''not found group'')))
                 else (case SetUserGroupName (cnDriver cn) (user\<lparr>usGroupName := cgGroupName req\<rparr>) (wbDB w) of
                         (db, Fail e) \<Rightarrow> (w\<lparr>wbDB := db\<rparr>, Ret (onError 500 e))
                       | (db, Panic m) \<Rightarrow> (w\<lparr>wbDB := db\<rparr>, Panic m)
                       | (db, Ret _) \<Rightarrow> (w\<lparr>wbDB := db\<rparr>, Ret (onOk NoPayload)))))"

definition userScores :: "web_server \<Rightarrow> conn \<Rightarrow> request \<Rightarrow> web \<Rightarrow> handled" where
  "userScores srv cn rq w =
     (w, case rqUserScores rq of
           Inl e \<Rightarrow> Ret (onError 400 (Wrap ''failed to parse request'' e))
         | Inr req \<Rightarrow>
             (case FindUserByGitlabLogin (cnDriver cn) (urLogin req) (wbDB w) of
                Fail e \<Rightarrow> Ret (onError 404 (Errorf ''not found user''))
              | Panic m \<Rightarrow> Panic m
              | Ret user \<Rightarrow>
                  (case CalcUserScores (wsScorer srv) (cnDriver cn) (wbDB w) user of
                     Fail e \<Rightarrow> Ret (onError 500 (Errorf ''failed to calc scores''))
                   | Panic m \<Rightarrow> Panic m
                   | Ret scores \<Rightarrow> Ret (onOk (ScoresPayload scores)))))"

definition listGroupMembers :: "conn \<Rightarrow> request \<Rightarrow> web \<Rightarrow> handled" where
  "listGroupMembers cn rq w =
     (w, case ListGroupUsers (cnDriver cn) (rqGroup rq) (wbDB w) of
           Fail e \<Rightarrow> Ret (onError 404 e)
         | Panic m \<Rightarrow> Panic m
         | Ret users \<Rightarrow> Ret (onOk (MembersPayload users)))"

text \<open>Without a group in the query it is the default one; there is none when no group is configured.\<close>

definition standings :: "web_server \<Rightarrow> conn \<Rightarrow> request \<Rightarrow> web \<Rightarrow> handled" where
  "standings srv cn rq w =
     (w, and_then
           (if Query rq ''group'' \<noteq> [] then Ret (Query rq ''group'')
            else case FindDefaultGroup (cfGroups (wsConfig srv)) of
                   None \<Rightarrow> Panic ''nil pointer dereference''
                 | Some g \<Rightarrow> Ret (gcName g))
           (\<lambda>grp.
            case CalcScoreboard (wsSort srv) (wsScorer srv) (cnDriver cn) (wbDB w) grp of
              Fail e \<Rightarrow> Ret (onError 500 (Wrap ''failed to list scores'' e))
            | Panic m \<Rightarrow> Panic m
            | Ret st \<Rightarrow> Ret (onOk (StandingsPayload st))))"

end
