(* ===== verification/WebRender.thy ===== *)
theory WebRender
  imports WebBase
begin

text \<open>
  File \<open>render.go\<close>: the pages of the course, the submission of flags, and the cache of standings. The
  templates are left to the library; a page is the data that they get.
\<close>

section \<open>Flags\<close>

definition flag_rune :: "rune \<Rightarrow> bool" where
  "flag_rune r \<longleftrightarrow> (97 \<le> r \<and> r \<le> 122) \<or> (48 \<le> r \<and> r \<le> 57) \<or> r = 95 \<or> r = 47"

definition hex_rune :: "rune \<Rightarrow> bool" where
  "hex_rune r \<longleftrightarrow> (48 \<le> r \<and> r \<le> 57) \<or> (97 \<le> r \<and> r \<le> 102)"

definition flagRe :: regexp where
  "flagRe =
     Concat (literal ''{FLAG'')
       (Concat (Plus (Concat (literal ''-'') (Plus (Class flag_rune))))
         (Concat (Plus (Concat (literal ''-'') (Plus (Class hex_rune)))) (literal ''}'')))"

definition RenderSubmitFlagPageDetails :: "web_server \<Rightarrow> User \<Rightarrow> string \<Rightarrow> string \<Rightarrow> (cookie option \<times> response) outcome" where
  "RenderSubmitFlagPageDetails srv user e success =
     and_then (makeLinks srv (Some user)) (\<lambda>links. Ret (None, HTML (FlagPage e success links)))"

definition RenderSubmitFlagPage :: "web_server \<Rightarrow> User \<Rightarrow> web \<Rightarrow> handled" where
  "RenderSubmitFlagPage srv user w = (w, RenderSubmitFlagPageDetails srv user [] [])"

definition handleFlagSubmit :: "web_server \<Rightarrow> conn \<Rightarrow> request \<Rightarrow> User \<Rightarrow> web \<Rightarrow> handled" where
  "handleFlagSubmit srv cn rq user w =
     (case usGitlabLogin user of
        None \<Rightarrow> (w, Ret (None, Redirect 302 (epSignup (cfEndpoints (wsConfig srv)))))
      | Some gitlab_login \<Rightarrow>
          if \<not> MatchString flagRe (PostForm rq ''flag'')
          then (w, RenderSubmitFlagPageDetails srv user ''Invalid flag'' [])
          else (case SubmitFlag (cnDriver cn) (PostForm rq ''flag'') gitlab_login (wbDB w) of
                  (db, Ret _) \<Rightarrow> (w\<lparr>wbDB := db\<rparr>, RenderSubmitFlagPageDetails srv user [] ''The matrix has you...'')
                | (db, Fail e) \<Rightarrow> (w\<lparr>wbDB := db\<rparr>, RenderSubmitFlagPageDetails srv user ''Unknown flag'' [])
                | (db, Panic m) \<Rightarrow> (w\<lparr>wbDB := db\<rparr>, Panic m)))"

definition handleChuckNorris :: "web \<Rightarrow> handled" where
  "handleChuckNorris w = (w, Ret (None, Redirect 307 ''https://youtu.be/dQw4w9WgXcQ''))"

section \<open>Scores\<close>

text \<open>The loop of \<open>ReverseSlice\<close>: swap the ends and go inwards.\<close>

function reverse_loop :: "nat \<Rightarrow> nat \<Rightarrow> 'a list \<Rightarrow> 'a list" where
  "reverse_loop i j xs = (if i < j then reverse_loop (i + 1) (j - 1) (xs[i := xs ! j, j := xs ! i]) else xs)"
  by pat_completeness auto
termination
  by (relation "measure (\<lambda>(i, j, xs). j - i)") auto

declare reverse_loop.simps [simp del]

definition ReverseSlice :: "'a list \<Rightarrow> 'a list" where
  "ReverseSlice xs = reverse_loop 0 (length xs - 1) xs"

definition reverseScores :: "UserScores \<Rightarrow> UserScores" where
  "reverseScores scores = scores\<lparr>uscGroups := ReverseSlice (uscGroups scores)\<rparr>"

definition reverseScoreboardGroups :: "Standings \<Rightarrow> Standings" where
  "reverseScoreboardGroups st =
     \<lparr>sdDeadlines = (sdDeadlines st)\<lparr>dlAssignments := ReverseSlice (dlAssignments (sdDeadlines st))\<rparr>,
      sdUsers = map reverseScores (sdUsers st)\<rparr>"

text \<open>When the scores cannot be computed they are nil, and reversing them panics before the page can show the error.\<close>

fun or_nil :: "'a outcome \<Rightarrow> 'a outcome" where
  "or_nil (Fail e) = Panic ''nil pointer dereference''"
| "or_nil r = r"

definition RenderHomePage :: "web_server \<Rightarrow> conn \<Rightarrow> User \<Rightarrow> web \<Rightarrow> handled" where
  "RenderHomePage srv cn user w =
     (w, and_then (or_nil (CalcUserScores (wsScorer srv) (cnDriver cn) (wbDB w) user)) (\<lambda>scores.
         and_then (makeLinks srv (Some user)) (\<lambda>links.
         Ret (None, HTML (HomePage (reverseScores scores) links)))))"

text \<open>Two pages that no route leads to: the scores and the standings as another user sees them.\<close>

definition RenderCheaterPage :: "web_server \<Rightarrow> conn \<Rightarrow> request \<Rightarrow> web \<Rightarrow> handled" where
  "RenderCheaterPage srv cn rq w =
     (w, and_then (or_nil (FindUserByGitlabLogin (cnDriver cn) (Query rq ''login'') (wbDB w))) (\<lambda>user.
         and_then (or_nil (CalcUserScores (wsScorer srv) (cnDriver cn) (wbDB w) user)) (\<lambda>scores.
         and_then (makeLinks srv (Some user)) (\<lambda>links.
         Ret (None, HTML (HomePage (reverseScores scores) links))))))"

definition RenderStandingsCheaterPage :: "web_server \<Rightarrow> conn \<Rightarrow> request \<Rightarrow> web \<Rightarrow> handled" where
  "RenderStandingsCheaterPage srv cn rq w =
     (w, let user = (case FindUserByGitlabLogin (cnDriver cn) (Query rq ''login'') (wbDB w) of
                       Ret u \<Rightarrow> Some u | _ \<Rightarrow> None) in
         and_then (or_nil (CalcScoreboard (wsSort srv) (wsScorer srv) (cnDriver cn) (wbDB w) ''hse'')) (\<lambda>scores.
         and_then (makeLinks srv user) (\<lambda>links.
         Ret (None, HTML (StandingsPage (FindGroup (cfGroups (wsConfig srv)) ''hse'') (reverseScoreboardGroups scores) (Some links))))))"

section \<open>Standings\<close>

definition standings_group :: "web_server \<Rightarrow> request \<Rightarrow> string" where
  "standings_group srv rq =
     (if Query rq ''group'' \<noteq> [] then Query rq ''group''
      else case FindDefaultGroup (cfGroups (wsConfig srv)) of None \<Rightarrow> [] | Some g \<Rightarrow> gcName g)"

definition cache_key :: "string \<Rightarrow> string \<Rightarrow> string" where
  "cache_key grp name = ''scores/'' @ grp @ ''/'' @ name"

definition cache_ttl :: duration where "cache_ttl = 10 * 1000000000"

text \<open>
  The cache answers with an entry that it still has and that has not expired; otherwise the scoreboard is computed, reversed
  and stored.
\<close>

definition fetch_standings ::
  "web_server \<Rightarrow> conn \<Rightarrow> string \<Rightarrow> string \<Rightarrow> (User \<Rightarrow> bool) option \<Rightarrow> web \<Rightarrow> web \<times> Standings outcome" where
  "fetch_standings srv cn grp name keep w =
     (let key = cache_key grp name;
          computed = (case or_nil (CalcScoreboardWithFilter (wsSort srv) (wsScorer srv) (cnDriver cn) (wbDB w) grp keep) of
              Ret st \<Rightarrow>
                (let st' = reverseScoreboardGroups st
                 in (w\<lparr>wbCache := (wbCache w)(key \<mapsto> (cnNow cn + cache_ttl, st'))\<rparr>, Ret st'))
            | Fail e \<Rightarrow> (w, Fail e)
            | Panic m \<Rightarrow> (w, Panic m))
      in case wbCache w key of
           None \<Rightarrow> computed
         | Some (expires, st) \<Rightarrow> if cnNow cn \<le> expires \<and> \<not> cnEvicted cn key then (w, Ret st) else computed)"

definition doRenderStandingsPage ::
  "web_server \<Rightarrow> conn \<Rightarrow> request \<Rightarrow> string \<Rightarrow> (User \<Rightarrow> bool) option \<Rightarrow> web \<Rightarrow> handled" where
  "doRenderStandingsPage srv cn rq name keep w =
     (let grp = standings_group srv rq;
          links = (case tryFindUserByToken cn rq w of
                     Ret (Some (user, session)) \<Rightarrow> and_then (makeLinks srv (Some user)) (\<lambda>l. Ret (Some l))
                   | _ \<Rightarrow> Ret None)
      in case links of
           Ret ls \<Rightarrow>
             (case fetch_standings srv cn grp name keep w of
                (w', res) \<Rightarrow>
                  (w', and_then res (\<lambda>st. Ret (None, HTML (StandingsPage (FindGroup (cfGroups (wsConfig srv)) grp) st ls)))))
         | Fail e \<Rightarrow> (w, Fail e)
         | Panic m \<Rightarrow> (w, Panic m))"

definition RenderStandingsPage :: "web_server \<Rightarrow> conn \<Rightarrow> request \<Rightarrow> web \<Rightarrow> handled" where
  "RenderStandingsPage srv cn rq w = doRenderStandingsPage srv cn rq ''standings'' None w"

definition RenderRetakesPage :: "web_server \<Rightarrow> conn \<Rightarrow> request \<Rightarrow> web \<Rightarrow> handled" where
  "RenderRetakesPage srv cn rq w = doRenderStandingsPage srv cn rq ''retakes'' (Some usHasRetake) w"

end
