(* ===== verification/WebServer.thy ===== *)
theory WebServer
  imports WebLogin WebApi WebRender
begin

text \<open>
  File \<open>server.go\<close> and the route tables of \<open>login.go\<close> and \<open>api.go\<close>: which handler answers which request, behind which
  middleware. A route is the method and the pattern that gin has matched; the static files are left out.
\<close>

datatype http_method = GET | POST

type_synonym handler = "conn \<Rightarrow> request \<Rightarrow> web \<Rightarrow> handled"

definition newServer :: "DB \<Rightarrow> web" where
  "newServer db = \<lparr>wbDB = db, wbPipelines = NewPipelinesFetcher, wbPrepared = [], wbCache = Map.empty\<rparr>"

text \<open>Run the handler behind \<open>validateSession\<close>.\<close>

definition with_session :: "web_server \<Rightarrow> bool \<Rightarrow> (conn \<Rightarrow> request \<Rightarrow> User \<Rightarrow> web \<Rightarrow> handled) \<Rightarrow> handler" where
  "with_session srv verifyTelegram h cn rq w =
     (case validateSession srv verifyTelegram cn rq w of
        Inl resp \<Rightarrow> (w, Ret (None, resp))
      | Inr (user, session) \<Rightarrow> h cn rq user w)"

definition ping :: handler where
  "ping cn rq w = (w, Ret (None, Text 200 (''pong '' @ Itoa (cnNow cn div 1000000000))))"

definition setupLoginService :: "web_server \<Rightarrow> ((http_method \<times> string) \<times> handler) list" where
  "setupLoginService srv =
     (let ep = cfEndpoints (wsConfig srv) in
      [((GET, epLogin ep), login srv),
       ((GET, epLogout ep), logout),
       ((GET, epSignup ep), \<lambda>cn. signup),
       ((POST, epSignup ep), signupForm srv),
       ((GET, epTelegramLogin ep), with_session srv False (\<lambda>cn rq. telegramLogin)),
       ((GET, epTelegramCallback ep), with_session srv False (telegramCallback srv)),
       ((GET, epOauthCallback ep), oauth srv)])"

definition setupApiService :: "web_server \<Rightarrow> ((http_method \<times> string) \<times> handler) list" where
  "setupApiService srv =
     (let ep = cfEndpoints (wsConfig srv) in
      [((POST, epApiReport ep), \<lambda>cn. report srv),
       ((POST, epApiFlag ep), createFlag srv),
       ((POST, epApiOverride ep), \<lambda>cn rq. validateToken srv rq (override srv cn rq)),
       ((POST, epApiChangeGroup ep), changeGroup srv),
       ((GET, epApiStandings ep), \<lambda>cn rq. validateToken srv rq (standings srv cn rq)),
       ((GET, epApiListGroupMembers ep), \<lambda>cn rq. validateToken srv rq (listGroupMembers cn rq))])"

definition routes :: "web_server \<Rightarrow> ((http_method \<times> string) \<times> handler) list" where
  "routes srv =
     (let ep = cfEndpoints (wsConfig srv) in
      setupLoginService srv @ setupApiService srv @
      [((GET, ''/ping''), ping),
       ((GET, epHome ep), with_session srv True (\<lambda>cn rq. RenderHomePage srv cn)),
       ((GET, epFlag ep), with_session srv True (\<lambda>cn rq. RenderSubmitFlagPage srv)),
       ((GET, epRetakes ep), with_session srv True (\<lambda>cn rq user. RenderRetakesPage srv cn rq)),
       ((POST, epFlag ep), with_session srv True (handleFlagSubmit srv)),
       ((GET, epStandings ep), RenderStandingsPage srv),
       ((GET, ''/private/solutions/:group/:task''), \<lambda>cn rq. handleChuckNorris)])"

text \<open>The recovery middleware turns a panic into status 500; what the handler has changed before stays changed.\<close>

definition serve ::
  "web_server \<Rightarrow> http_method \<times> string \<Rightarrow> conn \<Rightarrow> request \<Rightarrow> web \<Rightarrow> web \<times> cookie option \<times> response" where
  "serve srv r cn rq w =
     (case map_of (routes srv) r of
        None \<Rightarrow> (w, None, Text 404 ''404 page not found'')
      | Some h \<Rightarrow>
          (case h cn rq w of
             (w', Ret (ck, resp)) \<Rightarrow> (w', ck, resp)
           | (w', _) \<Rightarrow> (w', None, Text 500 [])))"

end
