(* ===== verification/WebAccess.thy ===== *)
theory WebAccess
  imports WebServer
begin

text \<open>
  Access control: the step relation \<open>web_action\<close> lists the changes that a request may make to the state, each with the
  authority that it takes (a testing token, the secret of a group, a session, a GitLab login, a signature of
  Telegram), and every served request is such a step. The other theories about the server reason by cases on it.
\<close>

section \<open>The changes a request may make\<close>

text \<open>The request has passed \<open>validateSession\<close> and acts for this user.\<close>

definition session_user :: "web_server \<Rightarrow> conn \<Rightarrow> request \<Rightarrow> web \<Rightarrow> User \<Rightarrow> bool" where
  "session_user srv cn rq w user \<longleftrightarrow>
     (\<exists>session. tryFindUserByToken cn rq w = Ret (Some (user, session))) \<and> usGitlabID user \<noteq> None \<and> usGitlabLogin user \<noteq> None"

text \<open>The request comes back from GitLab, in the browser that was sent there, as this GitLab user.\<close>

definition gitlab_user :: "web_server \<Rightarrow> request \<Rightarrow> int \<Rightarrow> string \<Rightarrow> bool" where
  "gitlab_user srv rq gid glogin \<longleftrightarrow>
     ckOAuth (rqCookie rq) = Some (Query rq ''state'')
     \<and> (\<exists>access. wsExchange srv (Query rq ''code'') = Inr access \<and> wsOAuthUser srv access = Inr (gid, glogin))"

text \<open>The user such a request acts for: that of its session, or without a token the one linked to the GitLab user.\<close>

definition oauth_user :: "conn \<Rightarrow> request \<Rightarrow> web \<Rightarrow> int \<Rightarrow> User \<Rightarrow> bool" where
  "oauth_user cn rq w gid user \<longleftrightarrow>
     (\<exists>session. tryFindUserByToken cn rq w = Ret (Some (user, session)))
     \<or> (tryFindUserByToken cn rq w = Ret None \<and> FindUserByGitlabID (cnDriver cn) gid (wbDB w) = Ret user)"

definition registrant :: "web_server \<Rightarrow> request \<Rightarrow> User" where
  "registrant srv rq =
     new_user (normalizeName (scrUnicode (wsScorer srv)) (PostForm rq ''firstname''))
       (normalizeName (scrUnicode (wsScorer srv)) (PostForm rq ''lastname''))
       (group_of_secret (cfGroups (wsConfig srv)) (PostForm rq ''secret''))"

definition may_register :: "web_server \<Rightarrow> request \<Rightarrow> bool" where
  "may_register srv rq \<longleftrightarrow>
     MatchString nameRe (PostForm rq ''firstname'') \<and> MatchString nameRe (PostForm rq ''lastname'')
     \<and> group_of_secret (cfGroups (wsConfig srv)) (PostForm rq ''secret'') \<noteq> []"

definition knows_task :: "web_server \<Rightarrow> string \<Rightarrow> bool" where
  "knows_task srv = AnyGroupHasTask (cfGroups (wsConfig srv)) (scrFetcher (wsScorer srv))"

inductive web_action :: "web_server \<Rightarrow> conn \<Rightarrow> request \<Rightarrow> web \<Rightarrow> web \<Rightarrow> bool" for srv cn rq where
  nothing: "web_action srv cn rq w w"
| cached: "web_action srv cn rq w (w\<lparr>wbCache := cache\<rparr>)"
| reported:
    "rqReport rq = Inr req \<Longrightarrow> isTokenValid srv (rrToken req) \<Longrightarrow> Atoi (rrPipelineID req) = Inr i \<Longrightarrow>
     web_action srv cn rq w (w\<lparr>wbPipelines := AddFresh i (rrProjectName req) (wbPipelines w)\<rparr>)"
| flag_created:
    "rqFlag rq = Inr req \<Longrightarrow> isTokenValid srv (frToken req) \<Longrightarrow> knows_task srv (frTask req) \<Longrightarrow>
     web_action srv cn rq w (w\<lparr>wbDB := fst (CreateFlag (cnDriver cn) (cnUUID cn) (cnNow cn) (frTask req) (wbDB w))\<rparr>)"
| overridden:
    "rqOverride rq = Inr req \<Longrightarrow> isTokenValid srv (rqToken rq) \<Longrightarrow> knows_task srv (orTask req) \<Longrightarrow>
     FindUserByGitlabLogin (cnDriver cn) (orLogin req) (wbDB w) = Ret user \<Longrightarrow>
     web_action srv cn rq w (w\<lparr>wbDB := fst (AddOverride (cnDriver cn) (orLogin req) (orTask req) (orScore req) (orStatus req) (wbDB w))\<rparr>)"
| group_changed:
    "rqChangeGroup rq = Inr req \<Longrightarrow> isTokenValid srv (cgToken req) \<Longrightarrow>
     FindUserByGitlabLogin (cnDriver cn) (cgLogin req) (wbDB w) = Ret user \<Longrightarrow>
     cgGroupName req \<in> gcName ` set (cfGroups (wsConfig srv)) \<Longrightarrow>
     web_action srv cn rq w (w\<lparr>wbDB := fst (SetUserGroupName (cnDriver cn) (user\<lparr>usGroupName := cgGroupName req\<rparr>) (wbDB w))\<rparr>)"
| registered:
    "may_register srv rq \<Longrightarrow>
     web_action srv cn rq w (w\<lparr>wbDB := fst (AddUser (cnDriver cn) (registrant srv rq) (wbDB w))\<rparr>)"
| registered_session:
    "may_register srv rq \<Longrightarrow> AddUser (cnDriver cn) (registrant srv rq) (wbDB w) = (db, Ret user) \<Longrightarrow>
     usGitlabID user = None \<Longrightarrow> usGitlabLogin user = None \<Longrightarrow>
     web_action srv cn rq w (w\<lparr>wbDB := fst (CreateSession (cnDriver cn) (cnUUID cn) (mID user) db)\<rparr>)"
| telegram:
    "session_user srv cn rq w user \<Longrightarrow> cfTelegram (wsConfig srv) = Some bot_token \<Longrightarrow>
     wsTelegramHash srv bot_token (data_check_string (rqQuery rq)) = Query rq ''hash'' \<Longrightarrow> Atoi (Query rq ''id'') = Inr tid \<Longrightarrow>
     web_action srv cn rq w (w\<lparr>wbDB := fst (SetUserTelegramID (cnDriver cn) (user\<lparr>usTelegramID := Some tid\<rparr>) (wbDB w))\<rparr>)"
| opened:
    "gitlab_user srv rq gid glogin \<Longrightarrow> oauth_user cn rq w gid user \<Longrightarrow> usGitlabID user \<noteq> None \<Longrightarrow> usGitlabLogin user \<noteq> None \<Longrightarrow>
     web_action srv cn rq w (w\<lparr>wbDB := fst (CreateSession (cnDriver cn) (cnUUID cn) (mID user) (wbDB w))\<rparr>)"
| link_failed:
    "gitlab_user srv rq gid glogin \<Longrightarrow> oauth_user cn rq w gid user \<Longrightarrow> usGitlabID user = None \<or> usGitlabLogin user = None \<Longrightarrow>
     SetUserGitlabAccount (cnDriver cn) (mID user)
       \<lparr>guGitlabID = Some gid, guGitlabLogin = Some glogin, guRepository = None\<rparr> (wbDB w) = (db, Fail e) \<Longrightarrow>
     web_action srv cn rq w (w\<lparr>wbDB := db\<rparr>)"
| linked:
    "gitlab_user srv rq gid glogin \<Longrightarrow> oauth_user cn rq w gid user \<Longrightarrow> usGitlabID user = None \<or> usGitlabLogin user = None \<Longrightarrow>
     SetUserGitlabAccount (cnDriver cn) (mID user)
       \<lparr>guGitlabID = Some gid, guGitlabLogin = Some glogin, guRepository = None\<rparr> (wbDB w) = (db, Ret ()) \<Longrightarrow>
     web_action srv cn rq w
       (w\<lparr>wbDB := db,
          wbPrepared := wbPrepared w @ [user\<lparr>usGitlabID := Some gid, usGitlabLogin := Some glogin, usRepository := None\<rparr>]\<rparr>)"
| flag_submitted:
    "session_user srv cn rq w user \<Longrightarrow> usGitlabLogin user = Some glogin \<Longrightarrow> MatchString flagRe (PostForm rq ''flag'') \<Longrightarrow>
     web_action srv cn rq w (w\<lparr>wbDB := fst (SubmitFlag (cnDriver cn) (PostForm rq ''flag'') glogin (wbDB w))\<rparr>)"

section \<open>Handlers that change nothing\<close>

lemma quiet_handlers [simp]:
  "fst (signup rq w) = w" "fst (login srv cn rq w) = w" "fst (logout cn rq w) = w" "fst (telegramLogin user w) = w"
  "fst (userScores srv cn rq w) = w" "fst (listGroupMembers cn rq w) = w" "fst (standings srv cn rq w) = w"
  "fst (RenderSubmitFlagPage srv user w) = w" "fst (RenderHomePage srv cn user w) = w" "fst (handleChuckNorris w) = w"
  "fst (ping cn rq w) = w" "fst (RenderCheaterPage srv cn rq w) = w" "fst (RenderStandingsCheaterPage srv cn rq w) = w"
  by (simp_all add: signup_def login_def logout_def telegramLogin_def userScores_def listGroupMembers_def standings_def
      RenderSubmitFlagPage_def RenderHomePage_def handleChuckNorris_def ping_def RenderCheaterPage_def RenderStandingsCheaterPage_def)

lemma fetch_standings_cached: "\<exists>cache. fst (fetch_standings srv cn grp name keep w) = w\<lparr>wbCache := cache\<rparr>"
proof -
  have same: "\<exists>cache. w = w\<lparr>wbCache := cache\<rparr>" by (intro exI [of _ "wbCache w"]) simp
  show ?thesis
    by (auto simp: fetch_standings_def Let_def same split: option.split outcome.split)
qed

lemma doRenderStandingsPage_cached: "\<exists>cache. fst (doRenderStandingsPage srv cn rq name keep w) = w\<lparr>wbCache := cache\<rparr>"
proof -
  have same: "\<exists>cache. w = w\<lparr>wbCache := cache\<rparr>" by (intro exI [of _ "wbCache w"]) simp
  show ?thesis
    using fetch_standings_cached [of srv cn "standings_group srv rq" name keep w]
    by (auto simp: doRenderStandingsPage_def Let_def same split: outcome.split prod.split)
qed

lemma pages_action:
  "web_action srv cn rq w (fst (RenderStandingsPage srv cn rq w))"
  "web_action srv cn rq w (fst (RenderRetakesPage srv cn rq w))"
  using doRenderStandingsPage_cached [of srv cn rq "''standings''" None w]
    doRenderStandingsPage_cached [of srv cn rq "''retakes''" "Some usHasRetake" w]
  by (auto simp: RenderStandingsPage_def RenderRetakesPage_def intro: web_action.cached)

section \<open>Handlers that change the state\<close>

lemma validateSession_user:
  "validateSession srv v cn rq w = Inr (user, session) \<Longrightarrow> session_user srv cn rq w user"
  by (auto simp: validateSession_def session_user_def Let_def split: outcome.splits option.splits prod.splits if_splits)

lemma report_action: "web_action srv cn rq w (fst (report srv rq w))"
  by (auto simp: report_def intro: web_action.intros split: sum.split)

lemma createFlag_action: "web_action srv cn rq w (fst (createFlag srv cn rq w))"
proof (cases "rqFlag rq")
  case (Inr req)
  show ?thesis
  proof (cases "isTokenValid srv (frToken req) \<and> knows_task srv (frTask req)")
    case True
    with Inr have "fst (createFlag srv cn rq w) = w\<lparr>wbDB := fst (CreateFlag (cnDriver cn) (cnUUID cn) (cnNow cn) (frTask req) (wbDB w))\<rparr>"
      by (auto simp: createFlag_def knows_task_def split: prod.split outcome.split)
    with True Inr show ?thesis by (simp add: web_action.flag_created)
  next
    case False
    with Inr show ?thesis by (auto simp: createFlag_def knows_task_def intro: web_action.nothing)
  qed
qed (simp add: createFlag_def web_action.nothing)

lemma override_action:
  assumes "isTokenValid srv (rqToken rq)"
  shows "web_action srv cn rq w (fst (override srv cn rq w))"
proof (cases "rqOverride rq")
  case (Inr req)
  show ?thesis
  proof (cases "\<exists>user. FindUserByGitlabLogin (cnDriver cn) (orLogin req) (wbDB w) = Ret user \<and> knows_task srv (orTask req)")
    case True
    then obtain user where u: "FindUserByGitlabLogin (cnDriver cn) (orLogin req) (wbDB w) = Ret user" "knows_task srv (orTask req)" by blast
    with Inr have "fst (override srv cn rq w) =
        w\<lparr>wbDB := fst (AddOverride (cnDriver cn) (orLogin req) (orTask req) (orScore req) (orStatus req) (wbDB w))\<rparr>"
      by (auto simp: override_def knows_task_def split: prod.split outcome.split)
    with web_action.overridden [OF Inr assms u(2,1)] show ?thesis by simp
  next
    case False
    with Inr show ?thesis by (auto simp: override_def knows_task_def intro: web_action.nothing split: outcome.split)
  qed
qed (simp add: override_def web_action.nothing)

lemma changeGroup_action: "web_action srv cn rq w (fst (changeGroup srv cn rq w))"
proof (cases "rqChangeGroup rq")
  case (Inr req)
  show ?thesis
  proof (cases "\<exists>user. FindUserByGitlabLogin (cnDriver cn) (cgLogin req) (wbDB w) = Ret user \<and> isTokenValid srv (cgToken req)
      \<and> cgGroupName req \<in> gcName ` set (cfGroups (wsConfig srv))")
    case True
    then obtain user where u: "FindUserByGitlabLogin (cnDriver cn) (cgLogin req) (wbDB w) = Ret user" "isTokenValid srv (cgToken req)"
      "cgGroupName req \<in> gcName ` set (cfGroups (wsConfig srv))" by blast
    then have "list_ex (\<lambda>g. gcName g = cgGroupName req) (cfGroups (wsConfig srv))" by (auto simp: list_ex_iff)
    with Inr u have "fst (changeGroup srv cn rq w) =
        w\<lparr>wbDB := fst (SetUserGroupName (cnDriver cn) (user\<lparr>usGroupName := cgGroupName req\<rparr>) (wbDB w))\<rparr>"
      by (auto simp: changeGroup_def split: prod.split outcome.split)
    with web_action.group_changed [OF Inr u(2,1,3)] show ?thesis by simp
  next
    case False
    with Inr show ?thesis
      by (auto simp: changeGroup_def list_ex_iff image_iff intro: web_action.nothing split: outcome.split)
  qed
qed (simp add: changeGroup_def web_action.nothing)

lemma fillSessionForUser_state:
  "fst (fillSessionForUser cn rq user w) = w\<lparr>wbDB := fst (CreateSession (cnDriver cn) (cnUUID cn) (mID user) (wbDB w))\<rparr>"
  by (auto simp: fillSessionForUser_def split: prod.split outcome.split)

lemma signupForm_action: "web_action srv cn rq w (fst (signupForm srv cn rq w))"
proof (cases "may_register srv rq")
  case False
  then show ?thesis by (auto simp: signupForm_def Let_def may_register_def intro: web_action.nothing)
next
  case True
  obtain db res where a: "AddUser (cnDriver cn) (registrant srv rq) (wbDB w) = (db, res)" by fastforce
  have w': "fst (signupForm srv cn rq w) =
      (case res of
         Ret user \<Rightarrow>
           if usGitlabID user \<noteq> None \<or> usGitlabLogin user \<noteq> None then w\<lparr>wbDB := db\<rparr>
           else fst (fillSessionForUser cn rq user (w\<lparr>wbDB := db\<rparr>))
       | _ \<Rightarrow> w\<lparr>wbDB := db\<rparr>)"
    using True a unfolding signupForm_def Let_def may_register_def registrant_def
    by (auto split: outcome.split prod.split)
  have added: "web_action srv cn rq w (w\<lparr>wbDB := db\<rparr>)"
    using web_action.registered [OF True, of cn w] a by simp
  show ?thesis
  proof (cases res)
    case (Ret user)
    show ?thesis
    proof (cases "usGitlabID user = None \<and> usGitlabLogin user = None")
      case True
      with w' Ret have "fst (signupForm srv cn rq w) = w\<lparr>wbDB := fst (CreateSession (cnDriver cn) (cnUUID cn) (mID user) db)\<rparr>"
        by (simp add: fillSessionForUser_state)
      with web_action.registered_session [OF \<open>may_register srv rq\<close> a [unfolded Ret]] True show ?thesis by simp
    next
      case False
      with w' Ret added show ?thesis by auto
    qed
  qed (use w' added in simp_all)
qed

lemma telegramCallback_action:
  assumes "session_user srv cn rq w user"
  shows "web_action srv cn rq w (fst (telegramCallback srv cn rq user w))"
proof (cases "\<exists>bot_token tid. cfTelegram (wsConfig srv) = Some bot_token
    \<and> wsTelegramHash srv bot_token (data_check_string (rqQuery rq)) = Query rq ''hash'' \<and> Atoi (Query rq ''id'') = Inr tid")
  case True
  then obtain bot_token tid where t: "cfTelegram (wsConfig srv) = Some bot_token"
    "wsTelegramHash srv bot_token (data_check_string (rqQuery rq)) = Query rq ''hash''" "Atoi (Query rq ''id'') = Inr tid" by blast
  then have "fst (telegramCallback srv cn rq user w) =
      w\<lparr>wbDB := fst (SetUserTelegramID (cnDriver cn) (user\<lparr>usTelegramID := Some tid\<rparr>) (wbDB w))\<rparr>"
    by (auto simp: telegramCallback_def Let_def split: prod.split outcome.split)
  with web_action.telegram [OF assms t] show ?thesis by simp
next
  case False
  then show ?thesis
    by (auto simp: telegramCallback_def Let_def intro: web_action.nothing split: option.split sum.split)
qed

lemma link_account_action:
  assumes "gitlab_user srv rq gid glogin" "oauth_user cn rq w gid user"
  shows "web_action srv cn rq w (fst (link_account srv cn rq gid glogin user w))"
proof (cases "usGitlabLogin user \<noteq> None \<and> usGitlabID user \<noteq> None")
  case True
  then have "fst (link_account srv cn rq gid glogin user w) = fst (fillSessionForUser cn rq user w)"
    by (auto simp: link_account_def Let_def split: prod.split outcome.split)
  with web_action.opened [OF assms] True show ?thesis by (simp add: fillSessionForUser_state)
next
  case False
  let ?account = "\<lparr>guGitlabID = Some gid, guGitlabLogin = Some glogin, guRepository = None\<rparr>"
  obtain db res where s: "SetUserGitlabAccount (cnDriver cn) (mID user) ?account (wbDB w) = (db, res)" by fastforce
  have no_panic: "res \<noteq> Panic m" for m
    using s by (auto simp: SetUserGitlabAccount_def run_update_def split: prod.splits sum.splits if_splits)
  show ?thesis
  proof (cases res)
    case (Ret u)
    with False s have "fst (link_account srv cn rq gid glogin user w) =
      w\<lparr>wbDB := db, wbPrepared := wbPrepared w @ [user\<lparr>usGitlabID := Some gid, usGitlabLogin := Some glogin, usRepository := None\<rparr>]\<rparr>"
      by (auto simp: link_account_def Let_def)
    moreover have "SetUserGitlabAccount (cnDriver cn) (mID user) ?account (wbDB w) = (db, Ret ())" using s Ret by simp
    ultimately show ?thesis using web_action.linked [OF assms] False by auto
  next
    case (Fail e)
    with False s have "fst (link_account srv cn rq gid glogin user w) = w\<lparr>wbDB := db\<rparr>" by (auto simp: link_account_def Let_def)
    with web_action.link_failed [OF assms _ s [unfolded Fail]] False show ?thesis by auto
  qed (use no_panic in simp)
qed

lemma oauth_action: "web_action srv cn rq w (fst (oauth srv cn rq w))"
proof (cases "ckOAuth (rqCookie rq) = Some (Query rq ''state'')")
  case False
  then show ?thesis by (simp add: oauth_def web_action.nothing)
next
  case state: True
  show ?thesis
  proof (cases "\<exists>access gid glogin. wsExchange srv (Query rq ''code'') = Inr access \<and> wsOAuthUser srv access = Inr (gid, glogin)")
    case True
    then obtain access gid glogin where g: "wsExchange srv (Query rq ''code'') = Inr access" "wsOAuthUser srv access = Inr (gid, glogin)" by blast
    with state have gl: "gitlab_user srv rq gid glogin" by (simp add: gitlab_user_def)
    show ?thesis
    proof (cases "tryFindUserByToken cn rq w")
      case (Ret found)
      show ?thesis
      proof (cases found)
        case None
        then show ?thesis
        proof (cases "FindUserByGitlabID (cnDriver cn) gid (wbDB w)")
          case (Ret user)
          with \<open>tryFindUserByToken cn rq w = Ret found\<close> None have "oauth_user cn rq w gid user" by (simp add: oauth_user_def)
          from link_account_action [OF gl this] g state Ret \<open>tryFindUserByToken cn rq w = Ret found\<close> None show ?thesis
            by (simp add: oauth_def)
        qed (use g state Ret in \<open>simp_all add: oauth_def web_action.nothing\<close>)
      next
        case (Some us)
        then obtain user session where us: "found = Some (user, session)" by (cases us) auto
        with Ret have "oauth_user cn rq w gid user" by (auto simp: oauth_user_def)
        from link_account_action [OF gl this] g state Ret us show ?thesis by (simp add: oauth_def)
      qed
    qed (use g state in \<open>simp_all add: oauth_def web_action.nothing\<close>)
  next
    case False
    then show ?thesis
      using state by (auto simp: oauth_def intro: web_action.nothing split: outcome.split sum.split prod.split)
  qed
qed

lemma handleFlagSubmit_action:
  assumes "session_user srv cn rq w user"
  shows "web_action srv cn rq w (fst (handleFlagSubmit srv cn rq user w))"
proof -
  from assms obtain glogin where l: "usGitlabLogin user = Some glogin" by (auto simp: session_user_def)
  show ?thesis
  proof (cases "MatchString flagRe (PostForm rq ''flag'')")
    case True
    with l have "fst (handleFlagSubmit srv cn rq user w) =
        w\<lparr>wbDB := fst (SubmitFlag (cnDriver cn) (PostForm rq ''flag'') glogin (wbDB w))\<rparr>"
      by (auto simp: handleFlagSubmit_def split: prod.split outcome.split)
    with web_action.flag_submitted [OF assms l True] show ?thesis by simp
  next
    case False
    with l show ?thesis by (simp add: handleFlagSubmit_def web_action.nothing)
  qed
qed

lemma with_session_action:
  assumes "\<And>user. session_user srv cn rq w user \<Longrightarrow> web_action srv cn rq w (fst (h cn rq user w))"
  shows "web_action srv cn rq w (fst (with_session srv v h cn rq w))"
  using assms validateSession_user
  by (auto simp: with_session_def intro: web_action.nothing split: sum.split prod.split)

lemma validateToken_action:
  assumes "isTokenValid srv (rqToken rq) \<Longrightarrow> web_action srv cn rq w (fst (h w))"
  shows "web_action srv cn rq w (fst (validateToken srv rq h w))"
  using assms by (simp add: validateToken_def web_action.nothing)

lemma quiet_action: "fst r = w \<Longrightarrow> web_action srv cn rq w (fst r)"
  by (simp add: web_action.nothing)

lemmas quiet_actions = quiet_handlers [THEN quiet_action]

lemmas handler_actions =
  signupForm_action oauth_action report_action createFlag_action changeGroup_action pages_action

lemma routes_action:
  assumes "(r, h) \<in> set (routes srv)"
  shows "web_action srv cn rq w (fst (h cn rq w))"
  using assms
  by (auto simp: routes_def setupLoginService_def setupApiService_def Let_def
      intro!: handler_actions with_session_action validateToken_action telegramCallback_action handleFlagSubmit_action
        override_action quiet_actions)

lemma serve_action: "web_action srv cn rq w (fst (serve srv r cn rq w))"
proof (cases "map_of (routes srv) r")
  case None
  then show ?thesis by (simp add: serve_def web_action.nothing)
next
  case (Some h)
  then have "fst (serve srv r cn rq w) = fst (h cn rq w)"
    by (auto simp: serve_def split: prod.split outcome.split)
  with routes_action [OF map_of_SomeD [OF Some]] show ?thesis by simp
qed

text \<open>
  C3. Whatever a client sends, a served request changes the state only in the listed ways and only with the authority each of them takes:
  without a valid token of the testing system no report, flag, override or change of group; without the secret of
  a group no registration; without a session no flag is submitted, and it is submitted for the login of the session's
  user; a Telegram account is linked only to the session's user and only with the signature of Telegram; a GitLab account
  is linked, and a session opened, only on the way back from GitLab, to the user of the session or of the account.
\<close>

theorem serve_authorized:
  "web_action srv cn rq w (fst (serve srv r cn rq w))"
  by (rule serve_action)

end
