(* ===== verification/DatabaseFrame.thy ===== *)
theory DatabaseFrame
  imports DatabaseHistory
begin

text \<open>
  The tables that an operation of the database leaves alone, as simplification rules, and the tables that it changes, in terms of
  their rows.
\<close>

named_theorems db_frame \<open>tables that an operation does not touch\<close>

lemma frame_AddUser [db_frame]:
  "dbPipelines (fst (AddUser d u db)) = dbPipelines db" "dbSessions (fst (AddUser d u db)) = dbSessions db"
  "dbFlags (fst (AddUser d u db)) = dbFlags db" "dbOverrides (fst (AddUser d u db)) = dbOverrides db"
  by (auto simp: AddUser_def split: sum.split prod.split)

lemma frame_SetUserGitlabAccount [db_frame]:
  "dbPipelines (fst (SetUserGitlabAccount d i u db)) = dbPipelines db" "dbSessions (fst (SetUserGitlabAccount d i u db)) = dbSessions db"
  "dbFlags (fst (SetUserGitlabAccount d i u db)) = dbFlags db" "dbOverrides (fst (SetUserGitlabAccount d i u db)) = dbOverrides db"
  by (auto simp: SetUserGitlabAccount_def split: prod.split)

lemma frame_update_user:
  "dbPipelines (fst (update_user d u f db)) = dbPipelines db" "dbSessions (fst (update_user d u f db)) = dbSessions db"
  "dbFlags (fst (update_user d u f db)) = dbFlags db" "dbOverrides (fst (update_user d u f db)) = dbOverrides db"
  by (auto simp: update_user_def split: prod.split)

lemmas frame_SetUser [db_frame] =
  frame_update_user [where f = "\<lambda>r. r\<lparr>usRepository := usRepository u\<rparr>" and u = u for u, folded SetUserRepository_def]
  frame_update_user [where f = "\<lambda>r. r\<lparr>usTelegramID := usTelegramID u\<rparr>" and u = u for u, folded SetUserTelegramID_def]
  frame_update_user [where f = "\<lambda>r. r\<lparr>usGroupName := usGroupName u\<rparr>" and u = u for u, folded SetUserGroupName_def]

lemma frame_AddPipeline [db_frame]:
  "dbUsers (fst (AddPipeline d p db)) = dbUsers db" "dbSessions (fst (AddPipeline d p db)) = dbSessions db"
  "dbFlags (fst (AddPipeline d p db)) = dbFlags db" "dbOverrides (fst (AddPipeline d p db)) = dbOverrides db"
  by (auto simp: AddPipeline_def split: sum.split prod.split)

lemma frame_CreateSession [db_frame]:
  "dbUsers (fst (CreateSession d t u db)) = dbUsers db" "dbPipelines (fst (CreateSession d t u db)) = dbPipelines db"
  "dbFlags (fst (CreateSession d t u db)) = dbFlags db" "dbOverrides (fst (CreateSession d t u db)) = dbOverrides db"
  by (auto simp: CreateSession_def split: sum.split prod.split)

lemma frame_CreateFlag [db_frame]:
  "dbUsers (fst (CreateFlag d t n k db)) = dbUsers db" "dbPipelines (fst (CreateFlag d t n k db)) = dbPipelines db"
  "dbSessions (fst (CreateFlag d t n k db)) = dbSessions db" "dbOverrides (fst (CreateFlag d t n k db)) = dbOverrides db"
  by (auto simp: CreateFlag_def split: sum.split prod.split)

lemma frame_SubmitFlag [db_frame]:
  "dbUsers (fst (SubmitFlag d f l db)) = dbUsers db" "dbPipelines (fst (SubmitFlag d f l db)) = dbPipelines db"
  "dbSessions (fst (SubmitFlag d f l db)) = dbSessions db" "dbOverrides (fst (SubmitFlag d f l db)) = dbOverrides db"
  by (auto simp: SubmitFlag_def split: prod.split)

lemma frame_AddOverride [db_frame]:
  "dbUsers (fst (AddOverride d l t s st db)) = dbUsers db" "dbPipelines (fst (AddOverride d l t s st db)) = dbPipelines db"
  "dbSessions (fst (AddOverride d l t s st db)) = dbSessions db" "dbFlags (fst (AddOverride d l t s st db)) = dbFlags db"
  by (auto simp: AddOverride_def split: sum.split prod.split)

section \<open>Rows after an update of the users\<close>

lemma update_user_rows:
  assumes "lawful_driver d"
  shows "dbUsers (fst (update_user d u f db)) = dbUsers db
    \<or> dbUsers (fst (update_user d u f db)) = map (\<lambda>r. if mID r = mID u \<and> live r then f r else r) (dbUsers db)"
proof (cases "mID u = 0")
  case False
  obtain rows res where r: "run_update (drUsers d) (\<lambda>r. mID r = mID u \<and> live r) f id (unknown_user (mID u)) (dbUsers db) = (rows, res)"
    by fastforce
  with False have "fst (update_user d u f db) = db\<lparr>dbUsers := rows\<rparr>" by (simp add: update_user_def)
  with run_update_cases [OF lawful_driverD(1) [OF assms] r] show ?thesis by cases auto
qed (simp add: update_user_def)

lemma SetUserGitlabAccount_rows:
  assumes "lawful_driver d"
  shows "dbUsers (fst (SetUserGitlabAccount d uid a db)) = dbUsers db
    \<or> dbUsers (fst (SetUserGitlabAccount d uid a db)) =
        map (\<lambda>r. if mID r = uid \<and> (usGitlabID r = None \<or> usGitlabLogin r = None) \<and> live r
                 then r\<lparr>usGitlabID := guGitlabID a, usGitlabLogin := guGitlabLogin a\<rparr> else r) (dbUsers db)"
proof -
  let ?P = "\<lambda>r. mID r = uid \<and> (usGitlabID r = None \<or> usGitlabLogin r = None) \<and> live r"
    and ?f = "\<lambda>r. r\<lparr>usGitlabID := guGitlabID a, usGitlabLogin := guGitlabLogin a\<rparr>"
  obtain rows res where r: "run_update (drUsers d) ?P ?f duplicate_or (unknown_user uid) (dbUsers db) = (rows, res)" by fastforce
  then have "fst (SetUserGitlabAccount d uid a db) = db\<lparr>dbUsers := rows\<rparr>" by (simp add: SetUserGitlabAccount_def)
  with run_update_cases [OF lawful_driverD(1) [OF assms] r] show ?thesis by cases auto
qed

lemma AddUser_rows:
  assumes "lawful_driver d"
  shows "dbUsers (fst (AddUser d u db)) = dbUsers db
    \<or> (\<exists>u'. stored_user u u' \<and> dbUsers (fst (AddUser d u db)) = dbUsers db @ [u'])"
proof (cases "sqFirst (drUsers d) (user_cond u) (dbUsers db)")
  case (Inl e)
  show ?thesis
  proof (cases "sqInsert (drUsers d) u (dbUsers db)")
    case i: (Inr r)
    obtain u' rows where "r = (u', rows)" by fastforce
    with lawful_insertD [OF lawful_driverD(1) [OF assms] i [unfolded this]] i Inl show ?thesis by (auto simp: AddUser_def)
  qed (simp add: AddUser_def Inl)
qed (simp add: AddUser_def)

lemma CreateFlag_rows:
  assumes "lawful_driver d" "CreateFlag d uuid now task db = (db', res)"
  shows "(\<exists>e. res = Fail e \<and> db' = db)
    \<or> (\<exists>f. res = Ret f \<and> f = \<lparr>flID = flag_id task uuid, flTask = task, flGitlabLogin = None, flCreatedAt = now\<rparr>
         \<and> db' = db\<lparr>dbFlags := dbFlags db @ [f]\<rparr>)"
proof (cases "sqInsert (drFlags d) \<lparr>flID = flag_id task uuid, flTask = task, flGitlabLogin = None, flCreatedAt = now\<rparr> (dbFlags db)")
  case (Inr r)
  obtain f rows where "r = (f, rows)" by fastforce
  with lawful_insertD [OF lawful_driverD(4) [OF assms(1)] Inr [unfolded this]] Inr assms(2) show ?thesis by (auto simp: CreateFlag_def)
qed (use assms(2) in \<open>auto simp: CreateFlag_def\<close>)

end
