(* ===== verification/GitlabSpec.thy ===== *)
theory GitlabSpec
  imports Gitlab "HOL-Library.Sublist"
begin

text \<open>
  What the steps of \<open>Gitlab\<close> guarantee: project names keep the parts they are made of apart, a project that is
  reported as initialized has passed every step, an error is the one of the last request, a retry never creates a second
  project, and the loop over the pages of members ends.
\<close>

section \<open>Names\<close>

lemma encode_bytes_high: "r \<ge> 128 \<Longrightarrow> b \<in> set (encode_bytes r) \<Longrightarrow> 128 \<le> b \<and> b < 256"
  by (auto simp: encode_bytes_def Let_def RuneError_def valid_rune_def split: if_splits)

lemma encode_bytes_low: "r < 128 \<Longrightarrow> encode_bytes r = [r]"
  by (simp add: encode_bytes_def valid_rune_def)

lemma byte_chr: "n < 256 \<Longrightarrow> byte (chr n) = n"
  by simp

lemma ascii_in_encode_rune:
  assumes "byte ch < (128 :: nat)" "ch \<in> set (encode_rune r)"
  shows "r = byte ch"
proof -
  from assms(2) obtain b where b: "b \<in> set (encode_bytes r)" "ch = chr b" by (auto simp: encode_rune_def)
  show ?thesis
  proof (cases "r < 128")
    case True
    with b show ?thesis by (simp add: encode_bytes_low)
  next
    case False
    with b(1) have "128 \<le> b \<and> b < 256" using encode_bytes_high [of r b] by simp
    with assms(1) b(2) show ?thesis by simp
  qed
qed

lemma ascii_in_strings_Map:
  assumes "byte ch < (128 :: nat)" "ch \<in> set (strings_Map f s)"
  shows "\<exists>r. f r = Some (byte ch)"
proof -
  from assms(2) obtain r r' where "f r = Some r'" "ch \<in> set (encode_rune r')"
    by (auto simp: strings_Map_def split: option.splits) metis
  with ascii_in_encode_rune [OF assms(1)] show ?thesis by metis
qed

lemma cleanupName_no_dash: "CHR ''-'' \<notin> set (cleanupName c name)"
proof
  assume "CHR ''-'' \<in> set (cleanupName c name)"
  from ascii_in_strings_Map [OF _ this [unfolded cleanupName_def]] show False by (auto split: if_splits)
qed

text \<open>Of a name that is transliterated to ASCII, exactly the dashes and the apostrophes go.\<close>

lemma cleanupName_ascii:
  assumes "ascii (clTranslit c name)"
  shows "cleanupName c name = filter (\<lambda>ch. ch \<noteq> CHR ''-'' \<and> ch \<noteq> CHR 0x27) (clTranslit c name)"
proof -
  have "byte ch = (45 :: nat) \<longleftrightarrow> ch = CHR ''-''" and "byte ch = (39 :: nat) \<longleftrightarrow> ch = CHR 0x27" for ch
    using of_char_eq_iff [of ch "CHR ''-''", where 'a = nat] of_char_eq_iff [of ch "CHR 0x27", where 'a = nat] by simp_all
  moreover have "ascii s \<Longrightarrow>
      concat (map (\<lambda>ch. case if P ch then None else if Q ch then None else Some (byte ch) of None \<Rightarrow> [] | Some r \<Rightarrow> encode_rune r) s)
      = filter (\<lambda>ch. \<not> P ch \<and> \<not> Q ch) s" for s P Q
    by (induction s) (simp_all add: encode_rune_byte)
  ultimately show ?thesis using assms by (simp add: cleanupName_def strings_Map_ascii)
qed

lemma MakeProjectName_Ret:
  "MakeProjectName c user = Ret name \<longleftrightarrow>
     (\<exists>login. usGitlabLogin user = Some login
        \<and> name = usGroupName user @ ''-'' @ cleanupName c (usFirstName user) @ ''-'' @ cleanupName c (usLastName user)
                 @ ''-'' @ cleanupLogin login)"
  by (auto simp: MakeProjectName_def split: option.splits)


text \<open>
  The task that a branch stands for is read back from the branch that a submission of it is pushed to, with or
  without the directory prefix, and the link to the branch ends with such a branch.
\<close>

theorem ParseTaskFromBranch_roundtrip:
  "ParseTaskFromBranch (branchPrefix @ tasksPrefix @ task) = task
   \<and> (\<not> has_prefix tasksPrefix task \<longrightarrow> ParseTaskFromBranch (branchPrefix @ task) = task)
   \<and> (\<not> has_prefix branchPrefix task \<longrightarrow> \<not> has_prefix tasksPrefix task \<longrightarrow> ParseTaskFromBranch task = task)
   \<and> (MakeBranchURL c user p = Ret url \<longrightarrow> (\<exists>pre. url = pre @ branchPrefix @ plTask p))"
proof -
  have "\<exists>pre. url = pre @ branchPrefix @ plTask p" if "MakeBranchURL c user p = Ret url"
  proof -
    from that obtain name where "url = (glBaseURL (clConfig c) @ ''/'' @ glGroupName (clConfig c) @ ''/'' @ name @ ''/-/tree/'')
      @ branchPrefix @ plTask p"
      by (auto simp: MakeBranchURL_def branchPrefix_def)
    then show ?thesis by blast
  qed
  then show ?thesis by (auto simp: ParseTaskFromBranch_def TrimPrefix_id)
qed

section \<open>The steps of an initialization\<close>

lemma after_step_Ret:
  "after_step m f = Some (s, Ret y) \<longleftrightarrow> (\<exists>s1 x. m = (s1, Ret x) \<and> f x s1 = Some (s, Ret y))"
  by (cases m; cases "snd m") auto

lemma after_step_Fail:
  "after_step m f = Some (s, Fail e) \<longleftrightarrow> m = (s, Fail e) \<or> (\<exists>s1 x. m = (s1, Ret x) \<and> f x s1 = Some (s, Fail e))"
  by (cases m; cases "snd m") auto

lemma InitializeProject_linked:
  assumes "usGitlabID user = Some uid" "MakeProjectName c user = Ret name"
  shows "InitializeProject c sv user sent =
     after_step (find_or_create c sv name sent) (\<lambda>project sent.
     after_step (create_readme c sv project sent) (\<lambda>_ sent.
     after_step (protect_master sv project sent) (\<lambda>_ sent.
     case find_member sv project uid 0 sent of
       None \<Rightarrow> None
     | Some found \<Rightarrow>
         after_step found (\<lambda>is_member sent.
         if is_member then Some (sent, Ret ()) else Some (add_member sv project uid sent)))))"
proof -
  from assms(2) obtain login where "usGitlabLogin user = Some login" by (auto simp: MakeProjectName_Ret)
  with assms show ?thesis by (simp add: InitializeProject_def)
qed

lemma InitializeProject_unlinked:
  assumes "usGitlabID user = None \<or> usGitlabLogin user = None"
  shows "InitializeProject c sv user sent = Some (sent, Fail (Errorf ''Empty gitlab user''))"
  using assms by (auto simp: InitializeProject_def split: option.split)

lemma linked_cases:
  obtains (unlinked) "usGitlabID user = None \<or> usGitlabLogin user = None"
    | (linked) uid login name where "usGitlabID user = Some uid" "usGitlabLogin user = Some login" "MakeProjectName c user = Ret name"
  by (cases "usGitlabID user"; cases "usGitlabLogin user") (auto simp: MakeProjectName_Ret)

text \<open>
  \<open>answered old new r P\<close>: between the log \<open>old\<close> and the log \<open>new\<close> the request \<open>r\<close> was sent, and the log it was
  answered from satisfies \<open>P\<close>.
\<close>

definition answered :: "requests \<Rightarrow> requests \<Rightarrow> gl_request \<Rightarrow> (requests \<Rightarrow> bool) \<Rightarrow> bool" where
  "answered old new r P \<longleftrightarrow> (\<exists>past. suffix old past \<and> suffix (r # past) new \<and> P (r # past))"

lemma answeredI: "suffix old past \<Longrightarrow> suffix (r # past) new \<Longrightarrow> P (r # past) \<Longrightarrow> answered old new r P"
  by (auto simp: answered_def)

lemma suffix_drop_Cons: "suffix (r # past) new \<Longrightarrow> suffix past new"
  by (metis suffix_ConsD)

lemma answered_mono:
  assumes "answered mid end r P" "suffix old mid" "suffix end new"
  shows "answered old new r P"
  using assms unfolding answered_def by (meson suffix_order.trans)

text \<open>What the answers along the way say about the result of a search for a member.\<close>

fun searched :: "server \<Rightarrow> int \<Rightarrow> int \<Rightarrow> requests \<Rightarrow> requests \<Rightarrow> bool outcome \<Rightarrow> bool" where
  "searched sv project uid old new (Ret True) =
     (\<exists>page. answered old new (ListMembers project page) (\<lambda>l. \<exists>pg. svListMembers sv l = Inr pg \<and> uid \<in> set (pgItems pg)))"
| "searched sv project uid old new (Ret False) =
     (\<exists>page. answered old new (ListMembers project page) (\<lambda>l. \<exists>pg. svListMembers sv l = Inr pg \<and> pgTotal pg \<le> pgCurrent pg))"
| "searched sv project uid old new (Fail e) =
     (\<exists>page past err. new = ListMembers project page # past \<and> svListMembers sv new = Inl err
        \<and> e = Wrap ''Failed to list project members'' (gl_err err))"
| "searched sv project uid old new (Panic m) = False"

lemma searched_mono: "searched sv project uid mid new res \<Longrightarrow> suffix old mid \<Longrightarrow> searched sv project uid old new res"
  by (cases "(sv, project, uid, mid, new, res)" rule: searched.cases) (auto intro: answered_mono)

lemmas find_member_induct = find_member.raw_induct [rotated, consumes 1, case_names step]

lemma find_member_result:
  assumes "find_member sv project uid page sent = Some (sent', res)"
  shows "suffix sent sent' \<and> searched sv project uid sent sent' res"
proof -
  have "suffix sent (fst r) \<and> searched sv project uid sent (fst r) (snd r)"
    if "find_member sv project uid page sent = Some r" for r
    using that
  proof (induction sv project uid page sent r rule: find_member_induct)
    case (step f sv project uid page sent r)
    let ?sent1 = "ListMembers project page # sent"
    show ?case
    proof (cases "svListMembers sv ?sent1")
      case (Inl e)
      with step(2) show ?thesis by (auto simp: Let_def suffix_Cons)
    next
      case (Inr pg)
      have here: "answered sent ?sent1 (ListMembers project page) P" if "P ?sent1" for P
        using that by (auto intro!: answeredI)
      consider (found) "uid \<in> set (pgItems pg)" | (end_page) "uid \<notin> set (pgItems pg)" "pgTotal pg \<le> pgCurrent pg"
        | (next_page) "uid \<notin> set (pgItems pg)" "\<not> pgTotal pg \<le> pgCurrent pg" by blast
      then show ?thesis
      proof cases
        case found
        with step(2) Inr show ?thesis by (auto simp: Let_def suffix_Cons intro!: exI [of _ page] here)
      next
        case end_page
        with step(2) Inr show ?thesis by (auto simp: Let_def suffix_Cons intro!: exI [of _ page] here)
      next
        case next_page
        with step(2) Inr have "f sv project uid (pgNext pg) ?sent1 = Some r" by (simp add: Let_def)
        with step(1) have "suffix ?sent1 (fst r) \<and> searched sv project uid ?sent1 (fst r) (snd r)" by blast
        then show ?thesis
          by (auto intro: suffix_drop_Cons searched_mono [where mid = ?sent1] simp: suffix_Cons)
      qed
    qed
  qed
  from this [of "(sent', res)"] assms show ?thesis by simp
qed

section \<open>What a step tells when it succeeds or fails\<close>

definition project_path :: "Client \<Rightarrow> string \<Rightarrow> string" where
  "project_path c name = glGroupName (clConfig c) @ ''/'' @ name"

text \<open>The project was found under its path, or created with its name.\<close>

definition project_exists :: "Client \<Rightarrow> server \<Rightarrow> string \<Rightarrow> int \<Rightarrow> requests \<Rightarrow> requests \<Rightarrow> bool" where
  "project_exists c sv name project old new \<longleftrightarrow>
     answered old new (GetProject (project_path c name)) (\<lambda>l. \<exists>st. st \<noteq> 404 \<and> svGetProject sv l = Response st (Inr project))
     \<or> answered old new (CreateProject name (glGroupID (clConfig c)) (glCIConfigPath (clConfig c))) (\<lambda>l. svCreateProject sv l = Inr project)"

definition readme_exists_in :: "Client \<Rightarrow> server \<Rightarrow> int \<Rightarrow> requests \<Rightarrow> requests \<Rightarrow> bool" where
  "readme_exists_in c sv project old new \<longleftrightarrow>
     answered old new (CreateReadme project (glDefaultReadme (clConfig c)))
       (\<lambda>l. svCreateReadme sv l \<in> {None, Some readme_exists, Some branch_forbidden})"

definition master_protected :: "server \<Rightarrow> int \<Rightarrow> requests \<Rightarrow> requests \<Rightarrow> bool" where
  "master_protected sv project old new \<longleftrightarrow>
     answered old new (ProtectMaster project) (\<lambda>l. svProtectMaster sv l \<in> {None, Some already_protected})"

definition member_present :: "server \<Rightarrow> int \<Rightarrow> int \<Rightarrow> requests \<Rightarrow> requests \<Rightarrow> bool" where
  "member_present sv project uid old new \<longleftrightarrow>
     (\<exists>page. answered old new (ListMembers project page) (\<lambda>l. \<exists>pg. svListMembers sv l = Inr pg \<and> uid \<in> set (pgItems pg)))
     \<or> answered old new (AddMember project uid) (\<lambda>l. svAddMember sv l = None)"

text \<open>The error that the answer to the last request is reported as; \<open>None\<close> if that answer is no failure.\<close>

fun reported :: "server \<Rightarrow> requests \<Rightarrow> gerror option" where
  "reported sv [] = None"
| "reported sv (GetProject path # past) =
     (case svGetProject sv (GetProject path # past) of
        NoResponse err \<Rightarrow> Some (Wrap ''Failed to get project'' (gl_err err))
      | Response st (Inl err) \<Rightarrow> if st = 404 then None else Some (Wrap ''Failed to find project'' (gl_err err))
      | Response st (Inr project) \<Rightarrow> None)"
| "reported sv (CreateProject name ns ci # past) =
     (case svCreateProject sv (CreateProject name ns ci # past) of
        Inl err \<Rightarrow> Some (Wrap ''Failed to create project'' (gl_err err)) | Inr project \<Rightarrow> None)"
| "reported sv (CreateReadme project text # past) =
     (case svCreateReadme sv (CreateReadme project text # past) of
        Some err \<Rightarrow> if err = readme_exists \<or> err = branch_forbidden then None
                    else Some (Wrap ''Failed to create README'' (gl_err err))
      | None \<Rightarrow> None)"
| "reported sv (ProtectMaster project # past) =
     (case svProtectMaster sv (ProtectMaster project # past) of
        Some err \<Rightarrow> if err = already_protected then None else Some (Wrap ''Failed to protect master branch'' (gl_err err))
      | None \<Rightarrow> None)"
| "reported sv (ListMembers project page # past) =
     (case svListMembers sv (ListMembers project page # past) of
        Inl err \<Rightarrow> Some (Wrap ''Failed to list project members'' (gl_err err)) | Inr pg \<Rightarrow> None)"
| "reported sv (AddMember project uid # past) =
     map_option (\<lambda>err. Wrap ''Failed to add user to the project'' (gl_err err)) (svAddMember sv (AddMember project uid # past))"
| "reported sv (_ # past) = None"

lemma answered_last: "suffix old past \<Longrightarrow> P (r # past) \<Longrightarrow> answered old (r # past) r P"
  by (rule answeredI) simp_all

lemma project_found:
  "suffix old past \<Longrightarrow> svGetProject sv (GetProject (project_path c name) # past) = Response st (Inr project) \<Longrightarrow> st \<noteq> 404 \<Longrightarrow>
     project_exists c sv name project old (GetProject (project_path c name) # past)"
  unfolding project_exists_def by (rule disjI1, rule answered_last) auto

lemma project_created:
  "suffix old past \<Longrightarrow>
     svCreateProject sv (CreateProject name (glGroupID (clConfig c)) (glCIConfigPath (clConfig c)) # past) = Inr project \<Longrightarrow>
     project_exists c sv name project old (CreateProject name (glGroupID (clConfig c)) (glCIConfigPath (clConfig c)) # past)"
  unfolding project_exists_def by (rule disjI2, rule answered_last) auto

lemma find_or_create_result:
  assumes "find_or_create c sv name sent = (sent', res)"
  shows "suffix sent sent' \<and>
    (case res of Ret project \<Rightarrow> project_exists c sv name project sent sent' | Fail e \<Rightarrow> reported sv sent' = Some e | Panic m \<Rightarrow> False)"
  using assms unfolding find_or_create_def Let_def project_path_def [symmetric]
  by (auto simp: suffix_Cons intro!: project_found project_created split: project_answer.splits sum.splits if_splits)

lemma create_readme_result:
  assumes "create_readme c sv project sent = (sent', res)"
  shows "suffix sent sent' \<and>
    (case res of Ret _ \<Rightarrow> readme_exists_in c sv project sent sent' | Fail e \<Rightarrow> reported sv sent' = Some e | Panic m \<Rightarrow> False)"
  using assms unfolding create_readme_def Let_def readme_exists_in_def
  by (auto simp: suffix_Cons intro!: answeredI split: option.splits if_splits)

lemma protect_master_result:
  assumes "protect_master sv project sent = (sent', res)"
  shows "suffix sent sent' \<and>
    (case res of Ret _ \<Rightarrow> master_protected sv project sent sent' | Fail e \<Rightarrow> reported sv sent' = Some e | Panic m \<Rightarrow> False)"
  using assms unfolding protect_master_def Let_def master_protected_def
  by (auto simp: suffix_Cons intro!: answeredI split: option.splits if_splits)

lemma add_member_result:
  assumes "add_member sv project uid sent = (sent', res)"
  shows "suffix sent sent' \<and>
    (case res of Ret _ \<Rightarrow> member_present sv project uid sent sent' | Fail e \<Rightarrow> reported sv sent' = Some e | Panic m \<Rightarrow> False)"
  using assms unfolding add_member_def Let_def member_present_def
  by (auto simp: suffix_Cons intro!: answeredI split: option.splits)

lemma answered_later:
  assumes "suffix old mid" "suffix mid mid'" "suffix mid' new"
  shows "project_exists c sv name project mid mid' \<Longrightarrow> project_exists c sv name project old new"
    and "readme_exists_in c sv project mid mid' \<Longrightarrow> readme_exists_in c sv project old new"
    and "master_protected sv project mid mid' \<Longrightarrow> master_protected sv project old new"
    and "member_present sv project uid mid mid' \<Longrightarrow> member_present sv project uid old new"
  using assms(1,3) by (auto simp: project_exists_def readme_exists_in_def master_protected_def member_present_def intro: answered_mono)

lemma member_step_result:
  assumes "(case find_member sv project uid page sent of
              None \<Rightarrow> None
            | Some found \<Rightarrow>
                after_step found (\<lambda>is_member sent.
                if is_member then Some (sent, Ret ()) else Some (add_member sv project uid sent))) = Some (sent', res)"
  shows "suffix sent sent' \<and>
    (case res of Ret _ \<Rightarrow> member_present sv project uid sent sent' | Fail e \<Rightarrow> reported sv sent' = Some e | Panic m \<Rightarrow> False)"
proof -
  from assms obtain s1 found where f: "find_member sv project uid page sent = Some (s1, found)"
    by (auto split: option.splits)
  from find_member_result [OF f] have f1: "suffix sent s1" "searched sv project uid sent s1 found" by auto
  show ?thesis
  proof (cases found)
    case (Ret is_member)
    show ?thesis
    proof (cases is_member)
      case True
      with assms f f1 Ret show ?thesis by (auto simp: member_present_def)
    next
      case False
      with assms f Ret have "add_member sv project uid s1 = (sent', res)" by simp
      from add_member_result [OF this] f1(1) show ?thesis
        by (auto split: outcome.splits intro: answered_later [OF f1(1)] suffix_order.trans)
    qed
  qed (use assms f f1 in auto)
qed

text \<open>
  C20. An initialization that reports success has found the project of the student under its path or created it, has a
  README there (or a server that refuses one because there is one, or because the branch is protected), a protected master
  branch, and the student is among the members of the project or was added to them; each of these was answered by the
  server in the course of this very call, for one and the same project. One that reports an error had no linked account
  and sent nothing, or it stopped at the request that failed and reports the error of exactly that request.
\<close>

theorem InitializeProject_correct:
  assumes "InitializeProject c sv user sent = Some (sent', res)"
  shows "case res of
      Ret _ \<Rightarrow> \<exists>uid name project. usGitlabID user = Some uid \<and> MakeProjectName c user = Ret name
        \<and> project_exists c sv name project sent sent' \<and> readme_exists_in c sv project sent sent'
        \<and> master_protected sv project sent sent' \<and> member_present sv project uid sent sent'
    | Fail e \<Rightarrow>
        if usGitlabID user = None \<or> usGitlabLogin user = None then sent' = sent \<and> e = Errorf ''Empty gitlab user''
        else suffix sent sent' \<and> reported sv sent' = Some e
    | Panic m \<Rightarrow> False"
proof (cases rule: linked_cases [where user = user and c = c])
  case unlinked
  with assms show ?thesis by (auto simp: InitializeProject_unlinked)
next
  case (linked uid login name)
  obtain s1 r1 where 1: "find_or_create c sv name sent = (s1, r1)" by fastforce
  note f1 = find_or_create_result [OF 1]
  note run = assms [unfolded InitializeProject_linked [OF linked(1,3)] 1]
  show ?thesis
  proof (cases r1)
    case (Ret project)
    obtain s2 r2 where 2: "create_readme c sv project s1 = (s2, r2)" by fastforce
    note f2 = create_readme_result [OF 2]
    show ?thesis
    proof (cases r2)
      case r2: (Ret u)
      obtain s3 r3 where 3: "protect_master sv project s2 = (s3, r3)" by fastforce
      note f3 = protect_master_result [OF 3]
      show ?thesis
      proof (cases r3)
        case r3: (Ret v)
        from run Ret 2 r2 3 r3 have
          "(case find_member sv project uid 0 s3 of None \<Rightarrow> None
            | Some found \<Rightarrow> after_step found (\<lambda>is_member sent.
                if is_member then Some (sent, Ret ()) else Some (add_member sv project uid sent))) = Some (sent', res)"
          by simp
        note f4 = member_step_result [OF this]
        have le: "suffix sent s1" "suffix s1 s2" "suffix s2 s3" "suffix s3 sent'" "suffix sent s2" "suffix sent s3"
          "suffix s1 sent'" "suffix s2 sent'" "suffix sent sent'"
          using f1 f2 f3 f4 by (meson suffix_order.trans)+
        have "project_exists c sv name project sent sent'"
          using f1 Ret answered_later(1) [OF suffix_order.refl le(1) le(7)] by simp
        moreover have "readme_exists_in c sv project sent sent'"
          using f2 r2 answered_later(2) [OF le(1) le(2) le(8)] by simp
        moreover have "master_protected sv project sent sent'"
          using f3 r3 answered_later(3) [OF le(5) le(3) le(4)] by simp
        moreover have "member_present sv project uid sent sent'" if "res = Ret w" for w
          using f4 that answered_later(4) [OF le(6) le(4) suffix_order.refl] by simp
        ultimately show ?thesis using f4 linked le(9) by (auto split: outcome.splits)
      qed (use run Ret 2 r2 3 f1 f2 f3 linked in \<open>auto intro: suffix_order.trans\<close>)
    qed (use run Ret 2 f1 f2 linked in \<open>auto intro: suffix_order.trans\<close>)
  qed (use run f1 linked in auto)
qed

section \<open>Termination\<close>

text \<open>
  What GitLab documents of its pages: they are counted from 1 (page 0 is the first one, too), the next page is the
  following one, and here no listing has more than \<open>N\<close> pages.
\<close>

definition well_paged :: "int \<Rightarrow> int \<Rightarrow> 'a page \<Rightarrow> bool" where
  "well_paged N page pg \<longleftrightarrow>
     pgTotal pg \<le> N \<and> pgCurrent pg = max 1 page \<and> (pgCurrent pg < pgTotal pg \<longrightarrow> pgNext pg = pgCurrent pg + 1)"

definition members_paged :: "int \<Rightarrow> server \<Rightarrow> bool" where
  "members_paged N sv \<longleftrightarrow>
     (\<forall>project page past pg. svListMembers sv (ListMembers project page # past) = Inr pg \<longrightarrow> well_paged N page pg)"

lemma find_member_returns:
  assumes "members_paged N sv"
  shows "\<exists>sent' res. find_member sv project uid page sent = Some (sent', res)
    \<and> length sent' \<le> Suc (length sent + nat (N - max 1 page))"
proof (induction "nat (N - max 1 page)" arbitrary: page sent rule: less_induct)
  case less
  let ?sent1 = "ListMembers project page # sent"
  show ?case
  proof (cases "svListMembers sv ?sent1")
    case (Inl e)
    then show ?thesis by (simp add: find_member.simps Let_def)
  next
    case (Inr pg)
    with assms have pg: "well_paged N page pg" by (auto simp: members_paged_def)
    show ?thesis
    proof (cases "uid \<in> set (pgItems pg) \<or> pgTotal pg \<le> pgCurrent pg")
      case True
      with Inr show ?thesis by (subst find_member.simps) (auto simp: Let_def)
    next
      case False
      with pg have next_page: "pgNext pg = max 1 page + 1" and lt: "max 1 page < N" by (auto simp: well_paged_def)
      then have smaller: "nat (N - max 1 (pgNext pg)) < nat (N - max 1 page)" by auto
      from less [OF this, of ?sent1] obtain sent' res where
        r: "find_member sv project uid (pgNext pg) ?sent1 = Some (sent', res)"
          "length sent' \<le> Suc (length ?sent1 + nat (N - max 1 (pgNext pg)))" by blast
      have "find_member sv project uid page sent = Some (sent', res)"
        using False Inr r(1) by (subst find_member.simps) (simp add: Let_def)
      moreover have "length sent' \<le> Suc (length sent + nat (N - max 1 page))"
        using r(2) smaller by (simp only: list.size)
      ultimately show ?thesis by blast
    qed
  qed
qed

lemma step_lengths:
  "length (fst (find_or_create c sv name sent)) \<le> length sent + 2"
  "length (fst (create_readme c sv project sent)) = length sent + 1"
  "length (fst (protect_master sv project sent)) = length sent + 1"
  "length (fst (add_member sv project uid sent)) = length sent + 1"
  by (auto simp: find_or_create_def create_readme_def protect_master_def add_member_def Let_def
      split: project_answer.split sum.split option.split)

definition returns_within :: "nat \<Rightarrow> requests \<Rightarrow> (requests \<times> 'a outcome) option \<Rightarrow> bool" where
  "returns_within n sent r \<longleftrightarrow> (\<exists>sent' res. r = Some (sent', res) \<and> length sent' \<le> length sent + n)"

lemma after_step_returns:
  assumes "length (fst m) \<le> length sent + k" "\<And>x sent1. returns_within n sent1 (f x sent1)"
  shows "returns_within (k + n) sent (after_step m f)"
proof (cases m)
  case (Pair s r)
  with assms(1) show ?thesis
    using assms(2) [where ?sent1.0 = s] by (cases r) (fastforce simp: returns_within_def)+
qed

text \<open>
  C22. Against a server that counts its pages the initialization of a project always returns, whatever the server answers
  otherwise: it sends at most six requests and one for each further page of members.
\<close>

theorem InitializeProject_returns:
  assumes "members_paged N sv"
  shows "\<exists>sent' res. InitializeProject c sv user sent = Some (sent', res) \<and> length sent' \<le> length sent + (6 + nat (N - 1))"
proof (cases rule: linked_cases [where user = user and c = c])
  case unlinked
  then show ?thesis by (simp add: InitializeProject_unlinked)
next
  case (linked uid login name)
  have tail: "returns_within (nat (N - 1) + 2) sent3
      (case find_member sv project uid 0 sent3 of None \<Rightarrow> None
       | Some found \<Rightarrow> after_step found (\<lambda>is_member sent.
           if is_member then Some (sent, Ret ()) else Some (add_member sv project uid sent)))" for project sent3
  proof -
    obtain s r where f: "find_member sv project uid 0 sent3 = Some (s, r)" "length s \<le> length sent3 + (nat (N - 1) + 1)"
      using find_member_returns [OF assms, of project uid 0 sent3] by auto
    have "returns_within ((nat (N - 1) + 1) + 1) sent3 (after_step (s, r) (\<lambda>is_member sent.
           if is_member then Some (sent, Ret ()) else Some (add_member sv project uid sent)))"
      using f(2) by (intro after_step_returns) (simp_all add: returns_within_def add_member_def Let_def)
    with f(1) show ?thesis by simp
  qed
  have "returns_within (2 + (1 + (1 + (nat (N - 1) + 2)))) sent (InitializeProject c sv user sent)"
    unfolding InitializeProject_linked [OF linked(1,3)]
    using step_lengths by (intro after_step_returns tail) auto
  moreover have "2 + (1 + (1 + (k + 2))) = 6 + (k :: nat)" for k by simp
  ultimately show ?thesis by (simp only: returns_within_def)
qed

section \<open>Retries\<close>

text \<open>The projects that the server created under a name, the newest first.\<close>

fun created_projects :: "server \<Rightarrow> string \<Rightarrow> requests \<Rightarrow> int list" where
  "created_projects sv name [] = []"
| "created_projects sv name (CreateProject n ns ci # past) =
     (case svCreateProject sv (CreateProject n ns ci # past) of
        Inr project \<Rightarrow> if n = name then project # created_projects sv name past else created_projects sv name past
      | Inl e \<Rightarrow> created_projects sv name past)"
| "created_projects sv name (_ # past) = created_projects sv name past"

text \<open>What GitLab promises of a project that it has created: its path leads to it, and to no other.\<close>

definition finds_created :: "Client \<Rightarrow> server \<Rightarrow> string \<Rightarrow> bool" where
  "finds_created c sv name \<longleftrightarrow>
     (\<forall>past project. project \<in> set (created_projects sv name past) \<longrightarrow>
        (case svGetProject sv (GetProject (project_path c name) # past) of
           NoResponse e \<Rightarrow> True
         | Response st res \<Rightarrow> st \<noteq> 404 \<and> (\<forall>q. res = Inr q \<longrightarrow> q = project)))"

text \<open>
  The logs of the server: attempts to initialize projects, of any students and in any order, with the other requests of the
  program between them.
\<close>

inductive gitlab_log :: "Client \<Rightarrow> server \<Rightarrow> requests \<Rightarrow> bool" for c sv where
  start: "gitlab_log c sv []"
| attempt: "gitlab_log c sv sent \<Longrightarrow> InitializeProject c sv user sent = Some (sent', res) \<Longrightarrow> gitlab_log c sv sent'"
| pipelines: "gitlab_log c sv sent \<Longrightarrow> r \<in> {GetPipeline path i, ListGroupProjects gid page, ListProjectPipelines project page} \<Longrightarrow>
     gitlab_log c sv (r # sent)"

lemma created_projects_later_steps [simp]:
  "created_projects sv name (fst (create_readme c sv project sent)) = created_projects sv name sent"
  "created_projects sv name (fst (protect_master sv project sent)) = created_projects sv name sent"
  "created_projects sv name (fst (add_member sv project uid sent)) = created_projects sv name sent"
  by (auto simp: create_readme_def protect_master_def add_member_def Let_def split: option.split)

lemma created_projects_find_member:
  "find_member sv project uid page sent = Some r \<Longrightarrow> created_projects sv name (fst r) = created_projects sv name sent"
proof (induction sv project uid page sent r rule: find_member_induct)
  case (step f sv project uid page sent r)
  show ?case
  proof (cases "svListMembers sv (ListMembers project page # sent)")
    case (Inl e)
    with step(2) show ?thesis by (auto simp: Let_def)
  next
    case (Inr pg)
    show ?thesis
    proof (cases "uid \<in> set (pgItems pg) \<or> pgTotal pg \<le> pgCurrent pg")
      case True
      with Inr step(2) show ?thesis by (auto simp: Let_def split: if_splits)
    next
      case False
      with Inr step(2) have "f sv project uid (pgNext pg) (ListMembers project page # sent) = Some r" by (simp add: Let_def)
      from step(1) [OF this] show ?thesis by simp
    qed
  qed
qed

lemma created_projects_find_or_create:
  assumes "finds_created c sv name"
  shows "created_projects sv name (fst (find_or_create c sv name' sent)) = created_projects sv name sent
    \<or> (created_projects sv name sent = [] \<and> (\<exists>project. created_projects sv name (fst (find_or_create c sv name' sent)) = [project]))"
proof (cases "name' = name \<and> created_projects sv name sent \<noteq> []")
  case True
  then obtain p where "p \<in> set (created_projects sv name sent)" by (metis list.set_intros(1) neq_Nil_conv)
  with assms have "case svGetProject sv (GetProject (project_path c name) # sent) of
      NoResponse e \<Rightarrow> True | Response st res \<Rightarrow> st \<noteq> 404 \<and> (\<forall>q. res = Inr q \<longrightarrow> q = p)"
    by (auto simp: finds_created_def)
  with True show ?thesis
    by (auto simp: find_or_create_def Let_def project_path_def split: project_answer.splits sum.splits)
next
  case False
  then show ?thesis
    by (auto simp: find_or_create_def Let_def split: project_answer.splits sum.splits)
qed

lemma created_projects_after_step:
  assumes "after_step m f = Some (sent', res)"
    and "\<And>x s. f x s = Some (sent', res) \<Longrightarrow> created_projects sv name sent' = created_projects sv name s"
  shows "created_projects sv name sent' = created_projects sv name (fst m)"
  using assms by (cases m; cases "snd m") auto

lemma created_projects_InitializeProject:
  assumes "InitializeProject c sv user sent = Some (sent', res)" "finds_created c sv name"
  shows "created_projects sv name sent' = created_projects sv name sent
    \<or> (created_projects sv name sent = [] \<and> (\<exists>project. created_projects sv name sent' = [project]))"
proof (cases rule: linked_cases [where user = user and c = c])
  case unlinked
  with assms show ?thesis by (simp add: InitializeProject_unlinked)
next
  case (linked uid login name')
  have "created_projects sv name sent' = created_projects sv name (fst (find_or_create c sv name' sent))"
  proof (rule created_projects_after_step [OF assms(1) [unfolded InitializeProject_linked [OF linked(1,3)]]], goal_cases)
    case (1 project s1)
    have "created_projects sv name sent' = created_projects sv name (fst (create_readme c sv project s1))"
    proof (rule created_projects_after_step [OF 1], goal_cases)
      case (1 u s2)
      have "created_projects sv name sent' = created_projects sv name (fst (protect_master sv project s2))"
      proof (rule created_projects_after_step [OF 1], goal_cases)
        case (1 v s3)
        then obtain found where f: "find_member sv project uid 0 s3 = Some found" by (auto split: option.splits)
        have "created_projects sv name sent' = created_projects sv name (fst found)"
        proof (rule created_projects_after_step [OF 1 [unfolded f option.case]], goal_cases)
          case (1 b s4)
          then show ?case using created_projects_later_steps(3) [of sv name project uid s4] by (cases b) auto
        qed
        with created_projects_find_member [OF f] show ?case by simp
      qed
      then show ?case by simp
    qed
    then show ?case by simp
  qed
  with created_projects_find_or_create [OF assms(2)] show ?thesis by metis
qed

text \<open>
  C21. However often and in whatever order initializations are retried after failures, at most one project is ever created
  under a name, provided that GitLab finds the projects that it has created.
\<close>

theorem project_created_once:
  assumes "gitlab_log c sv sent" "finds_created c sv name"
  shows "length (created_projects sv name sent) \<le> 1"
  using assms(1)
proof induction
  case (attempt sent user sent' res)
  then show ?case using created_projects_InitializeProject [OF attempt(2) assms(2)] by auto
next
  case (pipelines sent r path i gid page project)
  then show ?case by auto
qed simp

section \<open>A sample server\<close>

text \<open>
  It keeps its projects in the log, refuses the second README and the second protection, lists one page with the members
  it was told to add, and loses the very first request to create a project.
\<close>

definition sample_client :: Client where
  "sample_client =
     \<lparr>clConfig = \<lparr>glBaseURL = ''https://gitlab'', glGroupName = ''hw'', glGroupID = 7, glDefaultReadme = ''hi'',
        glTaskUrlPrefix = ''https://tasks'', glCIConfigPath = ''ci.yml''\<rparr>,
      clTranslit = id\<rparr>"

fun is_create :: "gl_request \<Rightarrow> bool" where
  "is_create (CreateProject n ns ci) = True"
| "is_create _ = False"

definition sample_server :: server where
  "sample_server =
     \<lparr>svGetProject = (\<lambda>l. if length (filter is_create l) \<le> 1 then Response 404 (Inl (ErrorResponse ''404''))
                         else Response 200 (Inr 5)),
      svCreateProject = (\<lambda>l. if length (filter is_create l) \<le> 1 then Inl (OtherError ''timeout'') else Inr 5),
      svCreateReadme = (\<lambda>l. if length (filter (\<lambda>r. r = CreateReadme 5 ''hi'') l) \<le> 1 then None else Some readme_exists),
      svProtectMaster = (\<lambda>l. None),
      svListMembers = (\<lambda>l. case l of
           ListMembers project page # _ \<Rightarrow>
             Inr \<lparr>pgItems = (if AddMember 5 3 \<in> set l then [3] else []), pgCurrent = max 1 page, pgTotal = 1, pgNext = 0\<rparr>
         | _ \<Rightarrow> Inl (OtherError ''bad request'')),
      svAddMember = (\<lambda>l. None),
      svGetPipeline = (\<lambda>l. Inl (OtherError ''404'')),
      svListGroupProjects = (\<lambda>l. Inl (OtherError ''404'')),
      svListProjectPipelines = (\<lambda>l. Inl (OtherError ''404''))\<rparr>"

definition linked_user :: "int \<Rightarrow> string \<Rightarrow> string \<Rightarrow> string \<Rightarrow> User" where
  "linked_user gid login first_name last_name =
     \<lparr>mID = 1, mDeletedAt = None, usGitlabID = Some gid, usGitlabLogin = Some login, usRepository = None,
      usFirstName = first_name, usLastName = last_name, usGroupName = ''g'', usTelegramID = None, usHasRetake = False\<rparr>"

lemma sample_answers:
  "svGetProject sample_server l =
     (if length (filter is_create l) \<le> 1 then Response 404 (Inl (ErrorResponse ''404'')) else Response 200 (Inr 5))"
  "svCreateProject sample_server l = (if length (filter is_create l) \<le> 1 then Inl (OtherError ''timeout'') else Inr 5)"
  "svCreateReadme sample_server l =
     (if length (filter (\<lambda>r. r = CreateReadme 5 ''hi'') l) \<le> 1 then None else Some readme_exists)"
  "svProtectMaster sample_server l = None"
  "svListMembers sample_server (ListMembers project page # past) =
     Inr \<lparr>pgItems = (if AddMember 5 3 \<in> set past then [3] else []), pgCurrent = max 1 page, pgTotal = 1, pgNext = 0\<rparr>"
  "svAddMember sample_server l = None"
  by (simp_all add: sample_server_def)

definition sample_name :: string where
  "sample_name = ''g-'' @ cleanupName sample_client ''A-n'' @ ''-'' @ cleanupName sample_client ''B'' @ ''-ab''"

lemma sample_MakeProjectName: "MakeProjectName sample_client (linked_user 3 ''ab'' ''A-n'' ''B'') = Ret sample_name"
  by (simp add: MakeProjectName_def linked_user_def sample_name_def cleanupLogin_def ReplaceAll_def)

definition first_attempt :: requests where
  "first_attempt = [CreateProject sample_name 7 ''ci.yml'', GetProject (''hw/'' @ sample_name)]"

definition second_attempt :: requests where
  "second_attempt =
     [AddMember 5 3, ListMembers 5 0, ProtectMaster 5, CreateReadme 5 ''hi'', CreateProject sample_name 7 ''ci.yml'',
      GetProject (''hw/'' @ sample_name)] @ first_attempt"

lemma sample_InitializeProject:
  "InitializeProject sample_client sv (linked_user 3 ''ab'' ''A-n'' ''B'') sent =
     after_step (find_or_create sample_client sv sample_name sent) (\<lambda>project sent.
     after_step (create_readme sample_client sv project sent) (\<lambda>_ sent.
     after_step (protect_master sv project sent) (\<lambda>_ sent.
     case find_member sv project 3 0 sent of
       None \<Rightarrow> None
     | Some found \<Rightarrow>
         after_step found (\<lambda>is_member sent.
         if is_member then Some (sent, Ret ()) else Some (add_member sv project 3 sent)))))"
  by (rule InitializeProject_linked [OF _ sample_MakeProjectName]) (simp add: linked_user_def)

lemmas sample_steps =
  find_or_create_def create_readme_def protect_master_def add_member_def find_member.simps Let_def
  sample_answers sample_client_def first_attempt_def second_attempt_def gl_err_def

lemma sample_first_attempt:
  "InitializeProject sample_client sample_server (linked_user 3 ''ab'' ''A-n'' ''B'') [] =
     Some (first_attempt, Fail (Wrap ''Failed to create project'' (External ''timeout'')))"
  unfolding sample_InitializeProject by (simp add: sample_steps)

lemma sample_second_attempt:
  "InitializeProject sample_client sample_server (linked_user 3 ''ab'' ''A-n'' ''B'') first_attempt = Some (second_attempt, Ret ())"
  unfolding sample_InitializeProject by (simp add: sample_steps)

lemma sample_paged: "members_paged 1 sample_server"
  by (auto simp: members_paged_def well_paged_def sample_answers)

lemma created_is_create: "created_projects sample_server name l \<noteq> [] \<Longrightarrow> 2 \<le> length (filter is_create l)"
  by (induction sample_server name l rule: created_projects.induct) (auto simp: sample_answers Suc_le_eq split: if_splits)

lemma created_is_5: "project \<in> set (created_projects sample_server name l) \<Longrightarrow> project = 5"
  by (induction sample_server name l rule: created_projects.induct) (auto simp: sample_answers split: if_splits)

lemma sample_finds_created: "finds_created sample_client sample_server name"
  unfolding finds_created_def
proof (intro allI impI)
  fix past project
  assume p: "project \<in> set (created_projects sample_server name past)"
  then have "created_projects sample_server name past \<noteq> []" by auto
  then have "2 \<le> length (filter is_create past)" by (rule created_is_create)
  with created_is_5 [OF p] show "case svGetProject sample_server (GetProject (project_path sample_client name) # past) of
      NoResponse e \<Rightarrow> True | Response st res \<Rightarrow> st \<noteq> 404 \<and> (\<forall>q. res = Inr q \<longrightarrow> q = project)"
    by (simp add: sample_answers)
qed


lemma InitializeProject_correct_witness:
  "reported sample_server first_attempt = Some (Wrap ''Failed to create project'' (External ''timeout''))
   \<and> (\<exists>project. project_exists sample_client sample_server sample_name project first_attempt second_attempt
        \<and> master_protected sample_server project first_attempt second_attempt)"
proof -
  have "reported sample_server first_attempt = Some (Wrap ''Failed to create project'' (External ''timeout''))"
    using InitializeProject_correct [OF sample_first_attempt] by (simp add: linked_user_def)
  moreover have "\<exists>project. project_exists sample_client sample_server sample_name project first_attempt second_attempt
        \<and> master_protected sample_server project first_attempt second_attempt"
    using InitializeProject_correct [OF sample_second_attempt] sample_MakeProjectName by auto
  ultimately show ?thesis ..
qed

lemma InitializeProject_returns_witness:
  "\<exists>sent' res. InitializeProject sample_client sample_server (linked_user 3 ''ab'' ''A-n'' ''B'') [] = Some (sent', res)
     \<and> length sent' \<le> 6"
  using InitializeProject_returns [OF sample_paged, of sample_client "linked_user 3 ''ab'' ''A-n'' ''B''" "[]"] by simp

lemma project_created_once_witness:
  "length (created_projects sample_server sample_name second_attempt) \<le> 1"
proof (rule project_created_once [OF _ sample_finds_created])
  show "gitlab_log sample_client sample_server second_attempt"
    by (rule gitlab_log.attempt [OF gitlab_log.attempt [OF gitlab_log.start sample_first_attempt] sample_second_attempt])
qed

definition sample_pushed :: Pipeline where
  "sample_pushed = \<lparr>plID = 1, plProject = ''g-A-B-ab'', plTask = ''sum'', plStatus = ''success'', plStartedAt = 0\<rparr>"

lemma ParseTaskFromBranch_roundtrip_witness:
  "ParseTaskFromBranch ''submits/sum'' = ''sum''
   \<and> (\<exists>pre. MakeBranchURL sample_client (linked_user 3 ''ab'' ''A'' ''B'') sample_pushed = Ret (pre @ ''submits/sum''))"
proof -
  have p: "\<not> has_prefix tasksPrefix ''sum''" by (simp add: tasksPrefix_def)
  obtain url where u: "MakeBranchURL sample_client (linked_user 3 ''ab'' ''A'' ''B'') sample_pushed = Ret url"
    by (simp add: MakeBranchURL_def MakeProjectName_def linked_user_def Let_def)
  note r = ParseTaskFromBranch_roundtrip [of "''sum''" sample_client "linked_user 3 ''ab'' ''A'' ''B''" sample_pushed url]
  from r p have "ParseTaskFromBranch (branchPrefix @ ''sum'') = ''sum''" by blast
  then have "ParseTaskFromBranch ''submits/sum'' = ''sum''" by (simp add: branchPrefix_def)
  moreover from r u have "\<exists>pre. url = pre @ branchPrefix @ ''sum''" by (auto simp: sample_pushed_def)
  ultimately show ?thesis using u by (auto simp: branchPrefix_def)
qed

end
