(* ===== verification/PipelinesSpec.thy ===== *)
theory PipelinesSpec
  imports Pipelines GitlabSpec
begin

text \<open>
  What the pipelines fetcher guarantees: after a pass the database holds every pipeline that GitLab has listed and no
  other than it held before or GitLab has listed; the pass ends; and an entry of the fresh map goes
  away exactly when its pipeline was fetched and is no longer running. The locale \<open>page_loop\<close> is the interface of the
  two nested loops over pages: what holds of log and database after each page holds after the pass.
\<close>

section \<open>The loops over pages\<close>

definition group_lists :: "Client \<Rightarrow> server \<Rightarrow> requests \<Rightarrow> requests \<Rightarrow> int \<times> string \<Rightarrow> bool" where
  "group_lists c sv old new project \<longleftrightarrow>
     (\<exists>page. answered old new (ListGroupProjects (glGroupID (clConfig c)) page)
        (\<lambda>l. \<exists>pg. svListGroupProjects sv l = Inr pg \<and> project \<in> set (pgItems pg)))"

definition project_lists :: "server \<Rightarrow> requests \<Rightarrow> requests \<Rightarrow> int \<Rightarrow> PipelineInfo \<Rightarrow> bool" where
  "project_lists sv old new pid info \<longleftrightarrow>
     (\<exists>page. answered old new (ListProjectPipelines pid page)
        (\<lambda>l. \<exists>pg. svListProjectPipelines sv l = Inr pg \<and> info \<in> set (pgItems pg)))"

lemma lists_mono:
  assumes "suffix new new'"
  shows "group_lists c sv old new project \<Longrightarrow> group_lists c sv old new' project"
    and "project_lists sv old new pid info \<Longrightarrow> project_lists sv old new' pid info"
  using assms unfolding group_lists_def project_lists_def by (blast intro: answered_mono)+

locale page_loop =
  fixes c :: Client and sv :: server and d :: driver and old :: requests and I :: "world \<Rightarrow> bool"
  assumes grown: "I w \<Longrightarrow> suffix old (fst w)"
    and group_page: "I w \<Longrightarrow> I (ListGroupProjects gid page # fst w, snd w)"
    and no_page: "I w \<Longrightarrow> svListProjectPipelines sv (ListProjectPipelines pid page # fst w) = Inl e \<Longrightarrow>
      I (ListProjectPipelines pid page # fst w, snd w)"
    and pipelines_page: "I w \<Longrightarrow> group_lists c sv old (fst w) project \<Longrightarrow>
      svListProjectPipelines sv (ListProjectPipelines (fst project) page # fst w) = Inr pg \<Longrightarrow>
      add_listed d (snd project) (pgItems pg) (snd w) = (db, Ret ()) \<Longrightarrow>
      I (ListProjectPipelines (fst project) page # fst w, db)"
begin

lemmas project_induct = project_pipelines.raw_induct [rotated, consumes 1, case_names step]
lemmas forEach_induct = forEachProject.raw_induct [rotated, consumes 1, case_names step]

lemma add_listed_no_Fail: "add_listed d name ps db \<noteq> (db', Fail e)"
  by (induction d name ps db rule: add_listed.induct) (auto split: prod.splits outcome.splits)

text \<open>The postcondition of a step of a loop: unless the program has crashed, \<open>I\<close> holds and the log has grown.\<close>

definition keeps :: "world \<Rightarrow> world \<times> unit outcome \<Rightarrow> bool" where
  "keeps w r \<longleftrightarrow> (\<nexists>m. snd r = Panic m) \<longrightarrow> I (fst r) \<and> suffix (fst w) (fst (fst r))"

lemma keeps_trans: "keeps w' r \<Longrightarrow> suffix (fst w) (fst w') \<Longrightarrow> keeps w r"
  unfolding keeps_def by (meson suffix_order.trans)

lemma project_pipelines_keeps_aux:
  assumes "project_pipelines sv' d' project page w = Some r" "sv' = sv" "d' = d" "I w" "group_lists c sv old (fst w) project"
  shows "keeps w r"
  using assms
proof (induction sv' d' project page w r rule: project_induct)
  case (step f sv' d' project page w r)
  let ?sent = "ListProjectPipelines (fst project) page # fst w"
  show ?case
  proof (cases "svListProjectPipelines sv ?sent")
    case (Inl e)
    with step no_page [OF step(5) Inl] show ?thesis by (auto simp: keeps_def suffix_Cons Let_def)
  next
    case (Inr pg)
    obtain db res where add: "add_listed d (snd project) (pgItems pg) (snd w) = (db, res)" by fastforce
    show ?thesis
    proof (cases res)
      case (Panic m)
      with step(2-4) Inr add show ?thesis by (auto simp: keeps_def Let_def)
    next
      case (Fail e)
      with add add_listed_no_Fail show ?thesis by blast
    next
      case (Ret u)
      with add have kept: "I (?sent, db)" using pipelines_page [OF step(5,6) Inr] by simp
      show ?thesis
      proof (cases "pgTotal pg \<le> pgCurrent pg")
        case True
        with step(2-4) Inr add Ret kept show ?thesis by (auto simp: keeps_def suffix_Cons Let_def)
      next
        case False
        with step(2-4) Inr add Ret have "f sv' d' project (pgNext pg) (?sent, db) = Some r" by (simp add: Let_def)
        from step(1) [OF this step(3,4) kept] lists_mono(1) [OF _ step(6)] have "keeps (?sent, db) r"
          by (auto simp: suffix_Cons)
        then show ?thesis by (rule keeps_trans) (simp add: suffix_Cons)
      qed
    qed
  qed
qed

lemmas project_pipelines_keeps = project_pipelines_keeps_aux [OF _ refl refl]

lemma each_project_keeps:
  assumes "each_project (\<lambda>project. project_pipelines sv d project 0) projects w = Some r" "I w"
    and "\<And>project. project \<in> set projects \<Longrightarrow> group_lists c sv old (fst w) project"
  shows "keeps w r"
  using assms
proof (induction projects arbitrary: w)
  case Nil
  then show ?case by (auto simp: keeps_def)
next
  case (Cons project projects)
  then obtain w' res where p: "project_pipelines sv d project 0 w = Some (w', res)" by (auto split: option.splits)
  have "group_lists c sv old (fst w) project" using Cons.prems(3) by simp
  from project_pipelines_keeps [OF p Cons.prems(2) this] have k: "keeps w (w', res)" .
  show ?case
  proof (cases res)
    case (Ret u)
    with k have w': "I w'" "suffix (fst w) (fst w')" by (simp_all add: keeps_def)
    with Cons.prems p Ret have "keeps w' r" by (intro Cons.IH) (auto intro: lists_mono)
    then show ?thesis using w'(2) by (rule keeps_trans)
  qed (use Cons.prems p k in auto)
qed

lemma forEachProject_keeps_aux:
  assumes "forEachProject c' sv' callback page w = Some r" "c' = c" "sv' = sv"
    "callback = (\<lambda>project. project_pipelines sv d project 0)" "I w"
  shows "keeps w r"
  using assms
proof (induction c' sv' callback page w r rule: forEach_induct)
  case (step f c' sv' callback page w r)
  let ?g = "ListGroupProjects (glGroupID (clConfig c)) page"
  have I1: "I (?g # fst w, snd w)" using group_page [OF step(6)] .
  show ?case
  proof (cases "svListGroupProjects sv (?g # fst w)")
    case (Inl e)
    with step(2-5) I1 show ?thesis by (auto simp: keeps_def suffix_Cons Let_def)
  next
    case (Inr pg)
    then have listed: "group_lists c sv old (?g # fst w) project" if "project \<in> set (pgItems pg)" for project
      unfolding group_lists_def using that grown [OF step(6)] by (intro exI [of _ page] answered_last) auto
    show ?thesis
    proof (cases "each_project callback (pgItems pg) (?g # fst w, snd w)")
      case None
      with step(2-5) Inr show ?thesis by (simp add: Let_def)
    next
      case (Some q)
      then obtain w' res where q: "each_project callback (pgItems pg) (?g # fst w, snd w) = Some (w', res)" by (cases q) auto
      with step(5) I1 listed have k: "keeps (?g # fst w, snd w) (w', res)" by (intro each_project_keeps) auto
      then have k': "keeps w (w', res)" by (rule keeps_trans) (simp add: suffix_Cons)
      show ?thesis
      proof (cases res)
        case (Ret u)
        with k' have w': "I w'" "suffix (fst w) (fst w')" by (simp_all add: keeps_def)
        show ?thesis
        proof (cases "pgTotal pg \<le> pgCurrent pg")
          case True
          with step(2-5) Inr q Ret k' show ?thesis by (auto simp: Let_def)
        next
          case False
          with step(2-5) Inr q Ret have "f c' sv' callback (pgNext pg) w' = Some r" by (simp add: Let_def)
          from step(1) [OF this step(3-5) w'(1)] w'(2) show ?thesis by (rule keeps_trans)
        qed
      qed (use step(2-5) Inr q k' in \<open>auto simp: Let_def\<close>)
    qed
  qed
qed

lemma fetchAllPipelines_keeps:
  assumes "fetchAllPipelines c sv d w = Some (w', Ret ())" "I w"
  shows "I w' \<and> suffix (fst w) (fst w')"
proof -
  from assms(1) obtain res where r: "forEachProject c sv (\<lambda>project. project_pipelines sv d project 0) 0 w = Some (w', res)"
    and ok: "\<nexists>m. res = Panic m"
    by (auto simp: fetchAllPipelines_def split: outcome.splits) (metis (full_types) outcome.exhaust unit.exhaust)
  from forEachProject_keeps_aux [OF r refl refl refl assms(2)] ok show ?thesis by (simp add: keeps_def)
qed

end

section \<open>Where the pipelines of the database come from\<close>

text \<open>
  A row is explained by the rows that were there before and by listed pipelines: it was there before with the same data,
  or has the data of a listed pipeline; and it is as it was before, or has the status of a listed one.
\<close>

definition explained :: "(string \<times> PipelineInfo \<Rightarrow> bool) \<Rightarrow> Pipeline list \<Rightarrow> Pipeline \<Rightarrow> bool" where
  "explained L rows p \<longleftrightarrow>
     ((\<exists>q \<in> set rows. pipeline_later q p)
      \<or> (\<exists>name info. L (name, info) \<and> plProject p = name \<and> plTask p = ParseTaskFromBranch (piRef info)
           \<and> piCreatedAt info = Some (plStartedAt p) \<and> (piID info \<noteq> 0 \<longrightarrow> plID p = piID info)))
     \<and> (p \<in> set rows \<or> (\<exists>name info. L (name, info) \<and> plStatus p = piStatus info \<and> (piID info \<noteq> 0 \<longrightarrow> plID p = piID info)))"

lemma explained_refl: "p \<in> set rows \<Longrightarrow> explained L rows p"
  using pipeline_order.refl by (auto simp: explained_def)

lemma explained_mono: "explained L rows p \<Longrightarrow> (\<And>x. L x \<Longrightarrow> M x) \<Longrightarrow> explained M rows p"
  by (auto simp: explained_def)

lemma pipeline_later_iff:
  "pipeline_later q p \<longleftrightarrow> plID p = plID q \<and> plProject p = plProject q \<and> plTask p = plTask q \<and> plStartedAt p = plStartedAt q"
  by (cases p; cases q) (auto simp: pipeline_later_def)

lemma explained_trans:
  assumes "\<And>q. q \<in> set rows1 \<Longrightarrow> explained L rows q" "explained L rows1 p"
  shows "explained L rows p"
  using assms(2) unfolding explained_def [of L rows1]
proof (elim conjE disjE bexE, goal_cases)
  case (1 q)
  with assms(1) [of q] assms(1) [of p] show ?case by (auto simp: explained_def pipeline_later_iff)
next
  case (2 q)
  with assms(1) [of q] show ?case by (auto simp: explained_def pipeline_later_iff)
next
  case 3
  with assms(1) [of p] show ?case by (auto simp: explained_def)
next
  case 4
  then show ?case by (auto simp: explained_def)
qed

text \<open>A driver whose insertions of pipelines never fail.\<close>

definition stores_pipelines :: "driver \<Rightarrow> bool" where
  "stores_pipelines d \<longleftrightarrow> (\<forall>p db. snd (AddPipeline d p db) = Ret ())"

definition only_pipelines :: "DB \<Rightarrow> DB \<Rightarrow> bool" where
  "only_pipelines db db' \<longleftrightarrow> db' = db\<lparr>dbPipelines := dbPipelines db'\<rparr>"

lemma only_pipelines_trans: "only_pipelines db db1 \<Longrightarrow> only_pipelines db1 db2 \<Longrightarrow> only_pipelines db db2"
  by (cases db; cases db1; cases db2) (simp add: only_pipelines_def)

lemma AddPipeline_rows:
  assumes "lawful_driver d" "AddPipeline d p db = (db', res)"
  shows "only_pipelines db db'
    \<and> (\<forall>q \<in> set (dbPipelines db'). (\<exists>r \<in> set (dbPipelines db). q = r) \<or> (\<exists>r \<in> set (dbPipelines db). plID r = plID p \<and> q = r\<lparr>plStatus := plStatus p\<rparr>)
          \<or> stored_pipeline p q)
    \<and> (res = Ret () \<longrightarrow> plID p \<noteq> 0 \<longrightarrow> (\<exists>q \<in> set (dbPipelines db'). plID q = plID p))"
proof (cases "sqUpsert (drPipelines d) (\<lambda>p r. plID p = plID r) (\<lambda>p r. r\<lparr>plStatus := plStatus p\<rparr>) p (dbPipelines db)")
  case (Inl e)
  with assms show ?thesis by (auto simp: AddPipeline_def only_pipelines_def)
next
  case (Inr xr)
  then obtain x rows where u: "sqUpsert (drPipelines d) (\<lambda>p r. plID p = plID r) (\<lambda>p r. r\<lparr>plStatus := plStatus p\<rparr>) p (dbPipelines db) = Inr (x, rows)"
    by (cases xr) auto
  with assms have db': "db' = db\<lparr>dbPipelines := rows\<rparr>" by (simp add: AddPipeline_def)
  note law = lawful_upsertD [OF lawful_driverD(2) [OF assms(1)] u]
  show ?thesis
  proof (cases "\<exists>r \<in> set (dbPipelines db). plID p = plID r")
    case True
    then obtain r where r: "r \<in> set (dbPipelines db)" "plID p = plID r" by blast
    from True law have rows: "rows = map (\<lambda>r. if plID p = plID r then r\<lparr>plStatus := plStatus p\<rparr> else r) (dbPipelines db)" by simp
    have "r\<lparr>plStatus := plStatus p\<rparr> \<in> set rows" using r by (auto simp: rows intro!: rev_image_eqI [of r])
    then have "\<exists>q \<in> set rows. plID q = plID p" using r(2) by (intro bexI) simp_all
    then show ?thesis by (auto simp: db' rows only_pipelines_def)
  next
    case False
    with law have "rows = dbPipelines db @ [x]" "stored_pipeline p x" by (simp_all only: if_False)
    then show ?thesis by (auto simp: db' only_pipelines_def stored_pipeline_def)
  qed
qed

lemma addPipeline_rows:
  assumes "lawful_driver d" "addPipeline d name info db = (db', res)"
  shows "only_pipelines db db' \<and> evolves db db'
    \<and> (\<forall>q \<in> set (dbPipelines db'). explained (\<lambda>x. x = (name, info)) (dbPipelines db) q)
    \<and> (res = Ret () \<longrightarrow> piID info \<noteq> 0 \<longrightarrow> (\<exists>q \<in> set (dbPipelines db'). plID q = piID info))"
proof (cases "piCreatedAt info")
  case None
  with assms show ?thesis by (auto simp: addPipeline_def only_pipelines_def intro: explained_refl)
next
  case (Some t)
  let ?p = "\<lparr>plID = piID info, plProject = name, plTask = ParseTaskFromBranch (piRef info), plStatus = piStatus info, plStartedAt = t\<rparr>"
  from Some assms have a: "AddPipeline d ?p db = (db', res)" by (simp add: addPipeline_def)
  note rows = AddPipeline_rows [OF assms(1) a]
  have "explained (\<lambda>x. x = (name, info)) (dbPipelines db) q" if q: "q \<in> set (dbPipelines db')" for q
  proof -
    from rows q consider (old) "q \<in> set (dbPipelines db)"
      | (upd) r where "r \<in> set (dbPipelines db)" "plID r = piID info" "q = r\<lparr>plStatus := piStatus info\<rparr>"
      | (new) "stored_pipeline ?p q" by auto
    then show ?thesis
    proof cases
      case old
      then show ?thesis by (rule explained_refl)
    next
      case upd
      then have "\<exists>r \<in> set (dbPipelines db). pipeline_later r q" by (intro bexI [of _ r]) (simp_all add: pipeline_later_iff)
      with upd show ?thesis by (simp add: explained_def)
    next
      case new
      then show ?thesis using Some by (cases q) (auto simp: explained_def stored_pipeline_def)
    qed
  qed
  with rows AddPipeline_evolves [OF assms(1), of db ?p] a show ?thesis by auto
qed

lemma add_listed_rows:
  assumes "lawful_driver d" "add_listed d name infos db = (db', Ret ())"
  shows "only_pipelines db db' \<and> evolves db db'
    \<and> (\<forall>q \<in> set (dbPipelines db'). explained (\<lambda>x. fst x = name \<and> snd x \<in> set infos) (dbPipelines db) q)
    \<and> (stores_pipelines d \<longrightarrow> (\<forall>info \<in> set infos. piID info \<noteq> 0 \<longrightarrow> (\<exists>q \<in> set (dbPipelines db'). plID q = piID info)))"
  using assms(2)
proof (induction infos arbitrary: db)
  case Nil
  then show ?case by (auto simp: only_pipelines_def intro: explained_refl)
next
  case (Cons info infos)
  obtain db1 res where a: "addPipeline d name info db = (db1, res)" by fastforce
  with Cons.prems have rest: "add_listed d name infos db1 = (db', Ret ())" and ok: "\<nexists>m. res = Panic m"
    by (auto split: outcome.splits)
  note one = addPipeline_rows [OF assms(1) a] and more = Cons.IH [OF rest]
  let ?L = "\<lambda>x. fst x = name \<and> snd x \<in> set (info # infos)"
  have "explained ?L (dbPipelines db) q" if "q \<in> set (dbPipelines db')" for q
  proof (rule explained_trans)
    show "explained ?L (dbPipelines db) r" if "r \<in> set (dbPipelines db1)" for r
      using one that by (auto intro: explained_mono)
    show "explained ?L (dbPipelines db1) q"
      using more that by (auto intro: explained_mono)
  qed
  moreover have "\<exists>q \<in> set (dbPipelines db'). plID q = piID info" if "stores_pipelines d" "piID info \<noteq> 0"
  proof -
    have "res = Ret ()" using that(1) a ok by (auto simp: addPipeline_def stores_pipelines_def split: option.splits) (metis snd_conv)+
    with one that(2) obtain q where q: "q \<in> set (dbPipelines db1)" "plID q = piID info" by auto
    from more have "extends pipeline_later (dbPipelines db1) (dbPipelines db')" by (simp add: evolves_def)
    from extends_mem [OF this q(1)] q(2) show ?thesis by (auto simp: pipeline_later_iff)
  qed
  ultimately show ?case using one more by (auto intro: only_pipelines_trans evolves_trans)
qed

section \<open>A pass\<close>

definition listed_info :: "Client \<Rightarrow> server \<Rightarrow> requests \<Rightarrow> requests \<Rightarrow> string \<times> PipelineInfo \<Rightarrow> bool" where
  "listed_info c sv old new x \<longleftrightarrow>
     (\<exists>pid. group_lists c sv old new (pid, fst x) \<and> project_lists sv old new pid (snd x))"

text \<open>The state of log and database between two pages of a pass that began with \<open>old\<close> and \<open>db\<close>.\<close>

definition passing :: "Client \<Rightarrow> server \<Rightarrow> driver \<Rightarrow> requests \<Rightarrow> DB \<Rightarrow> world \<Rightarrow> bool" where
  "passing c sv d old db w \<longleftrightarrow>
     suffix old (fst w) \<and>
     (lawful_driver d \<longrightarrow>
        only_pipelines db (snd w) \<and> evolves db (snd w)
        \<and> (\<forall>p \<in> set (dbPipelines (snd w)). explained (listed_info c sv old (fst w)) (dbPipelines db) p)
        \<and> (stores_pipelines d \<longrightarrow> (\<forall>pid info. project_lists sv old (fst w) pid info \<longrightarrow> piID info \<noteq> 0 \<longrightarrow>
             (\<exists>p \<in> set (dbPipelines (snd w)). plID p = piID info))))"

lemma listed_info_mono: "suffix new new' \<Longrightarrow> listed_info c sv old new x \<Longrightarrow> listed_info c sv old new' x"
  unfolding listed_info_def by (blast intro: lists_mono)

lemma answered_Cons:
  "answered old (r' # new) r P \<Longrightarrow> r' \<noteq> r \<or> \<not> P (r' # new) \<Longrightarrow> answered old new r P"
  unfolding answered_def by (auto simp: suffix_Cons)

lemma not_answered_yet [simp]: "\<not> answered old old r P"
  by (auto simp: answered_def dest!: suffix_length_le)

lemma project_lists_Cons:
  assumes "project_lists sv old (r # new) pid info"
    and "\<And>page pg. r = ListProjectPipelines pid page \<Longrightarrow> svListProjectPipelines sv (r # new) = Inr pg \<Longrightarrow> info \<notin> set (pgItems pg)"
  shows "project_lists sv old new pid info"
proof -
  from assms(1) obtain page where "answered old (r # new) (ListProjectPipelines pid page)
      (\<lambda>l. \<exists>pg. svListProjectPipelines sv l = Inr pg \<and> info \<in> set (pgItems pg))"
    by (auto simp: project_lists_def)
  then have "answered old new (ListProjectPipelines pid page) (\<lambda>l. \<exists>pg. svListProjectPipelines sv l = Inr pg \<and> info \<in> set (pgItems pg))"
    by (rule answered_Cons) (use assms(2) in blast)
  then show ?thesis by (auto simp: project_lists_def)
qed

lemma passing_step:
  assumes p: "passing c sv d old db w" and other: "\<And>pid info. project_lists sv old (r # fst w) pid info \<Longrightarrow> project_lists sv old (fst w) pid info"
  shows "passing c sv d old db (r # fst w, snd w)"
  using assms explained_mono listed_info_mono [of "fst w" "r # fst w" c sv old]
  unfolding passing_def by (fastforce simp: suffix_Cons)

interpretation pass: page_loop c sv d old "passing c sv d old db" for c sv d old db
proof (unfold_locales, goal_cases)
  case (1 w)
  then show ?case by (simp add: passing_def)
next
  case (2 w gid page)
  then show ?case
    by (rule passing_step) (rule project_lists_Cons, auto)
next
  case (3 w pid page e)
  show ?case
    by (rule passing_step [OF 3(1)]) (rule project_lists_Cons, use 3(2) in auto)
next
  case (4 w project page pg db')
  let ?r = "ListProjectPipelines (fst project) page"
  have old: "suffix old (fst w)" using 4(1) by (simp add: passing_def)
  have now: "project_lists sv old (?r # fst w) (fst project) info" if "info \<in> set (pgItems pg)" for info
    unfolding project_lists_def using 4(3) that old by (intro exI [of _ page] answered_last) auto
  have listed: "listed_info c sv old (?r # fst w) (snd project, info)" if "info \<in> set (pgItems pg)" for info
    unfolding listed_info_def using now [OF that] 4(2) lists_mono(1) [of "fst w" "?r # fst w"]
    by (intro exI [of _ "fst project"]) (auto simp: suffix_Cons)
  show ?case
    unfolding passing_def fst_conv snd_conv
  proof (intro conjI impI)
    show "suffix old (?r # fst w)" using old by (simp add: suffix_Cons)
    assume d: "lawful_driver d"
    note rows = add_listed_rows [OF d 4(4)]
    have w: "only_pipelines db (snd w)" "evolves db (snd w)"
      "\<And>p. p \<in> set (dbPipelines (snd w)) \<Longrightarrow> explained (listed_info c sv old (fst w)) (dbPipelines db) p"
      using 4(1) d by (auto simp: passing_def)
    show "only_pipelines db db'" using w(1) rows by (blast intro: only_pipelines_trans)
    show "evolves db db'" using w(2) rows by (blast intro: evolves_trans)
    show "\<forall>p \<in> set (dbPipelines db'). explained (listed_info c sv old (?r # fst w)) (dbPipelines db) p"
    proof (rule ballI, rule explained_trans)
      fix q assume "q \<in> set (dbPipelines (snd w))"
      from explained_mono [OF w(3) [OF this]] show "explained (listed_info c sv old (?r # fst w)) (dbPipelines db) q"
        using listed_info_mono [of "fst w" "?r # fst w"] by (simp add: suffix_Cons)
    next
      fix p assume "p \<in> set (dbPipelines db')"
      with rows have e: "explained (\<lambda>x. fst x = snd project \<and> snd x \<in> set (pgItems pg)) (dbPipelines (snd w)) p" by blast
      show "explained (listed_info c sv old (?r # fst w)) (dbPipelines (snd w)) p"
        by (rule explained_mono [OF e]) (use listed in auto)
    qed
    assume st: "stores_pipelines d"
    show "\<forall>pid info. project_lists sv old (?r # fst w) pid info \<longrightarrow> piID info \<noteq> 0 \<longrightarrow> (\<exists>p \<in> set (dbPipelines db'). plID p = piID info)"
    proof (intro allI impI)
      fix pid info assume l: "project_lists sv old (?r # fst w) pid info" and nz: "piID info \<noteq> 0"
      show "\<exists>p \<in> set (dbPipelines db'). plID p = piID info"
      proof (cases "info \<in> set (pgItems pg)")
        case True
        with rows st nz show ?thesis by blast
      next
        case False
        from l have "project_lists sv old (fst w) pid info"
          by (rule project_lists_Cons) (use 4(3) False in auto)
        with 4(1) d st nz obtain q where q: "q \<in> set (dbPipelines (snd w))" "plID q = piID info"
          unfolding passing_def by blast
        from rows have "extends pipeline_later (dbPipelines (snd w)) (dbPipelines db')" by (simp add: evolves_def)
        from extends_mem [OF this q(1)] q(2) show ?thesis by (auto simp: pipeline_later_iff)
      qed
    qed
  qed
qed

lemma fetchAllPipelines_passing:
  assumes "fetchAllPipelines c sv d (sent, db) = Some (w, Ret ())"
  shows "passing c sv d sent db w"
proof -
  have "passing c sv d sent db (sent, db)"
    by (auto simp: passing_def only_pipelines_def project_lists_def intro: explained_refl)
  from pass.fetchAllPipelines_keeps [OF assms this] show ?thesis ..
qed

lemma fetchAllPipelines_db:
  assumes "fetchAllPipelines c sv d (sent, db) = Some ((sent', db'), Ret ())" "lawful_driver d"
  shows "only_pipelines db db' \<and> evolves db db'"
  using fetchAllPipelines_passing [OF assms(1)] assms(2) by (simp add: passing_def)


section \<open>Termination of a pass\<close>

definition listings_paged :: "int \<Rightarrow> server \<Rightarrow> bool" where
  "listings_paged N sv \<longleftrightarrow>
     (\<forall>gid page past pg. svListGroupProjects sv (ListGroupProjects gid page # past) = Inr pg \<longrightarrow> well_paged N page pg)
     \<and> (\<forall>pid page past pg. svListProjectPipelines sv (ListProjectPipelines pid page # past) = Inr pg \<longrightarrow> well_paged N page pg)"

lemma well_paged_next:
  assumes "well_paged N page pg" "\<not> pgTotal pg \<le> pgCurrent pg"
  shows "nat (N - max 1 (pgNext pg)) < nat (N - max 1 page)"
  using assms by (auto simp: well_paged_def)

lemma project_pipelines_returns:
  assumes "listings_paged N sv"
  shows "project_pipelines sv d project page w \<noteq> None"
proof (induction "nat (N - max 1 page)" arbitrary: page w rule: less_induct)
  case less
  let ?sent = "ListProjectPipelines (fst project) page # fst w"
  show ?case
  proof (cases "svListProjectPipelines sv ?sent")
    case (Inl e)
    then show ?thesis by (simp add: project_pipelines.simps Let_def)
  next
    case (Inr pg)
    with assms have pg: "well_paged N page pg" by (auto simp: listings_paged_def)
    obtain db res where add: "add_listed d (snd project) (pgItems pg) (snd w) = (db, res)" by fastforce
    show ?thesis
    proof (cases "pgTotal pg \<le> pgCurrent pg")
      case True
      with Inr add show ?thesis by (subst project_pipelines.simps) (simp add: Let_def split: outcome.split)
    next
      case False
      from less [OF well_paged_next [OF pg False], of "(?sent, db)"] Inr add False show ?thesis
        by (subst project_pipelines.simps) (simp add: Let_def split: outcome.split)
    qed
  qed
qed

lemma each_project_returns:
  "(\<And>project w. callback project w \<noteq> None) \<Longrightarrow> each_project callback projects w \<noteq> None"
  by (induction projects arbitrary: w) (auto split: option.split outcome.split)

lemma forEachProject_returns:
  assumes "listings_paged N sv" "\<And>project w. callback project w \<noteq> None"
  shows "forEachProject c sv callback page w \<noteq> None"
proof (induction "nat (N - max 1 page)" arbitrary: page w rule: less_induct)
  case less
  let ?sent = "ListGroupProjects (glGroupID (clConfig c)) page # fst w"
  show ?case
  proof (cases "svListGroupProjects sv ?sent")
    case (Inl e)
    then show ?thesis by (simp add: forEachProject.simps Let_def)
  next
    case (Inr pg)
    with assms(1) have pg: "well_paged N page pg" by (auto simp: listings_paged_def)
    obtain w' res where each: "each_project callback (pgItems pg) (?sent, snd w) = Some (w', res)"
      using each_project_returns [of callback, OF assms(2)] by (metis not_None_eq surj_pair)
    show ?thesis
    proof (cases "pgTotal pg \<le> pgCurrent pg")
      case True
      with Inr each show ?thesis by (subst forEachProject.simps) (simp add: Let_def split: outcome.split)
    next
      case False
      from less [OF well_paged_next [OF pg False], of w'] Inr each False show ?thesis
        by (subst forEachProject.simps) (simp add: Let_def split: outcome.split)
    qed
  qed
qed

text \<open>
  C24. Against a server that counts its pages every pass ends, whatever the pages hold, however often the server or the
  database fails in between.
\<close>

theorem fetchAllPipelines_returns:
  assumes "listings_paged N sv"
  shows "\<exists>w' res. fetchAllPipelines c sv d w = Some (w', res)"
proof -
  have "forEachProject c sv (\<lambda>project. project_pipelines sv d project 0) 0 w \<noteq> None"
    by (rule forEachProject_returns [OF assms project_pipelines_returns [OF assms]])
  then show ?thesis by (auto simp: fetchAllPipelines_def)
qed

section \<open>Fresh pipelines\<close>

lemma fetch_pipeline_sent: "fst (fst (fetch_pipeline c sv d i project w)) = GetPipeline (MakeProjectWithNamespace c project) i # fst w"
  by (simp add: fetch_pipeline_def Let_def split: sum.split prod.split)

text \<open>A pipeline that was polled in this round and is not running any more.\<close>

definition seen_over :: "Client \<Rightarrow> server \<Rightarrow> requests \<Rightarrow> requests \<Rightarrow> string \<times> int \<Rightarrow> bool" where
  "seen_over c sv old new q \<longleftrightarrow>
     answered old new (GetPipeline (MakeProjectWithNamespace c (fst q)) (snd q))
       (\<lambda>l. \<exists>info. svGetPipeline sv l = Inr info \<and> piStatus info \<noteq> PipelineStatusRunning)"

lemma seen_over_mono: "seen_over c sv mid new q \<Longrightarrow> suffix old mid \<Longrightarrow> seen_over c sv old new q"
  unfolding seen_over_def by (auto intro: answered_mono)

lemma fetch_pipeline_Ret:
  assumes "fetch_pipeline c sv d i project w = (w', Ret info)"
  shows "svGetPipeline sv (fst w') = Inr info"
  using assms by (auto simp: fetch_pipeline_def Let_def split: sum.splits prod.splits)

lemma visit_fresh_grows: "visit_fresh c sv d visited w = (w', res) \<Longrightarrow> suffix (fst w) (fst w')"
proof (induction visited arbitrary: w w' res)
  case (Cons v visited)
  obtain ptr project i where v: "v = (ptr, (project, i))" by (cases v) auto
  obtain w1 r where f: "fetch_pipeline c sv d i project w = (w1, r)" by fastforce
  then have "suffix (fst w) (fst w1)" using fetch_pipeline_sent [of c sv d i project w] by (simp add: suffix_Cons)
  moreover have "suffix (fst w1) (fst w')"
    using Cons.prems Cons.IH [of w1] v f by (cases r) (auto split: prod.splits)
  ultimately show ?case by (rule suffix_order.trans)
qed simp

lemma visit_fresh_db:
  assumes "lawful_driver d" "visit_fresh c sv d visited w = (w', res)"
  shows "only_pipelines (snd w) (snd w') \<and> evolves (snd w) (snd w')"
  using assms(2)
proof (induction visited arbitrary: w w' res)
  case (Cons v visited)
  obtain ptr project i where v: "v = (ptr, (project, i))" by (cases v) auto
  obtain w1 r where f: "fetch_pipeline c sv d i project w = (w1, r)" by fastforce
  have one: "only_pipelines (snd w) (snd w1) \<and> evolves (snd w) (snd w1)"
    using f addPipeline_rows [OF assms(1)]
    by (auto simp: fetch_pipeline_def Let_def only_pipelines_def split: sum.splits prod.splits)
  show ?case
  proof (cases "\<exists>m. r = Panic m")
    case True
    with Cons.prems v f one show ?thesis by auto
  next
    case False
    with Cons.prems v f obtain res' where "visit_fresh c sv d visited w1 = (w', res')"
      by (cases r) (auto split: prod.splits)
    from Cons.IH [OF this] one show ?thesis by (auto intro: only_pipelines_trans evolves_trans)
  qed
qed (simp add: only_pipelines_def)

lemma fetchFreshPipelines_db:
  assumes "lawful_driver d" "fetchFreshPipelines c sv d visited (pf, (sent, db)) = ((pf', (sent', db')), res)"
  shows "only_pipelines db db' \<and> evolves db db'"
proof -
  obtain w' r where v: "visit_fresh c sv d visited (sent, db) = (w', r)" by fastforce
  with assms(2) have "w' = (sent', db')" by (auto simp: fetchFreshPipelines_def split: outcome.splits)
  with visit_fresh_db [OF assms(1) v] show ?thesis by simp
qed

lemma visit_fresh_over:
  assumes "visit_fresh c sv d visited w = (w', Ret ptrs)" "ptr \<in> set ptrs"
  shows "\<exists>q. (ptr, q) \<in> set visited \<and> seen_over c sv (fst w) (fst w') q"
  using assms
proof (induction visited arbitrary: w w' ptrs)
  case (Cons v visited)
  obtain p project i where v: "v = (p, (project, i))" by (cases v) auto
  obtain w1 r where f: "fetch_pipeline c sv d i project w = (w1, r)" by fastforce
  have s: "fst w1 = GetPipeline (MakeProjectWithNamespace c project) i # fst w"
    using f fetch_pipeline_sent [of c sv d i project w] by simp
  have later: "\<exists>q. (ptr, q) \<in> set (v # visited) \<and> seen_over c sv (fst w) (fst w') q"
    if "visit_fresh c sv d visited w1 = (w', Ret ptrs')" "ptr \<in> set ptrs'" for ptrs'
  proof -
    from Cons.IH [OF that] obtain q where "(ptr, q) \<in> set visited" "seen_over c sv (fst w1) (fst w') q" by blast
    moreover have "suffix (fst w) (fst w1)" by (simp add: s suffix_Cons)
    ultimately show ?thesis using seen_over_mono by (meson list.set_intros(2))
  qed
  show ?case
  proof (cases r)
    case (Ret info)
    with Cons.prems v f obtain ptrs' where rest: "visit_fresh c sv d visited w1 = (w', Ret ptrs')"
      and ptrs: "ptrs = (if piStatus info \<noteq> PipelineStatusRunning then p # ptrs' else ptrs')"
      by (auto split: prod.splits)
    show ?thesis
    proof (cases "ptr \<in> set ptrs'")
      case True
      with rest show ?thesis by (rule later)
    next
      case False
      with ptrs Cons.prems(2) have here: "ptr = p" "piStatus info \<noteq> PipelineStatusRunning" by (auto split: if_splits)
      have "seen_over c sv (fst w) (fst w') (project, i)"
        unfolding seen_over_def fst_conv snd_conv
      proof (rule answeredI [of _ "fst w"])
        show "suffix (GetPipeline (MakeProjectWithNamespace c project) i # fst w) (fst w')"
          using visit_fresh_grows [OF rest] s by simp
        show "\<exists>info. svGetPipeline sv (GetPipeline (MakeProjectWithNamespace c project) i # fst w) = Inr info
            \<and> piStatus info \<noteq> PipelineStatusRunning"
          using fetch_pipeline_Ret [of c sv d i project w w1 info] f Ret s here(2) by auto
      qed simp
      with v here(1) show ?thesis by auto
    qed
  next
    case (Fail e)
    with Cons.prems v f later show ?thesis by simp
  next
    case (Panic m)
    with Cons.prems v f show ?thesis by simp
  qed
qed simp

text \<open>A pipeline that was polled in this round, but not read, not stored or still running.\<close>

definition seen_open :: "Client \<Rightarrow> server \<Rightarrow> driver \<Rightarrow> requests \<Rightarrow> requests \<Rightarrow> string \<times> int \<Rightarrow> bool" where
  "seen_open c sv d old new q \<longleftrightarrow>
     answered old new (GetPipeline (MakeProjectWithNamespace c (fst q)) (snd q))
       (\<lambda>l. case svGetPipeline sv l of Inl e \<Rightarrow> True | Inr info \<Rightarrow> piStatus info = PipelineStatusRunning \<or> \<not> stores_pipelines d)"

lemma seen_open_mono: "seen_open c sv d mid new q \<Longrightarrow> suffix old mid \<Longrightarrow> seen_open c sv d old new q"
  unfolding seen_open_def by (auto intro: answered_mono)

lemma fetch_pipeline_Fail:
  assumes "fetch_pipeline c sv d i project w = (w', Fail e)" "stores_pipelines d"
  shows "\<exists>e. svGetPipeline sv (fst w') = Inl e"
proof (cases "svGetPipeline sv (GetPipeline (MakeProjectWithNamespace c project) i # fst w)")
  case (Inl e)
  with assms(1) show ?thesis by (auto simp: fetch_pipeline_def)
next
  case (Inr info)
  with assms(1) obtain db where "addPipeline d project info (snd w) = (db, Fail e)"
    by (auto simp: fetch_pipeline_def Let_def split: prod.splits) (metis and_then.elims outcome.distinct(1,5) outcome.inject(2))
  with assms(2) show ?thesis
    by (auto simp: addPipeline_def stores_pipelines_def split: option.splits) (metis outcome.distinct(1) snd_conv)
qed

lemma visit_fresh_open:
  assumes "visit_fresh c sv d visited w = (w', Ret ptrs)" "(ptr, q) \<in> set visited" "ptr \<notin> set ptrs"
  shows "seen_open c sv d (fst w) (fst w') q"
  using assms
proof (induction visited arbitrary: w w' ptrs)
  case (Cons v visited)
  obtain p project i where v: "v = (p, (project, i))" by (cases v) auto
  obtain w1 r where f: "fetch_pipeline c sv d i project w = (w1, r)" by fastforce
  let ?r = "GetPipeline (MakeProjectWithNamespace c project) i"
  have s: "fst w1 = ?r # fst w"
    using f fetch_pipeline_sent [of c sv d i project w] by simp
  from Cons.prems(1) v f obtain ptrs' where rest: "visit_fresh c sv d visited w1 = (w', Ret ptrs')"
    and ptrs: "ptrs = (case r of Ret info \<Rightarrow> if piStatus info \<noteq> PipelineStatusRunning then p # ptrs' else ptrs' | _ \<Rightarrow> ptrs')"
    by (cases r) (auto split: prod.splits)
  show ?case
  proof (cases "(ptr, q) = v")
    case True
    have "seen_open c sv d (fst w) (fst w') (project, i)"
      unfolding seen_open_def fst_conv snd_conv
    proof (rule answeredI [of _ "fst w"])
      show "suffix (?r # fst w) (fst w')"
        using visit_fresh_grows [OF rest] s by simp
      show "case svGetPipeline sv (?r # fst w) of Inl e \<Rightarrow> True | Inr info \<Rightarrow> piStatus info = PipelineStatusRunning \<or> \<not> stores_pipelines d"
      proof (cases r)
        case (Ret info)
        with fetch_pipeline_Ret [OF f [unfolded Ret]] s ptrs Cons.prems(3) True v show ?thesis by (auto split: if_splits)
      next
        case (Fail e)
        with fetch_pipeline_Fail [OF f [unfolded Fail]] s show ?thesis by (auto split: sum.split)
      next
        case (Panic m)
        with Cons.prems(1) v f show ?thesis by simp
      qed
    qed simp
    with True v show ?thesis by simp
  next
    case False
    with Cons.prems(2) have "(ptr, q) \<in> set visited" by auto
    moreover have "ptr \<notin> set ptrs'" using ptrs Cons.prems(3) by (auto split: outcome.splits if_splits)
    ultimately have "seen_open c sv d (fst w1) (fst w') q" by (rule Cons.IH [OF rest])
    then show ?thesis by (rule seen_open_mono) (simp add: s suffix_Cons)
  qed
qed simp

text \<open>The pointers of the map are distinct, and new ones are fresh.\<close>

definition fresh_ok :: "PipelinesFetcher \<Rightarrow> bool" where
  "fresh_ok pf \<longleftrightarrow> distinct (map fst (pfFresh pf)) \<and> (\<forall>(ptr, q) \<in> set (pfFresh pf). ptr < pfAllocated pf)"

lemma fresh_ok_key: "fresh_ok pf \<Longrightarrow> (ptr, q) \<in> set (pfFresh pf) \<Longrightarrow> (ptr, q') \<in> set (pfFresh pf) \<Longrightarrow> q = q'"
  by (auto simp: fresh_ok_def dest: eq_key_imp_eq_value)


section \<open>A sample pass\<close>

definition sample_info :: PipelineInfo where
  "sample_info = \<lparr>piID = 11, piRef = ''submits/tasks/sum'', piStatus = ''success'', piCreatedAt = Some 100\<rparr>"

definition listing_server :: server where
  "listing_server = sample_server
     \<lparr>svGetPipeline := \<lambda>l. Inr sample_info,
      svListGroupProjects := (\<lambda>l. case l of
           ListGroupProjects gid page # _ \<Rightarrow> Inr \<lparr>pgItems = [(5, ''g-A-B-ab'')], pgCurrent = max 1 page, pgTotal = 1, pgNext = 0\<rparr>
         | _ \<Rightarrow> Inl (OtherError ''bad request'')),
      svListProjectPipelines := (\<lambda>l. case l of
           ListProjectPipelines pid page # _ \<Rightarrow>
             Inr \<lparr>pgItems = (if page = 2 then [sample_info] else []), pgCurrent = max 1 page, pgTotal = 2, pgNext = 2\<rparr>
         | _ \<Rightarrow> Inl (OtherError ''bad request''))\<rparr>"

lemma listing_answers:
  "svGetPipeline listing_server l = Inr sample_info"
  "svListGroupProjects listing_server (ListGroupProjects gid page # past) =
     Inr \<lparr>pgItems = [(5, ''g-A-B-ab'')], pgCurrent = max 1 page, pgTotal = 1, pgNext = 0\<rparr>"
  "svListProjectPipelines listing_server (ListProjectPipelines pid page # past) =
     Inr \<lparr>pgItems = (if page = 2 then [sample_info] else []), pgCurrent = max 1 page, pgTotal = 2, pgNext = 2\<rparr>"
  by (simp_all add: listing_server_def)

definition empty_db :: DB where
  "empty_db = \<lparr>dbUsers = [], dbPipelines = [], dbSessions = [], dbFlags = [], dbOverrides = []\<rparr>"

definition sample_row :: Pipeline where
  "sample_row = \<lparr>plID = 11, plProject = ''g-A-B-ab'', plTask = ''sum'', plStatus = ''success'', plStartedAt = 100\<rparr>"

definition pass_log :: requests where
  "pass_log = [ListProjectPipelines 5 2, ListProjectPipelines 5 0, ListGroupProjects 7 0]"

lemma sample_addPipeline:
  "addPipeline mem_driver ''g-A-B-ab'' sample_info empty_db = (empty_db\<lparr>dbPipelines := [sample_row]\<rparr>, Ret ())"
  by (simp add: addPipeline_def sample_info_def AddPipeline_def empty_db_def sample_row_def mem_eval ParseTaskFromBranch_def
      TrimPrefix_def branchPrefix_def tasksPrefix_def)

lemma sample_pass:
  "fetchAllPipelines sample_client listing_server mem_driver ([], empty_db) =
     Some ((pass_log, empty_db\<lparr>dbPipelines := [sample_row]\<rparr>), Ret ())"
proof -
  have "project_pipelines listing_server mem_driver (5, ''g-A-B-ab'') 0 ([ListGroupProjects 7 0], empty_db) =
      Some ((pass_log, empty_db\<lparr>dbPipelines := [sample_row]\<rparr>), Ret ())"
    by (subst project_pipelines.simps, simp add: listing_answers)
      (subst project_pipelines.simps, simp add: listing_answers sample_addPipeline pass_log_def)
  moreover have "glGroupID (clConfig sample_client) = 7" by (simp add: sample_client_def)
  ultimately show ?thesis
    by (simp add: fetchAllPipelines_def forEachProject.simps listing_answers)
qed


lemma fetchAllPipelines_returns_witness:
  "\<exists>w' res. fetchAllPipelines sample_client listing_server mem_driver ([], empty_db) = Some (w', res)"
proof (rule fetchAllPipelines_returns)
  show "listings_paged 2 listing_server"
    by (auto simp: listings_paged_def well_paged_def listing_answers)
qed

definition sample_fresh :: PipelinesFetcher where
  "sample_fresh = AddFresh 11 ''g-A-B-ab'' (AddFresh 11 ''g-A-B-ab'' NewPipelinesFetcher)"

lemma sample_poll:
  "fetchFreshPipelines sample_client listing_server mem_driver [(1, (''g-A-B-ab'', 11))] (sample_fresh, ([], empty_db)) =
     ((sample_fresh\<lparr>pfFresh := [(0, (''g-A-B-ab'', 11))]\<rparr>, ([GetPipeline ''hw/g-A-B-ab'' 11], empty_db\<lparr>dbPipelines := [sample_row]\<rparr>)), Ret ())"
  by (simp add: fetchFreshPipelines_def fetch_pipeline_def Let_def listing_answers sample_addPipeline MakeProjectWithNamespace_def
      sample_client_def sample_fresh_def AddFresh_def NewPipelinesFetcher_def)
     (simp add: sample_info_def)


end
