(* ===== verification/Projects.thy ===== *)
theory Projects
  imports PipelinesSpec "HOL-Library.Sublist"
begin

text \<open>
  Package \<open>internal/gitlab\<close>, file \<open>projects.go\<close>: the goroutine that initializes the projects of the users it gets from
  a channel and from the database. The handlers of the web server write to the channel, so the model is a
  step relation on the channel, the program counter and the timer of the goroutine, and the log and database.
\<close>

section \<open>Operations\<close>

text \<open>
  \<open>maybeInitializeProject\<close> returns whether it succeeded, and the user it was given: the repository is set there before the
  database is asked to store it.
\<close>

definition maybeInitializeProject ::
  "Client \<Rightarrow> server \<Rightarrow> driver \<Rightarrow> User \<Rightarrow> world \<Rightarrow> (world \<times> (bool \<times> User) outcome) option" where
  "maybeInitializeProject c sv d user w =
     (if usGitlabID user = None \<or> usGitlabLogin user = None then Some (w, Ret (False, user))
      else case InitializeProject c sv user (fst w) of
             None \<Rightarrow> None
           | Some (sent, Fail e) \<Rightarrow> Some ((sent, snd w), Ret (False, user))
           | Some (sent, Panic m) \<Rightarrow> Some ((sent, snd w), Panic m)
           | Some (sent, Ret _) \<Rightarrow>
               (case MakeProjectURL c user of
                  Ret project \<Rightarrow>
                    (let user' = user\<lparr>usRepository := Some project\<rparr>
                     in case SetUserRepository d user' (snd w) of
                          (db, Ret _) \<Rightarrow> Some ((sent, db), Ret (True, user'))
                        | (db, Fail e) \<Rightarrow> Some ((sent, db), Ret (False, user'))
                        | (db, Panic m) \<Rightarrow> Some ((sent, db), Panic m))
                | Fail e \<Rightarrow> Some ((sent, snd w), Fail e)
                | Panic m \<Rightarrow> Some ((sent, snd w), Panic m)))"

fun initialize_users :: "Client \<Rightarrow> server \<Rightarrow> driver \<Rightarrow> User list \<Rightarrow> world \<Rightarrow> (world \<times> unit outcome) option" where
  "initialize_users c sv d [] w = Some (w, Ret ())"
| "initialize_users c sv d (user # users) w =
     (case maybeInitializeProject c sv d user w of
        None \<Rightarrow> None
      | Some (w', Ret _) \<Rightarrow> initialize_users c sv d users w'
      | Some (w', Fail e) \<Rightarrow> Some (w', Fail e)
      | Some (w', Panic m) \<Rightarrow> Some (w', Panic m))"

definition initializeMissingProjects :: "Client \<Rightarrow> server \<Rightarrow> driver \<Rightarrow> world \<Rightarrow> (world \<times> unit outcome) option" where
  "initializeMissingProjects c sv d w =
     (case ListUsersWithoutRepos d (snd w) of
        Ret users \<Rightarrow> initialize_users c sv d users w
      | Fail e \<Rightarrow> Some (w, Ret ())
      | Panic m \<Rightarrow> Some (w, Panic m))"

section \<open>The goroutine and its channel\<close>

text \<open>
  The goroutine has not begun, it waits in the \<open>select\<close>, it waits to put a user back on the channel, or it has returned. The
  timer, made after the first pass, fires once. The interval is the one of the configuration.
\<close>

datatype maker_pc = Starting | Selecting | Resending User | Stopped

record ProjectsMaker =
  pmInterval :: "duration option"
  pmUsers :: "User list"
  pmPc :: maker_pc
  pmTick :: bool

definition channel_capacity :: nat where "channel_capacity = 4"

definition NewProjectsMaker :: "duration option \<Rightarrow> ProjectsMaker" where
  "NewProjectsMaker interval = \<lparr>pmInterval = interval, pmUsers = [], pmPc = Starting, pmTick = False\<rparr>"

text \<open>
  The steps of the goroutine: without an interval it returns at once, otherwise it makes a first pass; it receives a user and
  initializes the project, and sends the user back after a failure, which
  waits while the channel is full; the timer fires; the context is cancelled.
\<close>

inductive maker_own :: "Client \<Rightarrow> server \<Rightarrow> driver \<Rightarrow> ProjectsMaker \<times> world \<Rightarrow> ProjectsMaker \<times> world \<Rightarrow> bool"
  for c sv d where
  disabled:
    "pmPc pm = Starting \<Longrightarrow> pmInterval pm = None \<Longrightarrow> maker_own c sv d (pm, w) (pm\<lparr>pmPc := Stopped\<rparr>, w)"
| first_pass:
    "pmPc pm = Starting \<Longrightarrow> pmInterval pm = Some interval \<Longrightarrow> initializeMissingProjects c sv d w = Some (w', Ret ()) \<Longrightarrow>
     maker_own c sv d (pm, w) (pm\<lparr>pmPc := Selecting, pmTick := True\<rparr>, w')"
| receive_ok:
    "pmPc pm = Selecting \<Longrightarrow> pmUsers pm = user # users \<Longrightarrow> maybeInitializeProject c sv d user w = Some (w', Ret (True, user')) \<Longrightarrow>
     maker_own c sv d (pm, w) (pm\<lparr>pmUsers := users\<rparr>, w')"
| receive_failed:
    "pmPc pm = Selecting \<Longrightarrow> pmUsers pm = user # users \<Longrightarrow> maybeInitializeProject c sv d user w = Some (w', Ret (False, user')) \<Longrightarrow>
     maker_own c sv d (pm, w) (pm\<lparr>pmUsers := users, pmPc := Resending user'\<rparr>, w')"
| resend:
    "pmPc pm = Resending user \<Longrightarrow> length (pmUsers pm) < channel_capacity \<Longrightarrow>
     maker_own c sv d (pm, w) (pm\<lparr>pmUsers := pmUsers pm @ [user], pmPc := Selecting\<rparr>, w)"
| tick:
    "pmPc pm = Selecting \<Longrightarrow> pmTick pm \<Longrightarrow> initializeMissingProjects c sv d w = Some (w', Ret ()) \<Longrightarrow>
     maker_own c sv d (pm, w) (pm\<lparr>pmTick := False\<rparr>, w')"
| cancel:
    "pmPc pm = Selecting \<Longrightarrow> maker_own c sv d (pm, w) (pm\<lparr>pmPc := Stopped\<rparr>, w)"

text \<open>A handler of the web server sends a user, which waits in the same way.\<close>

inductive maker_step :: "Client \<Rightarrow> server \<Rightarrow> driver \<Rightarrow> ProjectsMaker \<times> world \<Rightarrow> ProjectsMaker \<times> world \<Rightarrow> bool"
  for c sv d where
  AsyncPrepareProject:
    "length (pmUsers pm) < channel_capacity \<Longrightarrow>
     maker_step c sv d (pm, w) (pm\<lparr>pmUsers := pmUsers pm @ [user]\<rparr>, w)"
| own: "maker_own c sv d s t \<Longrightarrow> maker_step c sv d s t"

abbreviation maker_run :: "Client \<Rightarrow> server \<Rightarrow> driver \<Rightarrow> ProjectsMaker \<times> world \<Rightarrow> ProjectsMaker \<times> world \<Rightarrow> bool" where
  "maker_run c sv d \<equiv> (maker_step c sv d)\<^sup>*\<^sup>*"

inductive_cases maker_ownE: "maker_own c sv d (pm, w) s"
inductive_cases maker_stepE: "maker_step c sv d (pm, w) s"

section \<open>The channel\<close>

lemma maker_step_bound:
  "maker_step c sv d (pm, w) (pm', w') \<Longrightarrow> length (pmUsers pm) \<le> channel_capacity \<Longrightarrow> length (pmUsers pm') \<le> channel_capacity"
  by (erule maker_stepE) (auto simp: Suc_le_eq elim: maker_ownE)

text \<open>A state in which the goroutine waits for room in the channel that only it empties.\<close>

definition deadlocked :: "ProjectsMaker \<Rightarrow> bool" where
  "deadlocked pm \<longleftrightarrow> (\<exists>user. pmPc pm = Resending user) \<and> length (pmUsers pm) = channel_capacity"

lemma deadlocked_no_step: "deadlocked pm \<Longrightarrow> \<not> maker_step c sv d (pm, w) s"
  by (auto simp: deadlocked_def elim!: maker_stepE maker_ownE)

definition maker_reachable :: "Client \<Rightarrow> server \<Rightarrow> driver \<Rightarrow> ProjectsMaker \<times> world \<Rightarrow> bool" where
  "maker_reachable c sv d s \<longleftrightarrow>
     (\<exists>interval w. maker_run c sv d (NewProjectsMaker interval, w) s)"

lemma maker_reachable_induct [consumes 1, case_names start step]:
  assumes "maker_reachable c sv d s"
    and "\<And>interval w. P (NewProjectsMaker interval, w)"
    and "\<And>s t. maker_reachable c sv d s \<Longrightarrow> maker_step c sv d s t \<Longrightarrow> P s \<Longrightarrow> P t"
  shows "P s"
proof -
  from assms(1) obtain interval w where "maker_run c sv d (NewProjectsMaker interval, w) s"
    by (auto simp: maker_reachable_def)
  then have "maker_reachable c sv d s \<and> P s"
  proof (induction rule: rtranclp_induct)
    case base
    show ?case using assms(2) unfolding maker_reachable_def by blast
  next
    case (step s t)
    from step(1,2) have "maker_run c sv d (NewProjectsMaker interval, w) t" by (rule rtranclp.rtrancl_into_rtrancl)
    then have "maker_reachable c sv d t" unfolding maker_reachable_def by blast
    with step assms(3) show ?case by blast
  qed
  then show ?thesis ..
qed

lemma channel_bound: "maker_reachable c sv d (pm, w) \<Longrightarrow> length (pmUsers pm) \<le> channel_capacity"
proof -
  have "length (pmUsers (fst s)) \<le> channel_capacity" if "maker_reachable c sv d s" for s
    using that
  proof (induction rule: maker_reachable_induct)
    case (start interval w)
    then show ?case by (simp add: NewProjectsMaker_def)
  next
    case (step s t)
    then show ?case using maker_step_bound by (cases s; cases t) auto
  qed
  then show "maker_reachable c sv d (pm, w) \<Longrightarrow> length (pmUsers pm) \<le> channel_capacity" by fastforce
qed

lemma maker_can_step:
  assumes len: "length (pmUsers pm) \<le> channel_capacity" and "\<not> deadlocked pm" "pmPc pm \<noteq> Stopped"
    and pass: "pmPc pm = Starting \<longrightarrow> pmInterval pm \<noteq> None \<longrightarrow> (\<exists>w'. initializeMissingProjects c sv d w = Some (w', Ret ()))"
  shows "\<exists>pm' w'. maker_step c sv d (pm, w) (pm', w') \<and> pmPc pm' \<noteq> pmPc pm"
proof (cases "pmPc pm")
  case Starting
  show ?thesis
  proof (cases "pmInterval pm")
    case None
    from maker_step.own [OF maker_own.disabled [OF Starting None]] Starting show ?thesis by fastforce
  next
    case (Some interval)
    with pass Starting obtain w' where "initializeMissingProjects c sv d w = Some (w', Ret ())" by auto
    from maker_step.own [OF maker_own.first_pass [OF Starting Some this]] Starting show ?thesis by fastforce
  qed
next
  case Selecting
  from maker_step.own [OF maker_own.cancel [OF this]] Selecting show ?thesis by fastforce
next
  case (Resending user)
  with assms(2) len have "length (pmUsers pm) < channel_capacity" by (auto simp: deadlocked_def)
  from maker_step.own [OF maker_own.resend [OF Resending this]] Resending show ?thesis by fastforce
qed (use assms(3) in simp)

lemma stopped_run:
  "maker_run c sv d s t \<Longrightarrow> pmPc (fst s) = Stopped \<Longrightarrow>
     pmPc (fst t) = Stopped \<and> snd t = snd s \<and> prefix (pmUsers (fst s)) (pmUsers (fst t))"
proof (induction rule: rtranclp_induct)
  case (step t u)
  then have t: "pmPc (fst t) = Stopped" "snd t = snd s" "prefix (pmUsers (fst s)) (pmUsers (fst t))" by auto
  from step(2) t(1) have "pmPc (fst u) = Stopped \<and> snd u = snd t \<and> (\<exists>user. pmUsers (fst u) = pmUsers (fst t) @ [user])"
    by (auto elim!: maker_step.cases maker_own.cases)
  with t show ?case by (auto intro: prefix_prefix)
qed simp


lemma fill_channel:
  assumes "length (pmUsers pm) \<le> channel_capacity"
  shows "\<exists>pm'. maker_run c sv d (pm, w) (pm', w) \<and> length (pmUsers pm') = channel_capacity \<and> pmPc pm' = pmPc pm"
  using assms
proof (induction "channel_capacity - length (pmUsers pm)" arbitrary: pm)
  case 0
  then show ?case by (intro exI [of _ pm]) auto
next
  case (Suc n)
  obtain user :: User where True by simp
  let ?pm1 = "pm\<lparr>pmUsers := pmUsers pm @ [user]\<rparr>"
  from Suc(2) have "length (pmUsers pm) < channel_capacity" by simp
  then have step: "maker_step c sv d (pm, w) (?pm1, w)" by (rule maker_step.AsyncPrepareProject)
  have "n = channel_capacity - length (pmUsers ?pm1)" "length (pmUsers ?pm1) \<le> channel_capacity"
    using Suc(2,3) by simp_all
  from Suc(1) [OF this] obtain pm' where run: "maker_run c sv d (?pm1, w) (pm', w)"
    and "length (pmUsers pm') = channel_capacity" "pmPc pm' = pmPc ?pm1" by blast
  with converse_rtranclp_into_rtranclp [of "maker_step c sv d", OF step run] show ?case by auto
qed

text \<open>
  C33. One failed initialization is enough to deadlock the goroutine: if the handlers fill the channel before it can send the
  user back, it waits for itself.
\<close>

theorem maker_can_deadlock:
  assumes "maker_reachable c sv d (pm, w)" "pmPc pm = Selecting" "pmUsers pm = user # users"
    and "maybeInitializeProject c sv d user w = Some (w', Ret (False, user'))"
  shows "\<exists>pm'. maker_reachable c sv d (pm', w') \<and> deadlocked pm'"
proof -
  let ?pm1 = "pm\<lparr>pmUsers := users, pmPc := Resending user'\<rparr>"
  have step: "maker_step c sv d (pm, w) (?pm1, w')" using assms(2-4) by (intro maker_step.own maker_own.receive_failed)
  have "length (pmUsers pm) \<le> channel_capacity" using channel_bound [OF assms(1)] .
  with assms(3) have "length (pmUsers ?pm1) \<le> channel_capacity" by simp
  from fill_channel [OF this] obtain pm' where run: "maker_run c sv d (?pm1, w') (pm', w')"
    and full: "length (pmUsers pm') = channel_capacity" "pmPc pm' = pmPc ?pm1" by blast
  from converse_rtranclp_into_rtranclp [of "maker_step c sv d", OF step run] assms(1)
  have "maker_reachable c sv d (pm', w')" unfolding maker_reachable_def by (meson rtranclp_trans)
  with full show ?thesis by (auto simp: deadlocked_def)
qed

text \<open>After the timer has fired the goroutine never looks for missing projects again.\<close>

lemma timer_fires_once:
  "maker_run c sv d s t \<Longrightarrow> \<not> pmTick (fst s) \<and> pmPc (fst s) \<noteq> Starting \<Longrightarrow> \<not> pmTick (fst t) \<and> pmPc (fst t) \<noteq> Starting"
  by (induction rule: rtranclp_induct) (auto elim!: maker_step.cases maker_own.cases)

section \<open>What an initialization writes\<close>

lemma maybeInitializeProject_writes:
  assumes "maybeInitializeProject c sv d user (sent, db) = Some ((sent', db'), res)"
  shows "db' = db \<or> (\<exists>url. usGitlabID user \<noteq> None \<and> MakeProjectURL c user = Ret url
      \<and> db' = fst (SetUserRepository d (user\<lparr>usRepository := Some url\<rparr>) db))"
  using assms by (auto simp: maybeInitializeProject_def Let_def split: if_splits option.splits prod.splits outcome.splits)

section \<open>Witnesses\<close>

abbreviation sample_student :: User where "sample_student \<equiv> linked_user 3 ''ab'' ''A-n'' ''B''"

lemma sample_failure:
  "maybeInitializeProject sample_client sample_server d sample_student ([], db) = Some ((first_attempt, db), Ret (False, sample_student))"
proof -
  have "usGitlabID sample_student = Some 3" "usGitlabLogin sample_student = Some ''ab''" by (simp_all add: linked_user_def)
  then show ?thesis by (simp add: maybeInitializeProject_def sample_first_attempt)
qed

abbreviation sample_maker :: ProjectsMaker where
  "sample_maker \<equiv> (NewProjectsMaker (Some 1))\<lparr>pmPc := Selecting, pmTick := True\<rparr>"

lemma sample_start:
  "maker_own sample_client sample_server mem_driver (NewProjectsMaker (Some 1), ([], empty_db)) (sample_maker, ([], empty_db))"
  by (rule maker_own.first_pass [of _ 1])
    (simp_all add: NewProjectsMaker_def initializeMissingProjects_def ListUsersWithoutRepos_def empty_db_def mem_eval)

lemma sample_queued:
  "maker_reachable sample_client sample_server mem_driver (sample_maker\<lparr>pmUsers := [sample_student]\<rparr>, ([], empty_db))"
proof -
  have "maker_step sample_client sample_server mem_driver (sample_maker, ([], empty_db))
      (sample_maker\<lparr>pmUsers := pmUsers sample_maker @ [sample_student]\<rparr>, ([], empty_db))"
    by (rule maker_step.AsyncPrepareProject) (simp add: NewProjectsMaker_def channel_capacity_def)
  moreover have "pmUsers sample_maker @ [sample_student] = [sample_student]" by (simp add: NewProjectsMaker_def)
  ultimately show ?thesis
    unfolding maker_reachable_def using maker_step.own [OF sample_start] by (intro exI) (simp only:, rule converse_rtranclp_into_rtranclp, assumption, rule r_into_rtranclp)
qed


lemma maker_can_deadlock_witness:
  "\<exists>pm'. maker_reachable sample_client sample_server mem_driver (pm', (first_attempt, empty_db)) \<and> deadlocked pm'"
  by (rule maker_can_deadlock [OF sample_queued _ _ sample_failure]) (simp_all add: NewProjectsMaker_def)

end
