(* ===== verification/WebSample.thy ===== *)
theory WebSample
  imports WebServer ScorerBoard Projects
begin

text \<open>
  A small server to run requests on: one group with the plan of the sample scoreboard, one testing token, and a database with
  one linked student who has a session.
\<close>

definition course_endpoints :: EndpointsConfig where
  "course_endpoints =
     \<lparr>epHostName = ''https://course'', epHome = ''/'', epFlag = ''/flag'', epLogin = ''/login'', epLogout = ''/logout'',
      epSignup = ''/signup'', epStandings = ''/standings'', epRetakes = ''/retakes'', epOauthCallback = ''/oauth'',
      epTelegramLogin = ''/telegram'', epTelegramCallback = ''/telegram/callback'', epApiReport = ''/api/report'',
      epApiFlag = ''/api/flag'', epApiOverride = ''/api/override'', epApiChangeGroup = ''/api/group'',
      epApiStandings = ''/api/standings'', epApiListGroupMembers = ''/api/group/:group''\<rparr>"

definition course_config :: Config where
  "course_config =
     \<lparr>cfEndpoints = course_endpoints, cfTokens = [''tt''],
      cfGroups = [\<lparr>gcName = ''g'', gcSecret = ''secret'', gcDeadlinesURL = [], gcDeadlinesFormat = ''v2'', gcShowMarks = True, gcDefault = True\<rparr>],
      cfTelegram = Some ''bot''\<rparr>"

definition course_server :: web_server where
  "course_server =
     \<lparr>wsConfig = course_config, wsGitlab = sample_client, wsScorer = board_scorer, wsSort = insertionSort,
      wsLoginURL = (\<lambda>state. ''https://gitlab/?'' @ state),
      wsExchange = (\<lambda>code. if code = ''good'' then Inr ''access'' else Inl (External ''bad code'')),
      wsOAuthUser = (\<lambda>access. Inr (3, ''ab'')), wsTelegramHash = (\<lambda>token data. token @ data)\<rparr>"

definition course_conn :: "string \<Rightarrow> conn" where
  "course_conn uuid = \<lparr>cnDriver = mem_driver, cnNow = 5, cnUUID = uuid, cnSave = (\<lambda>n. None), cnEvicted = (\<lambda>k. False)\<rparr>"

definition blank_request :: request where
  "blank_request =
     \<lparr>rqForm = [], rqQuery = [], rqCookie = \<lparr>ckToken = None, ckOAuth = None\<rparr>, rqToken = [], rqGroup = [],
      rqReport = Inl (External ''EOF''), rqFlag = Inl (External ''EOF''), rqOverride = Inl (External ''EOF''),
      rqChangeGroup = Inl (External ''EOF''), rqUserScores = Inl (External ''EOF'')\<rparr>"

definition course_student :: User where
  "course_student =
     \<lparr>mID = 1, mDeletedAt = None, usGitlabID = Some 3, usGitlabLogin = Some ''ab'', usRepository = None,
      usFirstName = ''A'', usLastName = ''B'', usGroupName = ''g'', usTelegramID = Some 9, usHasRetake = False\<rparr>"

definition course_session :: Session where
  "course_session = \<lparr>ssID = 1, ssToken = ''tok'', ssUserID = 1\<rparr>"

definition course_db :: DB where
  "course_db = \<lparr>dbUsers = [course_student], dbPipelines = [], dbSessions = [course_session], dbFlags = [], dbOverrides = []\<rparr>"

lemmas course_eval =
  course_server_def course_config_def course_endpoints_def course_conn_def blank_request_def course_student_def
  course_session_def course_db_def newServer_def NewPipelinesFetcher_def mem_eval

lemma course_db_ok: "db_ok course_db"
  by (simp add: db_ok_def course_eval)

definition student_request :: request where
  "student_request = blank_request\<lparr>rqCookie := \<lparr>ckToken = Some ''tok'', ckOAuth = None\<rparr>\<rparr>"

lemma student_session:
  "dbUsers (wbDB w) = [course_student] \<Longrightarrow> dbSessions (wbDB w) = [course_session] \<Longrightarrow> rqCookie rq = \<lparr>ckToken = Some ''tok'', ckOAuth = state\<rparr> \<Longrightarrow>
     tryFindUserByToken (course_conn uuid) rq w = Ret (Some (course_student, course_session))"
  by (simp add: tryFindUserByToken_def tryGetToken_def FindUserBySession_def FindSession_def FindUserByID_def course_conn_def mem_eval)
    (simp add: course_student_def course_session_def)

text \<open>A flag for the task \<open>a\<close> of the plan.\<close>

definition flag_request :: request where
  "flag_request = blank_request\<lparr>rqFlag := Inr \<lparr>frToken = ''tt'', frTask = ''a''\<rparr>\<rparr>"

definition issued_db :: DB where
  "issued_db = course_db\<lparr>dbFlags := [\<lparr>flID = ''{FLAG-a-1f}'', flTask = ''a'', flGitlabLogin = None, flCreatedAt = 5\<rparr>]\<rparr>"

lemma course_knows_a: "AnyGroupHasTask (cfGroups (wsConfig course_server)) (scrFetcher (wsScorer course_server)) ''a''"
  by (simp add: AnyGroupHasTask_def course_server_def course_config_def board_scorer_def board_plan_def HasTask_def)

lemma course_createFlag:
  "createFlag course_server (course_conn ''1f'') flag_request (newServer course_db) =
     (newServer issued_db, Ret (None, JSON 200 \<lparr>asOk = True, asError = []\<rparr> (FlagPayload ''{FLAG-a-1f}'')))"
proof -
  have "isTokenValid course_server ''tt''" by (simp add: isTokenValid_def course_server_def course_config_def)
  with course_knows_a show ?thesis
    by (simp add: createFlag_def flag_request_def course_conn_def blank_request_def CreateFlag_def flag_id_def onOk_def
        newServer_def issued_db_def course_db_def mem_eval)
qed

definition submit_request :: request where
  "submit_request = student_request\<lparr>rqForm := [(''flag'', ''{FLAG-a-1f}'')]\<rparr>"

end
