(* ===== verification/System.thy ===== *)
theory System
  imports WebAccess DatabaseFrame WebSample
begin

text \<open>
  The program as a whole: the web server, the goroutine that makes projects with its channel, and the fetcher of pipelines
  all work on one database. A step of the system is a served request, a handler handing its user to the channel, a step
  of the goroutine, a pass over the pipelines, or a round of polling; the course plan may change between any two steps.
\<close>

section \<open>Steps\<close>

record system =
  syWeb :: web
  syMaker :: ProjectsMaker
  syLog :: requests

definition with_db :: "system \<Rightarrow> requests \<Rightarrow> DB \<Rightarrow> system" where
  "with_db s sent db = s\<lparr>syWeb := (syWeb s)\<lparr>wbDB := db\<rparr>, syLog := sent\<rparr>"

inductive system_step :: "Client \<Rightarrow> server \<Rightarrow> system \<Rightarrow> system \<Rightarrow> bool" for c sv where
  request:
    "lawful_driver (cnDriver cn) \<Longrightarrow> wsGitlab srv = c \<Longrightarrow>
     system_step c sv s (s\<lparr>syWeb := fst (serve srv r cn rq (syWeb s))\<rparr>)"
| hand_over:
    "wbPrepared (syWeb s) = user # users \<Longrightarrow> length (pmUsers (syMaker s)) < channel_capacity \<Longrightarrow>
     system_step c sv s
       (s\<lparr>syWeb := (syWeb s)\<lparr>wbPrepared := users\<rparr>, syMaker := (syMaker s)\<lparr>pmUsers := pmUsers (syMaker s) @ [user]\<rparr>\<rparr>)"
| maker:
    "lawful_driver d \<Longrightarrow> maker_own c sv d (syMaker s, (syLog s, wbDB (syWeb s))) (pm, (sent, db)) \<Longrightarrow>
     system_step c sv s (with_db (s\<lparr>syMaker := pm\<rparr>) sent db)"
| pass:
    "lawful_driver d \<Longrightarrow> fetchAllPipelines c sv d (syLog s, wbDB (syWeb s)) = Some ((sent, db), Ret ()) \<Longrightarrow>
     system_step c sv s (with_db s sent db)"
| poll:
    "lawful_driver d \<Longrightarrow>
     fetchFreshPipelines c sv d visited (wbPipelines (syWeb s), (syLog s, wbDB (syWeb s))) = ((pf, (sent, db)), Ret ()) \<Longrightarrow>
     system_step c sv s (with_db (s\<lparr>syWeb := (syWeb s)\<lparr>wbPipelines := pf\<rparr>\<rparr>) sent db)"

section \<open>The invariant\<close>

definition linked_row :: "User \<Rightarrow> bool" where
  "linked_row u \<longleftrightarrow> usGitlabID u \<noteq> None \<and> usGitlabLogin u \<noteq> None"

text \<open>A user is linked with both halves of the account or with none, and has a repository only when linked.\<close>

definition user_ok :: "User \<Rightarrow> bool" where
  "user_ok u \<longleftrightarrow> (usGitlabID u = None \<longleftrightarrow> usGitlabLogin u = None) \<and> (usRepository u \<noteq> None \<longrightarrow> linked_row u)"

definition has_owner :: "DB \<Rightarrow> string \<Rightarrow> bool" where
  "has_owner db glogin \<longleftrightarrow> (\<exists>u \<in> set (dbUsers db). linked_row u \<and> usGitlabLogin u = Some glogin)"

text \<open>A copy of a user that waits for its project: it is linked, like the row it was made from.\<close>

definition waits :: "DB \<Rightarrow> User \<Rightarrow> bool" where
  "waits db u \<longleftrightarrow> linked_row u \<and> (\<exists>r \<in> set (dbUsers db). mID r = mID u \<and> linked_row r)"

definition data_ok :: "DB \<Rightarrow> bool" where
  "data_ok db \<longleftrightarrow>
     db_ok db \<and> (\<forall>u \<in> set (dbUsers db). user_ok u)
     \<and> (\<forall>f \<in> set (dbFlags db). \<forall>glogin. flGitlabLogin f = Some glogin \<longrightarrow> has_owner db glogin)
     \<and> (\<forall>p \<in> set (dbOverrides db). has_owner db (ovGitlabLogin p))"

definition waiting :: "system \<Rightarrow> User set" where
  "waiting s = set (wbPrepared (syWeb s)) \<union> set (pmUsers (syMaker s))
     \<union> (case pmPc (syMaker s) of Resending u \<Rightarrow> {u} | _ \<Rightarrow> {})"

definition system_ok :: "system \<Rightarrow> bool" where
  "system_ok s \<longleftrightarrow> data_ok (wbDB (syWeb s)) \<and> (\<forall>u \<in> waiting s. waits (wbDB (syWeb s)) u)"

section \<open>What a later database keeps\<close>

lemma linked_later: "user_later u u' \<Longrightarrow> linked_row u \<Longrightarrow> linked_row u' \<and> usGitlabLogin u' = usGitlabLogin u \<and> mID u' = mID u"
  by (auto simp: user_later_def linked_row_def)

lemma has_owner_later:
  assumes "extends user_later (dbUsers db) (dbUsers db')" "has_owner db glogin"
  shows "has_owner db' glogin"
proof -
  from assms(2) obtain u where "u \<in> set (dbUsers db)" "linked_row u" "usGitlabLogin u = Some glogin" by (auto simp: has_owner_def)
  with extends_mem [OF assms(1)] linked_later show ?thesis unfolding has_owner_def by metis
qed

lemma waits_later:
  assumes "extends user_later (dbUsers db) (dbUsers db')" "waits db u"
  shows "waits db' u"
proof -
  from assms(2) obtain r where "r \<in> set (dbUsers db)" "mID r = mID u" "linked_row r" and u: "linked_row u" by (auto simp: waits_def)
  with extends_mem [OF assms(1)] linked_later have "\<exists>r \<in> set (dbUsers db'). mID r = mID u \<and> linked_row r" by metis
  with u show ?thesis by (simp add: waits_def)
qed

lemma waits_repository [simp]: "waits db (u\<lparr>usRepository := url\<rparr>) \<longleftrightarrow> waits db u"
  by (simp add: waits_def linked_row_def)

text \<open>The step of the database from one state that is fine to the next.\<close>

definition keeps_data :: "DB \<Rightarrow> DB \<Rightarrow> bool" where
  "keeps_data db db' \<longleftrightarrow> data_ok db' \<and> extends user_later (dbUsers db) (dbUsers db')"

lemma keeps_dataI:
  assumes "data_ok db" "evolves db db'" "\<And>u. u \<in> set (dbUsers db') \<Longrightarrow> user_ok u"
    and "\<And>f glogin. f \<in> set (dbFlags db') \<Longrightarrow> flGitlabLogin f = Some glogin \<Longrightarrow> f \<in> set (dbFlags db) \<or> has_owner db' glogin"
    and "\<And>p. p \<in> set (dbOverrides db') \<Longrightarrow> ovGitlabLogin p \<in> ovGitlabLogin ` set (dbOverrides db) \<or> has_owner db' (ovGitlabLogin p)"
  shows "keeps_data db db'"
proof -
  have ext: "extends user_later (dbUsers db) (dbUsers db')" and ok: "db_ok db'"
    using assms(1,2) by (auto simp: evolves_def data_ok_def)
  note owner = has_owner_later [OF ext]
  from assms(1) have old: "\<forall>f \<in> set (dbFlags db). \<forall>glogin. flGitlabLogin f = Some glogin \<longrightarrow> has_owner db glogin"
    "\<forall>p \<in> set (dbOverrides db). has_owner db (ovGitlabLogin p)" by (auto simp: data_ok_def)
  have "has_owner db' glogin" if "f \<in> set (dbFlags db')" "flGitlabLogin f = Some glogin" for f glogin
    using assms(4) [OF that] old(1) that(2) owner by blast
  moreover have "has_owner db' (ovGitlabLogin p)" if "p \<in> set (dbOverrides db')" for p
    using assms(5) [OF that] old(2) owner by fastforce
  ultimately show ?thesis using ok ext assms(3) by (simp add: keeps_data_def data_ok_def)
qed

lemma keeps_data_refl: "data_ok db \<Longrightarrow> keeps_data db db"
  by (simp add: keeps_data_def)

lemma keeps_data_trans: "keeps_data a b \<Longrightarrow> keeps_data b c \<Longrightarrow> keeps_data a c"
  unfolding keeps_data_def using user_order.extends_trans by blast

section \<open>Operations keep the invariant\<close>

lemma keeps_users:
  assumes "data_ok db" "evolves db db'" "dbFlags db' = dbFlags db" "dbOverrides db' = dbOverrides db"
    and "\<And>u. u \<in> set (dbUsers db') \<Longrightarrow> user_ok u"
  shows "keeps_data db db'"
  using assms by (intro keeps_dataI) auto

lemma data_ok_user: "data_ok db \<Longrightarrow> u \<in> set (dbUsers db) \<Longrightarrow> user_ok u"
  by (simp add: data_ok_def)

lemma keeps_AddUser:
  assumes "data_ok db" "lawful_driver d" "usGitlabID u = None" "usGitlabLogin u = None" "usRepository u = None"
  shows "keeps_data db (fst (AddUser d u db))"
proof (rule keeps_users [OF assms(1) AddUser_evolves [OF assms(2)]])
  fix v assume v: "v \<in> set (dbUsers (fst (AddUser d u db)))"
  from AddUser_rows [OF assms(2), of u db] show "user_ok v"
  proof (elim disjE exE conjE)
    fix u' assume u': "stored_user u u'" "dbUsers (fst (AddUser d u db)) = dbUsers db @ [u']"
    from u'(1) assms(3-5) have "user_ok u'" by (cases u; cases u') (auto simp: stored_user_def user_ok_def)
    with v u'(2) data_ok_user [OF assms(1)] show ?thesis by auto
  qed (use v data_ok_user [OF assms(1)] in simp)
qed (simp_all add: db_frame)

lemma keeps_SetUserGitlabAccount:
  assumes "data_ok db" "lawful_driver d" "guGitlabID a \<noteq> None" "guGitlabLogin a \<noteq> None"
  shows "keeps_data db (fst (SetUserGitlabAccount d uid a db))"
proof (rule keeps_users [OF assms(1) SetUserGitlabAccount_evolves [OF assms(2)]])
  fix v assume v: "v \<in> set (dbUsers (fst (SetUserGitlabAccount d uid a db)))"
  from SetUserGitlabAccount_rows [OF assms(2), of uid a db] v show "user_ok v"
    using data_ok_user [OF assms(1)] assms(3,4) by (auto simp: user_ok_def linked_row_def)
qed (simp_all add: db_frame)

lemma keeps_update_user:
  assumes "data_ok db" "lawful_driver d" "evolves db (fst (update_user d u f db))"
    and "\<And>r. r \<in> set (dbUsers db) \<Longrightarrow> mID r = mID u \<Longrightarrow> user_ok (f r)"
  shows "keeps_data db (fst (update_user d u f db))"
proof (rule keeps_users [OF assms(1,3)])
  fix v assume v: "v \<in> set (dbUsers (fst (update_user d u f db)))"
  from update_user_rows [OF assms(2), of u f db] v show "user_ok v"
    using data_ok_user [OF assms(1)] assms(4) by (auto split: if_splits)
qed (simp_all add: frame_update_user)

lemma keeps_SetUserTelegramID:
  "data_ok db \<Longrightarrow> lawful_driver d \<Longrightarrow> keeps_data db (fst (SetUserTelegramID d u db))"
  unfolding SetUserTelegramID_def
  by (rule keeps_update_user)
    (use run_op_evolves [of d db "OpSetUserTelegramID u"] data_ok_user [of db] in \<open>auto simp: SetUserTelegramID_def user_ok_def linked_row_def\<close>)

lemma keeps_SetUserGroupName:
  "data_ok db \<Longrightarrow> lawful_driver d \<Longrightarrow> keeps_data db (fst (SetUserGroupName d u db))"
  unfolding SetUserGroupName_def
  by (rule keeps_update_user)
    (use run_op_evolves [of d db "OpSetUserGroupName u"] data_ok_user [of db] in \<open>auto simp: SetUserGroupName_def user_ok_def linked_row_def\<close>)

lemma waits_row:
  assumes "db_ok db" "waits db u" "r \<in> set (dbUsers db)" "mID r = mID u"
  shows "linked_row r"
proof -
  from assms(2) obtain s where s: "s \<in> set (dbUsers db)" "mID s = mID u" "linked_row s" by (auto simp: waits_def)
  have "r = s" using unique_key_eq [OF db_okD(1) [OF assms(1)] assms(3) s(1)] assms(4) s(2) by simp
  with s(3) show ?thesis by simp
qed

lemma keeps_SetUserRepository:
  assumes "data_ok db" "lawful_driver d" "waits db u"
  shows "keeps_data db (fst (SetUserRepository d u db))"
  unfolding SetUserRepository_def
proof (rule keeps_update_user [OF assms(1,2)])
  show "evolves db (fst (update_user d u (\<lambda>r. r\<lparr>usRepository := usRepository u\<rparr>) db))"
    using run_op_evolves [OF assms(2), of db "OpSetUserRepository u"] by (simp add: SetUserRepository_def)
  fix r assume r: "r \<in> set (dbUsers db)" "mID r = mID u"
  have "linked_row r" using waits_row [OF _ assms(3) r] assms(1) by (simp add: data_ok_def)
  with data_ok_user [OF assms(1) r(1)] show "user_ok (r\<lparr>usRepository := usRepository u\<rparr>)"
    by (auto simp: user_ok_def linked_row_def)
qed

lemma keeps_CreateSession:
  assumes "data_ok db" "lawful_driver d"
  shows "keeps_data db (fst (CreateSession d uuid uid db))"
  by (rule keeps_users [OF assms(1) CreateSession_evolves [OF assms(2)]])
    (use data_ok_user [OF assms(1)] in \<open>simp_all add: db_frame\<close>)

lemma keeps_CreateFlag:
  assumes "data_ok db" "lawful_driver d"
  shows "keeps_data db (fst (CreateFlag d uuid now task db))"
proof (rule keeps_dataI [OF assms(1) CreateFlag_evolves [OF assms(2)]])
  fix f glogin assume f: "f \<in> set (dbFlags (fst (CreateFlag d uuid now task db)))" "flGitlabLogin f = Some glogin"
  obtain db' res where "CreateFlag d uuid now task db = (db', res)" by fastforce
  with CreateFlag_rows [OF assms(2) this] f show "f \<in> set (dbFlags db) \<or> has_owner (fst (CreateFlag d uuid now task db)) glogin" by auto
qed (use data_ok_user [OF assms(1)] in \<open>auto simp: db_frame\<close>)

lemma keeps_SubmitFlag:
  assumes "data_ok db" "lawful_driver d" "has_owner db owner"
  shows "keeps_data db (fst (SubmitFlag d flag owner db))"
proof (rule keeps_dataI [OF assms(1) SubmitFlag_evolves [OF assms(2)]])
  fix f glogin assume f: "f \<in> set (dbFlags (fst (SubmitFlag d flag owner db)))" "flGitlabLogin f = Some glogin"
  obtain db' res where s: "SubmitFlag d flag owner db = (db', res)" by fastforce
  have users: "dbUsers db' = dbUsers db" using frame_SubmitFlag(1) [of d flag owner db] s by simp
  show "f \<in> set (dbFlags db) \<or> has_owner (fst (SubmitFlag d flag owner db)) glogin"
  proof (cases "res = Ret ()")
    case True
    with SubmitFlag_result(1) [OF assms(2) s] f s assms(3) users show ?thesis by (auto simp: has_owner_def split: if_splits)
  next
    case False
    with SubmitFlag_result(2) [OF assms(2) s] f s show ?thesis by simp
  qed
qed (use data_ok_user [OF assms(1)] in \<open>auto simp: db_frame\<close>)

lemma AddOverride_owners:
  assumes "lawful_driver d" "p \<in> set (dbOverrides (fst (AddOverride d glogin task score status db)))"
  shows "ovGitlabLogin p \<in> ovGitlabLogin ` set (dbOverrides db) \<or> ovGitlabLogin p = glogin"
proof -
  obtain db' res where a: "AddOverride d glogin task score status db = (db', res)" by fastforce
  show ?thesis
  proof (cases res)
    case (Ret u)
    with a have "AddOverride d glogin task score status db = (db', Ret ())" by simp
    from AddOverride_rows [OF assms(1) this] assms(2) a show ?thesis by (auto split: if_splits)
  qed (use a assms(2) in \<open>auto simp: AddOverride_def split: sum.splits prod.splits\<close>)
qed

lemma keeps_AddOverride:
  assumes "data_ok db" "lawful_driver d" "has_owner db glogin"
  shows "keeps_data db (fst (AddOverride d glogin task score status db))"
proof (rule keeps_dataI [OF assms(1) AddOverride_evolves [OF assms(2)]])
  fix p assume "p \<in> set (dbOverrides (fst (AddOverride d glogin task score status db)))"
  from AddOverride_owners [OF assms(2) this] assms(3)
  show "ovGitlabLogin p \<in> ovGitlabLogin ` set (dbOverrides db) \<or> has_owner (fst (AddOverride d glogin task score status db)) (ovGitlabLogin p)"
    by (auto simp: has_owner_def db_frame)
qed (use data_ok_user [OF assms(1)] in \<open>auto simp: db_frame\<close>)

lemma keeps_pipelines:
  assumes "data_ok db" "evolves db db'" "only_pipelines db db'"
  shows "keeps_data db db'"
proof -
  from assms(3) have "dbUsers db' = dbUsers db" "dbFlags db' = dbFlags db" "dbOverrides db' = dbOverrides db"
    unfolding only_pipelines_def by (metis DB.select_convs DB.surjective DB.update_convs(2))+
  with assms(1,2) data_ok_user [OF assms(1)] show ?thesis by (intro keeps_users) auto
qed

section \<open>Requests keep the invariant\<close>

lemma FindUserByID_mem: "lawful_driver d \<Longrightarrow> FindUserByID d uid db = Ret u \<Longrightarrow> u \<in> set (dbUsers db) \<and> mID u = uid"
  using lawful_firstD [OF lawful_driverD(1), of d] by (fastforce simp: FindUserByID_def)

lemma FindUserByGitlabLogin_mem:
  "lawful_driver d \<Longrightarrow> FindUserByGitlabLogin d glogin db = Ret u \<Longrightarrow> u \<in> set (dbUsers db) \<and> usGitlabLogin u = Some glogin"
  using lawful_firstD [OF lawful_driverD(1), of d] by (fastforce simp: FindUserByGitlabLogin_def)

lemma session_mem:
  assumes "lawful_driver (cnDriver cn)" "tryFindUserByToken cn rq w = Ret (Some (user, session))"
  shows "user \<in> set (dbUsers (wbDB w))"
proof -
  from assms(2) have "FindUserByID (cnDriver cn) (ssUserID session) (wbDB w) = Ret user"
    by (auto simp: tryFindUserByToken_def FindUserBySession_def split: option.splits)
  with FindUserByID_mem [OF assms(1)] show ?thesis by blast
qed

lemma session_user_owner:
  assumes "lawful_driver (cnDriver cn)" "session_user srv cn rq w user" "usGitlabLogin user = Some glogin"
  shows "has_owner (wbDB w) glogin"
  using assms session_mem by (auto simp: session_user_def has_owner_def linked_row_def)

lemma linked_account_waits:
  assumes "lawful_driver d" "guGitlabID a \<noteq> None" "guGitlabLogin a \<noteq> None" "SetUserGitlabAccount d uid a db = (db', Ret ())"
  shows "\<exists>r \<in> set (dbUsers db'). mID r = uid \<and> linked_row r"
proof -
  from assms(1,4) show ?thesis
  proof (cases rule: SetUserGitlabAccount_result)
    case (linked u)
    let ?f = "\<lambda>r. r\<lparr>usGitlabID := guGitlabID a, usGitlabLogin := guGitlabLogin a\<rparr>"
    from linked have "?f u \<in> set (dbUsers db')" by (auto intro: rev_image_eqI)
    with linked(3) assms(2,3) show ?thesis by (intro bexI) (auto simp: linked_row_def)
  qed simp
qed

lemma web_action_keeps:
  assumes act: "web_action srv cn rq w w'" and law: "lawful_driver (cnDriver cn)" and ok: "data_ok (wbDB w)"
    and wait: "\<forall>u \<in> set (wbPrepared w). waits (wbDB w) u"
  shows "keeps_data (wbDB w) (wbDB w') \<and> (\<forall>u \<in> set (wbPrepared w'). waits (wbDB w') u)"
proof -
  have prepared: "\<forall>u \<in> set (wbPrepared w). waits (wbDB w') u" if "keeps_data (wbDB w) (wbDB w')"
    using that wait waits_later by (auto simp: keeps_data_def)
  from act show ?thesis
  proof cases
    case (flag_created req)
    with prepared keeps_CreateFlag [OF ok law] show ?thesis by simp
  next
    case (overridden req user)
    from FindUserByGitlabLogin_mem [OF law overridden(5)] data_ok_user [OF ok, of user]
    have "has_owner (wbDB w) (orLogin req)" by (auto simp: has_owner_def user_ok_def linked_row_def)
    with prepared keeps_AddOverride [OF ok law] overridden(1) show ?thesis by simp
  next
    case (group_changed req user)
    with prepared keeps_SetUserGroupName [OF ok law] show ?thesis by simp
  next
    case registered
    have "keeps_data (wbDB w) (wbDB w')"
      unfolding registered by (simp add: keeps_AddUser [OF ok law] registrant_def new_user_def)
    with prepared registered show ?thesis by simp
  next
    case (registered_session db user)
    have "keeps_data (wbDB w) (fst (AddUser (cnDriver cn) (registrant srv rq) (wbDB w)))"
      by (rule keeps_AddUser [OF ok law]) (simp_all add: registrant_def new_user_def)
    then have k: "keeps_data (wbDB w) db" using registered_session(3) by simp
    then have "data_ok db" by (simp add: keeps_data_def)
    from keeps_data_trans [OF k keeps_CreateSession [OF this law]] prepared registered_session(1) show ?thesis by simp
  next
    case (telegram user bot_token tid)
    with prepared keeps_SetUserTelegramID [OF ok law] show ?thesis by simp
  next
    case (opened gid glogin user)
    with prepared keeps_CreateSession [OF ok law] show ?thesis by simp
  next
    case (link_failed gid glogin user db e)
    with keeps_SetUserGitlabAccount [OF ok law, of _ "mID user"] have "keeps_data (wbDB w) (wbDB w')"
      by (metis GitlabUser.select_convs(1,2) fst_conv option.distinct(1) web.select_convs(1) web.surjective web.update_convs(1))
    with prepared link_failed(1) show ?thesis by simp
  next
    case (linked gid glogin user db)
    let ?a = "\<lparr>guGitlabID = Some gid, guGitlabLogin = Some glogin, guRepository = None\<rparr>"
    have "keeps_data (wbDB w) (fst (SetUserGitlabAccount (cnDriver cn) (mID user) ?a (wbDB w)))"
      by (rule keeps_SetUserGitlabAccount [OF ok law]) simp_all
    then have k: "keeps_data (wbDB w) (wbDB w')" using linked by simp
    have "\<exists>r \<in> set (dbUsers db). mID r = mID user \<and> linked_row r"
      by (rule linked_account_waits [OF law _ _ linked(5)]) simp_all
    then have "waits db (user\<lparr>usGitlabID := Some gid, usGitlabLogin := Some glogin, usRepository := None\<rparr>)"
      by (simp add: waits_def linked_row_def)
    with k prepared linked(1) show ?thesis by auto
  next
    case (flag_submitted user glogin)
    with prepared keeps_SubmitFlag [OF ok law session_user_owner [OF law]] show ?thesis by simp
  qed (use ok wait keeps_data_refl in simp_all)
qed

section \<open>The goroutine keeps the invariant\<close>

lemma maybeInitializeProject_keeps:
  assumes "maybeInitializeProject c sv d user (sent, db) = Some ((sent', db'), res)" "lawful_driver d" "data_ok db" "waits db user"
  shows "keeps_data db db' \<and> (\<forall>b user'. res = Ret (b, user') \<longrightarrow> waits db' user')"
proof -
  have k: "keeps_data db db'"
    using assms(4) maybeInitializeProject_writes [OF assms(1)] keeps_SetUserRepository [OF assms(3,2)] keeps_data_refl [OF assms(3)] by auto
  then have w: "waits db' user" using assms(4) waits_later [of db db' user] by (simp add: keeps_data_def)
  have "user' = user \<or> (\<exists>url. user' = user\<lparr>usRepository := Some url\<rparr>)" if "res = Ret (b, user')" for b user'
    using assms(1) that by (auto simp: maybeInitializeProject_def Let_def split: if_splits option.splits prod.splits outcome.splits)
  with k w show ?thesis by auto
qed

lemma initialize_users_keeps:
  assumes "initialize_users c sv d users (sent, db) = Some ((sent', db'), Ret ())" "lawful_driver d" "data_ok db"
    and "\<forall>u \<in> set users. waits db u"
  shows "keeps_data db db'"
  using assms
proof (induction users arbitrary: sent db)
  case (Cons user users)
  from Cons.prems(1) obtain sent1 db1 res where m: "maybeInitializeProject c sv d user (sent, db) = Some ((sent1, db1), Ret res)"
    and rest: "initialize_users c sv d users (sent1, db1) = Some ((sent', db'), Ret ())"
    by (auto split: option.splits outcome.splits)
  from maybeInitializeProject_keeps [OF m Cons.prems(2,3)] Cons.prems(4) have k: "keeps_data db db1" by simp
  then have "data_ok db1" "\<forall>u \<in> set users. waits db1 u" using Cons.prems(4) waits_later by (auto simp: keeps_data_def)
  from keeps_data_trans [OF k Cons.IH [OF rest Cons.prems(2) this]] show ?case .
qed (simp add: keeps_data_refl)

lemma initializeMissingProjects_keeps:
  assumes "initializeMissingProjects c sv d (sent, db) = Some ((sent', db'), Ret ())" "lawful_driver d" "data_ok db"
  shows "keeps_data db db'"
proof (cases "ListUsersWithoutRepos d db")
  case (Ret users)
  then have "mset users = mset (filter (\<lambda>r. usRepository r = None \<and> usGitlabID r \<noteq> None \<and> usGitlabLogin r \<noteq> None \<and> live r) (dbUsers db))"
    by (intro lawful_findD [OF lawful_driverD(1) [OF assms(2)]]) (simp add: ListUsersWithoutRepos_def)
  from mset_eq_setD [OF this] have "\<forall>u \<in> set users. waits db u" by (auto simp: waits_def linked_row_def)
  with assms Ret show ?thesis by (intro initialize_users_keeps) (auto simp: initializeMissingProjects_def)
qed (use assms keeps_data_refl in \<open>auto simp: initializeMissingProjects_def\<close>)

section \<open>Every reachable state\<close>

lemma maker_own_keeps:
  assumes step: "maker_own c sv d (pm, (sent, db)) (pm', (sent', db'))" and law: "lawful_driver d" and ok: "data_ok db"
    and wait: "\<forall>u \<in> set (pmUsers pm) \<union> (case pmPc pm of Resending u \<Rightarrow> {u} | _ \<Rightarrow> {}). waits db u"
  shows "keeps_data db db' \<and> (\<forall>u \<in> set (pmUsers pm') \<union> (case pmPc pm' of Resending u \<Rightarrow> {u} | _ \<Rightarrow> {}). waits db' u)"
proof -
  have later: "waits db u \<Longrightarrow> waits db' u" if "keeps_data db db'" for u
    using that waits_later [of db db' u] by (simp add: keeps_data_def)
  from step show ?thesis
  proof (cases rule: maker_own.cases)
    case disabled
    with wait keeps_data_refl [OF ok] show ?thesis by auto
  next
    case (first_pass interval)
    with initializeMissingProjects_keeps [OF first_pass(4) law ok] wait later show ?thesis by auto
  next
    case (receive_ok user users user')
    with maybeInitializeProject_keeps [OF receive_ok(4) law ok] wait later show ?thesis by auto
  next
    case (receive_failed user users user')
    with maybeInitializeProject_keeps [OF receive_failed(4) law ok] wait later show ?thesis by auto
  next
    case (resend user)
    with wait keeps_data_refl [OF ok] show ?thesis by auto
  next
    case tick
    with initializeMissingProjects_keeps [OF tick(4) law ok] wait later show ?thesis by auto
  next
    case cancel
    with wait keeps_data_refl [OF ok] show ?thesis by auto
  qed
qed

lemma waiting_with_db [simp]: "waiting (with_db s sent db) = waiting s" "wbDB (syWeb (with_db s sent db)) = db"
  by (simp_all add: waiting_def with_db_def)

lemma system_ok_later:
  assumes "system_ok s" "keeps_data (wbDB (syWeb s)) db" "wbDB (syWeb t) = db" "waiting t = waiting s"
  shows "system_ok t"
  using assms waits_later [of "wbDB (syWeb s)" db] by (auto simp: system_ok_def keeps_data_def)

lemma system_step_ok:
  assumes "system_step c sv s t" "system_ok s"
  shows "system_ok t"
  using assms(1)
proof cases
  case (request cn srv r rq)
  let ?w' = "fst (serve srv r cn rq (syWeb s))"
  have k: "keeps_data (wbDB (syWeb s)) (wbDB ?w') \<and> (\<forall>u \<in> set (wbPrepared ?w'). waits (wbDB ?w') u)"
    using assms(2) by (intro web_action_keeps [OF serve_action request(2)]) (auto simp: system_ok_def waiting_def)
  then have "waits (wbDB (syWeb s)) u \<Longrightarrow> waits (wbDB ?w') u" for u
    using waits_later [of "wbDB (syWeb s)" "wbDB ?w'" u] by (simp add: keeps_data_def)
  with k assms(2) request(1) show ?thesis by (auto simp: system_ok_def waiting_def keeps_data_def)
next
  case (hand_over user users)
  then have "waiting t = waiting s" "wbDB (syWeb t) = wbDB (syWeb s)" by (auto simp: waiting_def)
  with assms(2) show ?thesis by (simp add: system_ok_def)
next
  case (maker d pm sent db)
  let ?db = "wbDB (syWeb s)"
  have k: "keeps_data ?db db \<and> (\<forall>u \<in> set (pmUsers pm) \<union> (case pmPc pm of Resending u \<Rightarrow> {u} | _ \<Rightarrow> {}). waits db u)"
    by (rule maker_own_keeps [OF maker(3,2)]) (use assms(2) in \<open>auto simp: system_ok_def waiting_def\<close>)
  then have "waits ?db u \<Longrightarrow> waits db u" for u
    using waits_later [of ?db db u] by (simp add: keeps_data_def)
  with k assms(2) maker(1) show ?thesis by (auto simp: system_ok_def waiting_def keeps_data_def with_db_def)
next
  case (pass d sent db)
  from fetchAllPipelines_db [OF pass(3,2)] assms(2) have "keeps_data (wbDB (syWeb s)) db"
    by (intro keeps_pipelines) (auto simp: system_ok_def)
  with assms(2) show ?thesis unfolding pass(1) by (rule system_ok_later) simp_all
next
  case (poll d visited pf sent db)
  from fetchFreshPipelines_db [OF poll(2,3)] assms(2) have "keeps_data (wbDB (syWeb s)) db"
    by (intro keeps_pipelines) (auto simp: system_ok_def)
  with assms(2) show ?thesis unfolding poll(1)
    by (rule system_ok_later) (simp_all add: waiting_def with_db_def)
qed

text \<open>The system starts on a database that is fine, with no request served.\<close>

definition start_system :: "duration option \<Rightarrow> DB \<Rightarrow> system" where
  "start_system interval db = \<lparr>syWeb = newServer db, syMaker = NewProjectsMaker interval, syLog = []\<rparr>"

text \<open>
  C1. In every state that the program reaches from a sound database, by whatever requests, initializations, passes and
  polls in whatever order, the constraints of the tables hold; a student has both halves of the GitLab account or none; a
  repository is only ever stored for a linked student, so every student of a scoreboard has the project name
  that computing the scores dereferences the login for; every submitted flag and every override belongs to a linked student;
  and whoever waits for a project is a linked student.
\<close>

theorem system_invariant:
  assumes "data_ok db" "(system_step c sv)\<^sup>*\<^sup>* (start_system interval db) s"
  shows "data_ok (wbDB (syWeb s)) \<and> (\<forall>u \<in> waiting s. waits (wbDB (syWeb s)) u)
    \<and> (\<forall>d grp users. lawful_driver d \<longrightarrow> ListGroupUsers d grp (wbDB (syWeb s)) = Ret users \<longrightarrow>
         (\<forall>u \<in> set users. \<exists>name. MakeProjectName c u = Ret name))"
proof -
  have "system_ok (start_system interval db)"
    using assms(1) by (simp add: system_ok_def start_system_def newServer_def NewProjectsMaker_def waiting_def)
  with assms(2) have ok: "system_ok s"
    by (induction rule: rtranclp_induct) (auto intro: system_step_ok)
  have "\<exists>name. MakeProjectName c u = Ret name"
    if d: "lawful_driver d" "ListGroupUsers d grp (wbDB (syWeb s)) = Ret users" "u \<in> set users" for d grp users u
  proof -
    have "mset users = mset (filter (\<lambda>r. usRepository r \<noteq> None \<and> usGroupName r = grp \<and> live r) (dbUsers (wbDB (syWeb s))))"
      using d(2) by (intro lawful_findD [OF lawful_driverD(1) [OF d(1)]]) (simp add: ListGroupUsers_def)
    from mset_eq_setD [OF this] d(3) have "u \<in> set (dbUsers (wbDB (syWeb s)))" "usRepository u \<noteq> None" by auto
    with ok data_ok_user have "linked_row u" by (auto simp: system_ok_def user_ok_def)
    then show ?thesis by (auto simp: linked_row_def MakeProjectName_def)
  qed
  with ok show ?thesis by (auto simp: system_ok_def)
qed

lemma course_data_ok: "data_ok course_db"
  using course_db_ok by (simp add: data_ok_def user_ok_def linked_row_def course_db_def course_student_def)

lemma course_step:
  "system_step sample_client sample_server (start_system (Some 1) course_db) ((start_system (Some 1) course_db)\<lparr>syWeb := newServer issued_db\<rparr>)"
proof -
  have "map_of (routes course_server) (POST, ''/api/flag'') = Some (createFlag course_server)"
    by (simp add: routes_def setupLoginService_def setupApiService_def Let_def) (simp add: course_server_def course_config_def course_endpoints_def)
  then have s: "fst (serve course_server (POST, ''/api/flag'') (course_conn ''1f'') flag_request (syWeb (start_system (Some 1) course_db))) = newServer issued_db"
    by (simp add: serve_def course_createFlag start_system_def)
  have "lawful_driver (cnDriver (course_conn ''1f''))" "wsGitlab course_server = sample_client"
    by (simp_all add: course_conn_def mem_driver_lawful course_server_def)
  from system_step.request [OF this, of sample_server "start_system (Some 1) course_db" "(POST, ''/api/flag'')" flag_request] s
  show ?thesis by simp
qed

lemma system_invariant_witness: "data_ok issued_db"
  using system_invariant [OF course_data_ok r_into_rtranclp [of "system_step sample_client sample_server", OF course_step]] by (simp add: newServer_def)

end
