(* ===== verification/Interleaving.thy ===== *)
theory Interleaving
  imports System
begin

text \<open>
  The same invariant when requests and goroutines overlap. The step relation of \<open>System\<close> runs a request in one step; the server
  runs every request in a goroutine of its own, and between two statements of one the statements of others are executed. A
  statement is what the database executes at once: each operation of \<open>internal/database\<close> is one, but for \<open>AddUser\<close>, whose
  \<open>FirstOrCreate\<close> is a query and then an insertion.
\<close>

section \<open>Statements\<close>

datatype statement = Operation db_op | CreateRow User

fun run_statement :: "driver \<Rightarrow> statement \<Rightarrow> DB \<Rightarrow> DB" where
  "run_statement d (Operation op1) db = run_op d op1 db"
| "run_statement d (CreateRow u) db =
     (case sqInsert (drUsers d) u (dbUsers db) of Inr (u', rows) \<Rightarrow> db\<lparr>dbUsers := rows\<rparr> | Inl e \<Rightarrow> db)"

text \<open>\<open>AddUser\<close> alone is the insertion, if the query has found nobody.\<close>

lemma AddUser_statements:
  "fst (AddUser d u db) =
     (if sqFirst (drUsers d) (user_cond u) (dbUsers db) = Inl ErrRecordNotFound then run_statement d (CreateRow u) db else db)"
  by (auto simp: AddUser_def split: sum.split)

text \<open>
  What the program must have seen in the database before it issues a statement: who submits a flag or gets an override is linked, and
  so is the user whose repository is stored; a new user has no account yet, and an account is linked with both its halves. Nothing
  removes an override.
\<close>

fun justified :: "DB \<Rightarrow> statement \<Rightarrow> bool" where
  "justified seen (CreateRow u) = (usGitlabID u = None \<and> usGitlabLogin u = None \<and> usRepository u = None)"
| "justified seen (Operation (OpAddUser u)) = (usGitlabID u = None \<and> usGitlabLogin u = None \<and> usRepository u = None)"
| "justified seen (Operation (OpSetUserGitlabAccount uid a)) = (guGitlabID a \<noteq> None \<and> guGitlabLogin a \<noteq> None)"
| "justified seen (Operation (OpSetUserRepository u)) = waits seen u"
| "justified seen (Operation (OpSubmitFlag flag glogin)) = has_owner seen glogin"
| "justified seen (Operation (OpAddOverride glogin task score status)) = has_owner seen glogin"
| "justified seen (Operation (OpRemoveOverride now glogin task)) = False"
| "justified seen (Operation op1) = True"

lemma justified_later:
  assumes "extends user_later (dbUsers seen) (dbUsers db)" "justified seen st" shows "justified db st"
  using assms(2) has_owner_later [OF assms(1)] waits_later [OF assms(1)]
  by (cases "(seen, st)" rule: justified.cases) auto

section \<open>One statement\<close>

lemma CreateRow_evolves: "lawful_driver d \<Longrightarrow> evolves db (run_statement d (CreateRow u) db)"
  using user_order.insert_extends [OF lawful_driverD(1)] by (auto intro!: evolves_users split: sum.split)

lemma keeps_CreateRow:
  assumes "data_ok db" "lawful_driver d" "usGitlabID u = None" "usGitlabLogin u = None" "usRepository u = None"
  shows "keeps_data db (run_statement d (CreateRow u) db)"
proof (rule keeps_users [OF assms(1) CreateRow_evolves [OF assms(2)]])
  fix v assume v: "v \<in> set (dbUsers (run_statement d (CreateRow u) db))"
  show "user_ok v"
  proof (cases "sqInsert (drUsers d) u (dbUsers db)")
    case (Inr r)
    obtain u' rows where r: "r = (u', rows)" by fastforce
    from lawful_insertD [OF lawful_driverD(1) [OF assms(2)] Inr [unfolded r]]
    have "rows = dbUsers db @ [u']" "stored_user u u'" by auto
    moreover from this(2) assms(3-5) have "user_ok u'" by (cases u; cases u') (auto simp: stored_user_def user_ok_def)
    ultimately show ?thesis using v data_ok_user [OF assms(1)] Inr r by auto
  qed (use v data_ok_user [OF assms(1)] in simp)
qed (simp_all split: sum.split)

lemma keeps_AddPipeline: "data_ok db \<Longrightarrow> lawful_driver d \<Longrightarrow> keeps_data db (fst (AddPipeline d p db))"
  by (rule keeps_users) (use data_ok_user [of db] in \<open>simp_all add: AddPipeline_evolves db_frame\<close>)

lemma keeps_statement:
  assumes "justified db st" "data_ok db" "lawful_driver d" shows "keeps_data db (run_statement d st db)"
proof (cases st)
  case (CreateRow u)
  with assms keeps_CreateRow [OF assms(2,3)] show ?thesis by simp
next
  case (Operation op1)
  with assms show ?thesis
    by (cases op1)
      (simp_all add: keeps_AddUser keeps_SetUserGitlabAccount keeps_SetUserRepository keeps_SetUserTelegramID keeps_SetUserGroupName
        keeps_AddPipeline keeps_CreateSession keeps_CreateFlag keeps_SubmitFlag keeps_AddOverride)
qed

section \<open>Any interleaving\<close>

text \<open>
  The databases that there have been, latest first. Each statement is justified by what was there at some earlier time, when the
  goroutine that issues it has looked; since then others may have issued any number of statements. The driver may fail each time.
\<close>

inductive interleaving :: "DB list \<Rightarrow> bool" where
  start: "data_ok db \<Longrightarrow> interleaving [db]"
| statement:
    "interleaving (db # past) \<Longrightarrow> seen \<in> set (db # past) \<Longrightarrow> justified seen st \<Longrightarrow> lawful_driver d \<Longrightarrow>
     interleaving (run_statement d st db # db # past)"

inductive_cases interleavingE: "interleaving dbs"

text \<open>
  C2. However the requests, the goroutines and the retries of failed statements overlap, the invariant of C1 holds after every
  statement, provided that whoever issues a statement has seen, at any earlier time, what justifies it; and nobody who was linked, no
  flag and no session is ever lost meanwhile.
\<close>

theorem interleaved_invariant:
  assumes "interleaving (db # past)"
  shows "data_ok db \<and> (\<forall>seen \<in> set past. evolves seen db)"
proof -
  have "data_ok (hd dbs) \<and> (\<forall>seen \<in> set dbs. evolves seen (hd dbs))" if "interleaving dbs" for dbs
    using that
  proof (induction rule: interleaving.induct)
    case (statement db past seen st d)
    let ?db' = "run_statement d st db"
    from statement(2,5) have "extends user_later (dbUsers seen) (dbUsers db)" by (auto simp: evolves_def)
    from justified_later [OF this statement(3)] have "justified db st" .
    from keeps_statement [OF this _ statement(4)] statement(5) have "data_ok ?db'" by (simp add: keeps_data_def)
    moreover have "evolves db ?db'"
      using run_op_evolves [OF statement(4)] CreateRow_evolves [OF statement(4)] by (cases st) (simp_all del: run_op.simps)
    ultimately show ?case using statement(5) evolves_trans by auto
  qed simp
  from this [OF assms] show ?thesis by simp
qed

section \<open>What requests and goroutines issue\<close>

text \<open>The statements of a request that runs alone: each is justified by the database that the request has met.\<close>

definition issues :: "driver \<Rightarrow> DB \<Rightarrow> DB \<Rightarrow> bool" where
  "issues d db db' \<longleftrightarrow> (\<exists>sts. db' = fold (run_statement d) sts db \<and> (\<forall>st \<in> set sts. justified db st))"

lemma issues_nothing [simp]: "issues d db db"
  unfolding issues_def by (rule exI [of _ "[]"]) simp

lemma issues_one: "db' = run_statement d st db \<Longrightarrow> justified db st \<Longrightarrow> issues d db db'"
  unfolding issues_def by (rule exI [of _ "[st]"]) simp

lemma issues_two:
  "db' = run_statement d st2 (run_statement d st1 db) \<Longrightarrow> justified db st1 \<Longrightarrow> justified db st2 \<Longrightarrow> issues d db db'"
  unfolding issues_def by (rule exI [of _ "[st1, st2]"]) simp

lemma requests_justified:
  assumes act: "web_action srv cn rq w w'" and law: "lawful_driver (cnDriver cn)" and ok: "data_ok (wbDB w)"
  shows "issues (cnDriver cn) (wbDB w) (wbDB w')"
  using act
proof cases
  case (flag_created req)
  then show ?thesis
    by (intro issues_one [of _ _ "Operation (OpCreateFlag (cnUUID cn) (cnNow cn) (frTask req))"]) simp_all
next
  case (overridden req user)
  from FindUserByGitlabLogin_mem [OF law overridden(5)] data_ok_user [OF ok, of user]
  have "has_owner (wbDB w) (orLogin req)" by (auto simp: has_owner_def user_ok_def linked_row_def)
  with overridden show ?thesis
    by (intro issues_one [of _ _ "Operation (OpAddOverride (orLogin req) (orTask req) (orScore req) (orStatus req))"]) simp_all
next
  case (group_changed req user)
  then show ?thesis by (intro issues_one [of _ _ "Operation (OpSetUserGroupName (user\<lparr>usGroupName := cgGroupName req\<rparr>))"]) simp_all
next
  case registered
  then show ?thesis
    by (intro issues_one [of _ _ "Operation (OpAddUser (registrant srv rq))"]) (simp_all add: registrant_def new_user_def)
next
  case (registered_session db user)
  then show ?thesis
    by (intro issues_two [of _ _ "Operation (OpCreateSession (cnUUID cn) (mID user))" "Operation (OpAddUser (registrant srv rq))"])
      (simp_all add: registrant_def new_user_def)
next
  case (telegram user bot_token tid)
  then show ?thesis by (intro issues_one [of _ _ "Operation (OpSetUserTelegramID (user\<lparr>usTelegramID := Some tid\<rparr>))"]) simp_all
next
  case (opened gid glogin user)
  then show ?thesis by (intro issues_one [of _ _ "Operation (OpCreateSession (cnUUID cn) (mID user))"]) simp_all
next
  case (link_failed gid glogin user db e)
  then show ?thesis
    by (intro issues_one [of _ _ "Operation (OpSetUserGitlabAccount (mID user) \<lparr>guGitlabID = Some gid, guGitlabLogin = Some glogin, guRepository = None\<rparr>)"])
      simp_all
next
  case (linked gid glogin user db)
  then show ?thesis
    by (intro issues_one [of _ _ "Operation (OpSetUserGitlabAccount (mID user) \<lparr>guGitlabID = Some gid, guGitlabLogin = Some glogin, guRepository = None\<rparr>)"])
      simp_all
next
  case (flag_submitted user glogin)
  then show ?thesis
    by (intro issues_one [of _ _ "Operation (OpSubmitFlag (PostForm rq ''flag'') glogin)"]) (simp_all add: session_user_owner [OF law])
qed simp_all

lemma served_justified:
  "lawful_driver (cnDriver cn) \<Longrightarrow> data_ok (wbDB w) \<Longrightarrow> issues (cnDriver cn) (wbDB w) (wbDB (fst (serve srv r cn rq w)))"
  by (rule requests_justified [OF serve_action])

text \<open>The goroutine of the projects stores the repository of a user whom it was handed, or whom it has listed.\<close>

lemma initialization_justified:
  assumes "maybeInitializeProject c sv d user (sent, db) = Some ((sent', db'), res)" "waits db user"
  shows "issues d db db'"
  using maybeInitializeProject_writes [OF assms(1)]
proof (elim disjE exE conjE)
  fix url assume "db' = fst (SetUserRepository d (user\<lparr>usRepository := Some url\<rparr>) db)"
  with assms(2) show ?thesis
    by (intro issues_one [of _ _ "Operation (OpSetUserRepository (user\<lparr>usRepository := Some url\<rparr>))"]) simp_all
qed simp

section \<open>Witness\<close>

text \<open>
  Two registrations of one student overlap: both queries find nobody, both rows are to be created, and the second one is turned down by
  the unique index; a flag is issued meanwhile.
\<close>

definition overlapping :: "DB list" where
  "overlapping =
     (let db0 = course_db;
          db1 = run_statement mem_driver (CreateRow (new_user ''C'' ''D'' ''g1'')) db0;
          db2 = run_statement mem_driver (Operation (OpCreateFlag ''1f'' 5 ''a'')) db1;
          db3 = run_statement mem_driver (CreateRow (new_user ''C'' ''D'' ''g1'')) db2
      in [db3, db2, db1, db0])"

lemma overlapping_interleaving: "interleaving overlapping"
  unfolding overlapping_def Let_def
  by (rule interleaving.statement [where seen = course_db] interleaving.start course_data_ok)+
    (simp_all add: mem_driver_lawful new_user_def)

lemma interleaved_invariant_witness:
  "data_ok (hd overlapping) \<and> evolves course_db (hd overlapping) \<and> length (dbUsers (hd overlapping)) = 2"
proof -
  obtain db past where o: "overlapping = db # past" "course_db \<in> set past" by (simp add: overlapping_def Let_def)
  have "length (dbUsers (hd overlapping)) = 2"
    by (simp add: overlapping_def Let_def course_db_def course_student_def new_user_def CreateFlag_def mem_eval)
  moreover have "interleaving (db # past)" using overlapping_interleaving by (simp only: o(1))
  from interleaved_invariant [OF this] o(2) have "data_ok db" "evolves course_db db" by auto
  ultimately show ?thesis by (simp only: o(1) list.sel)
qed

end
