(* ===== verification/WebFlags.thy ===== *)
theory WebFlags
  imports WebAccess DatabaseFrame WebSample
begin

text \<open>
  The flags of crash-me tasks, from the endpoint that creates them to the page where students submit them: which tasks have flags
  that the pattern of the page accepts, and the abstract ledger of flags that the server implements.
\<close>

section \<open>The pattern\<close>

text \<open>Cut a string at the dashes.\<close>

fun split_dash :: "rune list \<Rightarrow> rune list list" where
  "split_dash [] = [[]]"
| "split_dash (x # xs) =
     (if x = 45 then [] # split_dash xs
      else case split_dash xs of [] \<Rightarrow> [[x]] | seg # segs \<Rightarrow> (x # seg) # segs)"

lemma split_dash_not_Nil [simp]: "split_dash xs \<noteq> []"
  by (induction xs) (auto split: list.split)

lemma split_dash_append: "split_dash (xs @ 45 # ys) = split_dash xs @ split_dash ys"
  by (induction xs) (auto split: list.split)

lemma split_dash_segment: "45 \<notin> set xs \<Longrightarrow> split_dash xs = [xs]"
  by (induction xs) auto

lemma split_dash_join:
  assumes "segs \<noteq> []" "\<forall>seg \<in> set segs. 45 \<notin> set seg"
  shows "split_dash (tl (concat (map ((#) 45) segs))) = segs"
  using assms
proof (induction segs)
  case (Cons seg segs)
  show ?case
  proof (cases segs)
    case Nil
    with Cons.prems show ?thesis by (simp add: split_dash_segment)
  next
    case (Cons s ss)
    with Cons.IH Cons.prems have "split_dash (tl (concat (map ((#) 45) segs))) = segs" by simp
    moreover have "concat (map ((#) 45) segs) = 45 # tl (concat (map ((#) 45) segs))" using Cons by simp
    ultimately have "split_dash (seg @ concat (map ((#) 45) segs)) = split_dash seg @ segs"
      by (metis split_dash_append)
    with Cons.prems show ?thesis by (simp add: split_dash_segment)
  qed
qed simp

lemma join_split_dash: "concat (map ((#) 45) (split_dash xs)) = 45 # xs"
proof (induction xs)
  case (Cons x xs)
  then show ?case by (cases "split_dash xs") auto
qed simp

definition words :: "(rune \<Rightarrow> bool) \<Rightarrow> rune list \<Rightarrow> bool" where
  "words p xs \<longleftrightarrow> (\<forall>seg \<in> set (split_dash xs). seg \<noteq> [] \<and> list_all p seg)"

lemma lang_dash_words:
  assumes "\<not> p 45"
  shows "in_lang (Plus (Concat (literal ''-'') (Plus (Class p)))) xs \<longleftrightarrow> (\<exists>ys. xs = 45 # ys \<and> words p ys)"
proof -
  have dash: "in_lang (Concat (literal ''-'') r) xs \<longleftrightarrow> in_lang (Concat (Class (\<lambda>x. x = 45)) r) xs" for r xs
    by (auto simp: in_lang_Concat lang_literal)
  have rep: "in_lang (Repeat (Concat (literal ''-'') r)) xs \<longleftrightarrow> in_lang (Repeat (Concat (Class (\<lambda>x. x = 45)) r)) xs" for r xs
  proof
    show "in_lang (Repeat (Concat (literal ''-'') r)) xs \<Longrightarrow> in_lang (Repeat (Concat (Class (\<lambda>x. x = 45)) r)) xs"
      by (induction "Repeat (Concat (literal ''-'') r)" xs rule: in_lang.induct) (auto simp: dash intro: in_lang.stop in_lang.again)
    show "in_lang (Repeat (Concat (Class (\<lambda>x. x = 45)) r)) xs \<Longrightarrow> in_lang (Repeat (Concat (literal ''-'') r)) xs"
      by (induction "Repeat (Concat (Class (\<lambda>x. x = 45)) r)" xs rule: in_lang.induct)
        (auto simp: dash [symmetric] intro: in_lang.stop in_lang.again)
  qed
  let ?seg = "\<lambda>seg. seg \<noteq> [] \<and> list_all p seg"
  have no: "45 \<notin> set seg" if "?seg seg" for seg using that assms by (auto simp: list_all_iff)
  let ?X = "Concat (literal ''-'') (Plus (Class p))"
  have X: "in_lang ?X ys \<longleftrightarrow> (\<exists>seg. ys = 45 # seg \<and> ?seg seg)" for ys
    unfolding dash in_lang_Concat [of "Class _" "Plus (Class p)"] lang_Plus_Class by auto
  have R: "in_lang (Repeat ?X) zs \<longleftrightarrow> (\<exists>segs. (\<forall>s \<in> set segs. ?seg s) \<and> zs = concat (map ((#) 45) segs))" for zs
    unfolding rep lang_Repeat_segments lang_Plus_Class by blast
  have "in_lang (Plus ?X) xs \<longleftrightarrow>
      (\<exists>seg segs. ?seg seg \<and> (\<forall>s \<in> set segs. ?seg s) \<and> xs = 45 # seg @ concat (map ((#) 45) segs))"
  proof
    assume "in_lang (Plus ?X) xs"
    then obtain ys zs where "xs = ys @ zs" "in_lang ?X ys" "in_lang (Repeat ?X) zs"
      unfolding in_lang_Concat [of ?X "Repeat ?X"] by blast
    then obtain seg segs where "xs = (45 # seg) @ concat (map ((#) 45) segs)" "?seg seg" "\<forall>s \<in> set segs. ?seg s"
      unfolding X R by blast
    then show "\<exists>seg segs. ?seg seg \<and> (\<forall>s \<in> set segs. ?seg s) \<and> xs = 45 # seg @ concat (map ((#) 45) segs)"
      by (intro exI [of _ seg] exI [of _ segs]) simp
  next
    assume "\<exists>seg segs. ?seg seg \<and> (\<forall>s \<in> set segs. ?seg s) \<and> xs = 45 # seg @ concat (map ((#) 45) segs)"
    then obtain seg segs where s: "?seg seg" "\<forall>s \<in> set segs. ?seg s" "xs = (45 # seg) @ concat (map ((#) 45) segs)" by auto
    have "in_lang ?X (45 # seg)" unfolding X using s(1) by blast
    moreover have "in_lang (Repeat ?X) (concat (map ((#) 45) segs))" unfolding R using s(2) by blast
    ultimately show "in_lang (Plus ?X) xs" unfolding s(3) by (rule in_lang.concat)
  qed
  also have "\<dots> \<longleftrightarrow> (\<exists>ys. xs = 45 # ys \<and> words p ys)"
  proof
    assume "\<exists>seg segs. ?seg seg \<and> (\<forall>s \<in> set segs. ?seg s) \<and> xs = 45 # seg @ concat (map ((#) 45) segs)"
    then obtain seg segs where s: "?seg seg" "\<forall>s \<in> set segs. ?seg s" "xs = 45 # seg @ concat (map ((#) 45) segs)" by blast
    then have "split_dash (tl (concat (map ((#) 45) (seg # segs)))) = seg # segs"
      by (intro split_dash_join) (auto simp: no)
    with s show "\<exists>ys. xs = 45 # ys \<and> words p ys"
      by (intro exI [of _ "seg @ concat (map ((#) 45) segs)"]) (simp add: words_def)
  next
    assume "\<exists>ys. xs = 45 # ys \<and> words p ys"
    then obtain ys where ys: "xs = 45 # ys" "words p ys" by blast
    obtain seg segs where split: "split_dash ys = seg # segs" by (cases "split_dash ys") auto
    then have "45 # ys = 45 # seg @ concat (map ((#) 45) segs)" using join_split_dash [of ys] by simp
    with ys split show "\<exists>seg segs. ?seg seg \<and> (\<forall>s \<in> set segs. ?seg s) \<and> xs = 45 # seg @ concat (map ((#) 45) segs)"
      by (intro exI [of _ seg] exI [of _ segs]) (simp add: words_def)
  qed
  finally show ?thesis .
qed

lemma lang_flagRe:
  "in_lang flagRe xs \<longleftrightarrow>
     (\<exists>a b. xs = map byte ''{FLAG'' @ 45 # a @ 45 # b @ map byte ''}'' \<and> words flag_rune a \<and> words hex_rune b)"
proof -
  have no: "\<not> flag_rune 45" "\<not> hex_rune 45" by (simp_all add: flag_rune_def hex_rune_def)
  let ?F = "Plus (Concat (literal ''-'') (Plus (Class flag_rune)))" and ?H = "Plus (Concat (literal ''-'') (Plus (Class hex_rune)))"
  let ?rest = "literal ''}''"
  have parts: "\<exists>a b. xs = map byte ''{FLAG'' @ 45 # a @ 45 # b @ map byte ''}'' \<and> words flag_rune a \<and> words hex_rune b"
    if "in_lang flagRe xs"
  proof -
    from that obtain as ys where 1: "xs = as @ ys" "in_lang (literal ''{FLAG'') as" "in_lang (Concat ?F (Concat ?H ?rest)) ys"
      unfolding flagRe_def in_lang_Concat [of "literal ''{FLAG''"] by blast
    from 1(3) obtain f zs where 2: "ys = f @ zs" "in_lang ?F f" "in_lang (Concat ?H ?rest) zs"
      unfolding in_lang_Concat [of ?F] by blast
    from 2(3) obtain h es where 3: "zs = h @ es" "in_lang ?H h" "in_lang ?rest es"
      unfolding in_lang_Concat [of ?H] by blast
    from 2(2) obtain a where "f = 45 # a" "words flag_rune a" unfolding lang_dash_words [of flag_rune, OF no(1)] by blast
    moreover from 3(2) obtain b where "h = 45 # b" "words hex_rune b" unfolding lang_dash_words [of hex_rune, OF no(2)] by blast
    ultimately show ?thesis using 1(1,2) 2(1) 3(1,3) unfolding lang_literal by (intro exI [of _ a] exI [of _ b]) simp
  qed
  have whole: "in_lang flagRe (map byte ''{FLAG'' @ (45 # a) @ (45 # b) @ map byte ''}'')"
    if "words flag_rune a" "words hex_rune b" for a b
  proof -
    have "in_lang ?F (45 # a)" using that(1) unfolding lang_dash_words [of flag_rune, OF no(1)] by blast
    moreover have "in_lang ?H (45 # b)" using that(2) unfolding lang_dash_words [of hex_rune, OF no(2)] by blast
    ultimately show ?thesis unfolding flagRe_def by (intro in_lang.concat) (simp_all only: lang_literal)
  qed
  show ?thesis using parts whole by auto
qed

lemma words_append: "words p (xs @ 45 # ys) \<longleftrightarrow> words p xs \<and> words p ys"
  by (auto simp: words_def split_dash_append)

lemma words_mono: "words p xs \<Longrightarrow> (\<And>x. p x \<Longrightarrow> q x) \<Longrightarrow> words q xs"
  by (auto simp: words_def list_all_iff)

lemma hex_flag: "hex_rune x \<Longrightarrow> flag_rune x"
  by (auto simp: hex_rune_def flag_rune_def)

text \<open>A task whose flags the pattern accepts: words of small letters, digits, underscores and slashes, joined by dashes.\<close>

definition flag_task :: "string \<Rightarrow> bool" where
  "flag_task task \<longleftrightarrow> ascii task \<and> words flag_rune (map byte task)"

definition hex_uuid :: "string \<Rightarrow> bool" where
  "hex_uuid uuid \<longleftrightarrow> ascii uuid \<and> words hex_rune (map byte uuid)"

lemma flagRe_flag_id:
  assumes "ascii task" "hex_uuid uuid"
  shows "MatchString flagRe (flag_id task uuid) \<longleftrightarrow> flag_task task"
proof -
  let ?t = "map byte task :: rune list" and ?u = "map byte uuid :: rune list"
  have r: "runes (flag_id task uuid) = map byte ''{FLAG'' @ 45 # ?t @ 45 # ?u @ map byte ''}''"
  proof -
    have "ascii (flag_id task uuid)" using assms by (simp add: flag_id_def hex_uuid_def)
    then show ?thesis by (simp add: runes_ascii flag_id_def)
  qed
  show ?thesis
  proof
    assume "MatchString flagRe (flag_id task uuid)"
    then obtain a b where "a @ 45 # b = ?t @ 45 # ?u" "words flag_rune a" "words hex_rune b"
      unfolding MatchString_def matches_iff r lang_flagRe by auto
    then have "words flag_rune (?t @ 45 # ?u)" using words_append [of flag_rune a b] words_mono [of hex_rune b flag_rune] hex_flag
      by auto
    with assms(1) show "flag_task task" by (simp add: flag_task_def words_append)
  next
    assume "flag_task task"
    with assms(2) show "MatchString flagRe (flag_id task uuid)"
      unfolding MatchString_def matches_iff r lang_flagRe flag_task_def hex_uuid_def by blast
  qed
qed

section \<open>The ledger of flags\<close>

text \<open>
  The specification: a flag is unknown, issued, or owned by a login; an unknown flag can be issued, and an issued one can be
  submitted once.
\<close>

type_synonym ledger = "string \<rightharpoonup> string option"

definition ledger_issue :: "string \<Rightarrow> ledger \<Rightarrow> ledger option" where
  "ledger_issue flag l = (if l flag = None then Some (l(flag \<mapsto> None)) else None)"

definition ledger_submit :: "string \<Rightarrow> string \<Rightarrow> ledger \<Rightarrow> ledger option" where
  "ledger_submit flag owner l = (if l flag = Some None then Some (l(flag \<mapsto> Some owner)) else None)"

text \<open>The ledger that a table of flags stands for.\<close>

definition ledger_of :: "DB \<Rightarrow> ledger" where
  "ledger_of db = map_of (map (\<lambda>f. (flID f, flGitlabLogin f)) (dbFlags db))"

lemma ledger_of_frame: "dbFlags db' = dbFlags db \<Longrightarrow> ledger_of db' = ledger_of db"
  by (simp add: ledger_of_def)

lemma flags_distinct: "db_ok db \<Longrightarrow> distinct (map flID (dbFlags db))"
proof -
  assume "db_ok db"
  then have "unique_key (\<lambda>f. Some (flID f)) (dbFlags db)" by (rule db_okD)
  then have "distinct (List.map_filter (\<lambda>f. Some (flID f)) (dbFlags db))" by (simp add: unique_key_def)
  then show ?thesis by (simp add: map_filter_def comp_def)
qed

lemma ledger_of_row:
  assumes "db_ok db" "f \<in> set (dbFlags db)"
  shows "ledger_of db (flID f) = Some (flGitlabLogin f)"
  unfolding ledger_of_def using assms flags_distinct [OF assms(1)]
  by (intro map_of_is_SomeI) (auto simp: comp_def)

lemma ledger_of_None: "ledger_of db flag = None \<longleftrightarrow> (\<forall>f \<in> set (dbFlags db). flID f \<noteq> flag)"
  by (auto simp: ledger_of_def map_of_eq_None_iff image_iff)

lemma map_of_update_rows:
  "map_of (map (\<lambda>f. (flID f, flGitlabLogin f)) (map (\<lambda>f. if flID f = flag \<and> flGitlabLogin f = None then f\<lparr>flGitlabLogin := Some owner\<rparr> else f) fs)) k =
     (if k = flag \<and> map_of (map (\<lambda>f. (flID f, flGitlabLogin f)) fs) k = Some None then Some (Some owner)
      else map_of (map (\<lambda>f. (flID f, flGitlabLogin f)) fs) k)"
  by (induction fs) auto

lemma SubmitFlag_refines:
  assumes "lawful_driver d" "db_ok db" "SubmitFlag d flag owner db = (db', res)"
  shows "(case res of Ret _ \<Rightarrow> ledger_submit flag owner (ledger_of db) = Some (ledger_of db') | _ \<Rightarrow> ledger_of db' = ledger_of db)"
proof (cases "res = Ret ()")
  case True
  from SubmitFlag_result(1) [OF assms(1,3) True] obtain f where f: "f \<in> set (dbFlags db)" "flID f = flag" "flGitlabLogin f = None"
    and rows: "dbFlags db' = map (\<lambda>f. if flID f = flag \<and> flGitlabLogin f = None then f\<lparr>flGitlabLogin := Some owner\<rparr> else f) (dbFlags db)"
    by auto
  have "ledger_of db flag = Some None" using ledger_of_row [OF assms(2) f(1)] f by simp
  moreover have "ledger_of db' k = (if k = flag \<and> ledger_of db k = Some None then Some (Some owner) else ledger_of db k)" for k
    unfolding ledger_of_def rows by (rule map_of_update_rows)
  ultimately have "ledger_of db flag = Some None" "ledger_of db' = (ledger_of db)(flag \<mapsto> Some owner)" by (auto simp: fun_eq_iff)
  with True show ?thesis by (simp add: ledger_submit_def)
next
  case False
  with SubmitFlag_result(2) [OF assms(1,3)] show ?thesis by (auto split: outcome.split)
qed

lemma CreateFlag_refines:
  assumes "lawful_driver d" "db_ok db" "CreateFlag d uuid now task db = (db', res)"
  shows "(case res of
      Ret flag \<Rightarrow> flID flag = flag_id task uuid \<and> ledger_issue (flag_id task uuid) (ledger_of db) = Some (ledger_of db')
    | _ \<Rightarrow> ledger_of db' = ledger_of db)"
  using CreateFlag_rows [OF assms(1,3)]
proof (elim disjE exE conjE)
  fix f
  assume f: "res = Ret f" "f = \<lparr>flID = flag_id task uuid, flTask = task, flGitlabLogin = None, flCreatedAt = now\<rparr>"
    "db' = db\<lparr>dbFlags := dbFlags db @ [f]\<rparr>"
  have "db_ok db'" using CreateFlag_evolves [OF assms(1), of db uuid now task] assms(2,3) by (simp add: evolves_def)
  from flags_distinct [OF this] have "flag_id task uuid \<notin> flID ` set (dbFlags db)" using f(2,3) by simp
  then have "\<forall>g \<in> set (dbFlags db). flID g \<noteq> flag_id task uuid" by force
  then have "ledger_of db (flag_id task uuid) = None" by (simp add: ledger_of_None)
  moreover from this have "ledger_of db' = (ledger_of db)(flag_id task uuid \<mapsto> None)"
    unfolding ledger_of_def f(3) by (auto simp: f(2) map_add_def fun_eq_iff split: option.split)
  ultimately show ?thesis using f by (simp add: ledger_issue_def)
qed simp

text \<open>
  C14. The server implements the ledger of flags: a served request leaves the ledger alone, or it comes from the testing
  system for a task of the course and issues the flag of that task, or it comes from a student in a session and
  submits the flag of the form for the student's own login.
\<close>

theorem flag_ledger_refined:
  assumes "lawful_driver (cnDriver cn)" "db_ok (wbDB w)"
  shows "ledger_of (wbDB (fst (serve srv r cn rq w))) = ledger_of (wbDB w)
    \<or> (\<exists>req. rqFlag rq = Inr req \<and> isTokenValid srv (frToken req) \<and> knows_task srv (frTask req)
         \<and> ledger_issue (flag_id (frTask req) (cnUUID cn)) (ledger_of (wbDB w)) = Some (ledger_of (wbDB (fst (serve srv r cn rq w)))))
    \<or> (\<exists>user owner. session_user srv cn rq w user \<and> usGitlabLogin user = Some owner
         \<and> ledger_submit (PostForm rq ''flag'') owner (ledger_of (wbDB w)) = Some (ledger_of (wbDB (fst (serve srv r cn rq w)))))"
proof -
  have "web_action srv cn rq w (fst (serve srv r cn rq w))" by (rule serve_action)
  then show ?thesis
  proof (cases rule: web_action.cases)
    case (flag_created req)
    obtain db res where c: "CreateFlag (cnDriver cn) (cnUUID cn) (cnNow cn) (frTask req) (wbDB w) = (db, res)" by fastforce
    with flag_created CreateFlag_refines [OF assms c] show ?thesis by (cases res) auto
  next
    case (flag_submitted user glogin)
    obtain db res where s: "SubmitFlag (cnDriver cn) (PostForm rq ''flag'') glogin (wbDB w) = (db, res)" by fastforce
    with flag_submitted SubmitFlag_refines [OF assms s] show ?thesis by (cases res) auto
  next
    case (registered_session db user)
    have "dbFlags (fst (AddUser (cnDriver cn) (registrant srv rq) (wbDB w))) = dbFlags (wbDB w)" by (simp add: db_frame)
    with registered_session show ?thesis by (simp add: ledger_of_def db_frame)
  next
    case (link_failed gid glogin user db e)
    from arg_cong [OF this(5), of fst] have "dbFlags db = dbFlags (wbDB w)" by (metis fst_conv frame_SetUserGitlabAccount(3))
    with link_failed show ?thesis by (simp add: ledger_of_def)
  next
    case (linked gid glogin user db)
    from arg_cong [OF this(5), of fst] have "dbFlags db = dbFlags (wbDB w)" by (metis fst_conv frame_SetUserGitlabAccount(3))
    with linked show ?thesis by (simp add: ledger_of_def)
  qed (simp_all add: ledger_of_def db_frame)
qed

section \<open>From the testing system to the page\<close>

lemma createFlag_Ret:
  assumes "createFlag srv cn rq w = (w1, Ret (ck, JSON code st (FlagPayload flag)))"
  shows "\<exists>req f db. rqFlag rq = Inr req \<and> CreateFlag (cnDriver cn) (cnUUID cn) (cnNow cn) (frTask req) (wbDB w) = (db, Ret f)
    \<and> flag = flID f \<and> w1 = w\<lparr>wbDB := db\<rparr> \<and> code = 200 \<and> asOk st"
  using assms
  by (auto simp: createFlag_def onError_def onOk_def split: sum.splits if_splits prod.splits outcome.splits)

lemma handleFlagSubmit_page:
  assumes "handleFlagSubmit srv cn rq user w = (w', Ret (ck, HTML (FlagPage e success links)))" "usGitlabLogin user = Some owner"
  shows "if MatchString flagRe (PostForm rq ''flag'')
    then \<exists>db res. SubmitFlag (cnDriver cn) (PostForm rq ''flag'') owner (wbDB w) = (db, res) \<and> w' = w\<lparr>wbDB := db\<rparr>
           \<and> e = (if res = Ret () then [] else ''Unknown flag'')
    else w' = w \<and> e = ''Invalid flag''"
proof (cases "MatchString flagRe (PostForm rq ''flag'')")
  case True
  obtain db res where "SubmitFlag (cnDriver cn) (PostForm rq ''flag'') owner (wbDB w) = (db, res)" by fastforce
  with True assms show ?thesis
    by (cases res) (auto simp: handleFlagSubmit_def RenderSubmitFlagPageDetails_def)
next
  case False
  with assms show ?thesis by (auto simp: handleFlagSubmit_def RenderSubmitFlagPageDetails_def)
qed


section \<open>Witnesses\<close>

lemma course_serve_flag:
  "fst (serve course_server (POST, ''/api/flag'') (course_conn ''1f'') flag_request (newServer course_db)) = newServer issued_db"
proof -
  have "map_of (routes course_server) (POST, ''/api/flag'') = Some (createFlag course_server)"
    by (simp add: routes_def setupLoginService_def setupApiService_def Let_def) (simp add: course_server_def course_config_def course_endpoints_def)
  then show ?thesis by (simp add: serve_def course_createFlag)
qed

lemma flag_ledger_refined_witness:
  "ledger_issue ''{FLAG-a-1f}'' (ledger_of course_db) = Some (ledger_of issued_db)"
proof -
  have "lawful_driver (cnDriver (course_conn ''1f''))" "db_ok (wbDB (newServer course_db))"
    by (simp_all add: course_conn_def mem_driver_lawful newServer_def course_db_ok)
  moreover have "ledger_of issued_db \<noteq> ledger_of course_db"
    by (simp add: ledger_of_def issued_db_def course_db_def fun_eq_iff)
  ultimately show ?thesis
    using flag_ledger_refined [of "course_conn ''1f''" "newServer course_db" course_server "(POST, ''/api/flag'')" flag_request]
    unfolding course_serve_flag
    by (auto simp: newServer_def flag_request_def course_conn_def flag_id_def session_user_def blank_request_def
        tryFindUserByToken_def tryGetToken_def)
qed


end
