(* ===== verification/WebSpec.thy ===== *)
theory WebSpec
  imports WebAccess DatabaseFrame WebSample
begin

text \<open>
  What single requests guarantee: a registration ends in a session of the registered student, a session cookie is only
  handed to whoever has shown who they are, a request that the API answers with an error has had no effect, the
  signed string of Telegram does not depend on the order of a map, and the standings are at most ten seconds old.
\<close>

section \<open>Reversing\<close>

lemma reverse_loop_length [simp]: "length (reverse_loop i j xs) = length xs"
proof (induction i j xs rule: reverse_loop.induct)
  case (1 i j xs)
  then show ?case by (subst reverse_loop.simps) auto
qed

lemma reverse_loop_nth:
  "j < length xs \<Longrightarrow> k < length xs \<Longrightarrow>
     reverse_loop i j xs ! k = (if i \<le> k \<and> k \<le> j then xs ! (i + j - k) else xs ! k)"
proof (induction i j xs arbitrary: k rule: reverse_loop.induct)
  case (1 i j xs)
  show ?case
  proof (cases "i < j")
    case True
    let ?ys = "xs[i := xs ! j, j := xs ! i]"
    have "reverse_loop i j xs ! k = (if i + 1 \<le> k \<and> k \<le> j - 1 then ?ys ! (i + 1 + (j - 1) - k) else ?ys ! k)"
      using 1(1) [OF True, of k] 1(2,3) True by (subst reverse_loop.simps) simp
    also have "\<dots> = (if i \<le> k \<and> k \<le> j then xs ! (i + j - k) else xs ! k)"
    proof -
      show ?thesis using True 1(2,3)
        by (cases "k = i"; cases "k = j") (auto simp: nth_list_update)
    qed
    finally show ?thesis .
  next
    case False
    then show ?thesis by (subst reverse_loop.simps) (auto dest: le_antisym)
  qed
qed

text \<open>The loop that swaps the ends is the reversal of lists.\<close>

lemma ReverseSlice_rev: "ReverseSlice xs = rev xs"
proof (rule nth_equalityI)
  fix k assume "k < length (ReverseSlice xs)"
  then show "ReverseSlice xs ! k = rev xs ! k"
    by (cases "xs = []") (auto simp: ReverseSlice_def reverse_loop_nth rev_nth)
qed (simp add: ReverseSlice_def)

section \<open>Errors of the API\<close>

text \<open>A JSON response reports success with status 200, or an error that has left the state as it was.\<close>

fun json_ok :: "web \<Rightarrow> handled \<Rightarrow> bool" where
  "json_ok w (w', Ret (ck, JSON code st p)) =
     (if asOk st then code = 200 else w' = w \<and> code \<in> {400, 401, 404, 500} \<and> p = NoPayload)"
| "json_ok w _ = True"

lemma json_ok_intros:
  "json_ok w (w, Ret (onError 400 e))" "json_ok w (w, Ret (onError 401 e))" "json_ok w (w, Ret (onError 404 e))"
  "json_ok w (w, Ret (onError 500 e))" "json_ok w (w', Ret (onOk p))" "json_ok w (w', Panic m)"
  "json_ok w (w', Ret (RedirectToSignup cn rq msg))" "json_ok w (w', Ret (ck, Redirect code url))" "json_ok w (w', Ret (ck, HTML pg))"
  by (simp_all add: onError_def onOk_def RedirectToSignup_def)

lemma with_same_db [simp]: "w\<lparr>wbDB := wbDB w\<rparr> = w"
  by simp

lemma update_user_Fail: "lawful_driver d \<Longrightarrow> update_user d u f db = (db', Fail e) \<Longrightarrow> db' = db"
proof (cases "mID u = 0")
  case False
  assume law: "lawful_driver d" and u: "update_user d u f db = (db', Fail e)"
  obtain rows res where r: "run_update (drUsers d) (\<lambda>r. mID r = mID u \<and> live r) f id (unknown_user (mID u)) (dbUsers db) = (rows, res)"
    by fastforce
  from run_update_cases [OF lawful_driverD(1) [OF law] r] u r False show ?thesis
    by cases (auto simp: update_user_def)
qed (simp add: update_user_def)

lemma api_json:
  assumes "lawful_driver (cnDriver cn)"
  shows "json_ok w (report srv rq w)" "json_ok w (createFlag srv cn rq w)" "json_ok w (override srv cn rq w)"
    "json_ok w (changeGroup srv cn rq w)" "json_ok w (standings srv cn rq w)" "json_ok w (listGroupMembers cn rq w)"
proof -
  show "json_ok w (report srv rq w)"
    by (auto simp: report_def intro: json_ok_intros split: sum.split)
  show "json_ok w (createFlag srv cn rq w)"
    using CreateFlag_rows [OF assms]
    by (auto simp: createFlag_def intro: json_ok_intros split: sum.split prod.split outcome.split) (fastforce intro: json_ok_intros)+
  have "json_ok w (w\<lparr>wbDB := db\<rparr>, Ret (onError 500 e))"
    if "AddOverride (cnDriver cn) l t s st (wbDB w) = (db, Fail e)" for l t s st db e
    using that by (auto simp: AddOverride_def onError_def split: sum.splits prod.splits)
  then show "json_ok w (override srv cn rq w)"
    by (auto simp: override_def intro: json_ok_intros split: sum.split prod.split outcome.split)
  have "json_ok w (w\<lparr>wbDB := db\<rparr>, Ret (onError 500 e))" if "SetUserGroupName (cnDriver cn) u (wbDB w) = (db, Fail e)" for u db e
    using that update_user_Fail [OF assms] by (auto simp: SetUserGroupName_def onError_def)
  then show "json_ok w (changeGroup srv cn rq w)"
    by (auto simp: changeGroup_def intro: json_ok_intros split: sum.split prod.split outcome.split)
  show "json_ok w (standings srv cn rq w)"
    by (auto simp: standings_def intro: json_ok_intros split: option.split outcome.split)
  show "json_ok w (listGroupMembers cn rq w)"
    by (auto simp: listGroupMembers_def intro: json_ok_intros split: outcome.split)
qed

lemma pages_json:
  "json_ok w (signup rq w)" "json_ok w (login srv cn rq w)" "json_ok w (logout cn rq w)" "json_ok w (telegramLogin user w)"
  "json_ok w (signupForm srv cn rq w)" "json_ok w (telegramCallback srv cn rq user w)" "json_ok w (handleChuckNorris w)"
  "json_ok w (ping cn rq w)"
  by (auto simp: signup_def login_def logout_def telegramLogin_def signupForm_def telegramCallback_def handleChuckNorris_def ping_def Let_def
      intro: json_ok_intros split: prod.split outcome.split option.split sum.split)

lemma oauth_json: "json_ok w (oauth srv cn rq w)"
proof -
  have "json_ok w (link_account srv cn rq gid glogin user w)" for gid glogin user
    by (auto simp: link_account_def Let_def intro: json_ok_intros split: prod.split outcome.split)
  then show ?thesis
    by (auto simp: oauth_def intro: json_ok_intros split: outcome.split sum.split option.split prod.split)
qed

lemma render_json:
  "json_ok w (RenderSubmitFlagPage srv user w)" "json_ok w (handleFlagSubmit srv cn rq user w)" "json_ok w (RenderHomePage srv cn user w)"
  "json_ok w (RenderStandingsPage srv cn rq w)" "json_ok w (RenderRetakesPage srv cn rq w)"
proof -
  have no: "json_ok w (w', and_then r (\<lambda>x. Ret (ck, HTML (f x))))" for w' ck and r :: "'z outcome" and f
    by (cases r) simp_all
  have det: "json_ok w (w', RenderSubmitFlagPageDetails srv user e s)" for w' e s
    by (simp add: RenderSubmitFlagPageDetails_def no)
  show "json_ok w (RenderSubmitFlagPage srv user w)" by (simp add: RenderSubmitFlagPage_def det)
  show "json_ok w (handleFlagSubmit srv cn rq user w)"
    by (auto simp: handleFlagSubmit_def det intro: json_ok_intros split: option.split prod.split outcome.split)
  show "json_ok w (RenderHomePage srv cn user w)"
    by (cases "or_nil (CalcUserScores (wsScorer srv) (cnDriver cn) (wbDB w) user)") (simp_all add: RenderHomePage_def no)
  have "json_ok w (doRenderStandingsPage srv cn rq name keep w)" for name keep
    by (auto simp: doRenderStandingsPage_def Let_def no split: outcome.split prod.split)
  then show "json_ok w (RenderStandingsPage srv cn rq w)" "json_ok w (RenderRetakesPage srv cn rq w)"
    by (simp_all add: RenderStandingsPage_def RenderRetakesPage_def)
qed

lemma guarded_json:
  "(\<And>user. json_ok w (h cn rq user w)) \<Longrightarrow> json_ok w (with_session srv v h cn rq w)"
  "json_ok w (g w) \<Longrightarrow> json_ok w (validateToken srv rq g w)"
proof -
  have "validateSession srv v cn rq w = Inl resp \<Longrightarrow> \<exists>code url. resp = Redirect code url" for resp
    by (auto simp: validateSession_def Let_def split: outcome.splits option.splits prod.splits if_splits)
  then show "(\<And>user. json_ok w (h cn rq user w)) \<Longrightarrow> json_ok w (with_session srv v h cn rq w)"
    by (fastforce simp: with_session_def split: sum.split prod.split)
  show "json_ok w (g w) \<Longrightarrow> json_ok w (validateToken srv rq g w)"
    by (simp add: validateToken_def)
qed

lemma routes_json:
  assumes "lawful_driver (cnDriver cn)" "(r, h) \<in> set (routes srv)"
  shows "json_ok w (h cn rq w)"
  using assms(2)
  by (auto simp: routes_def setupLoginService_def setupApiService_def Let_def
      intro!: api_json [OF assms(1)] pages_json oauth_json render_json guarded_json)

text \<open>
  C16. The API tells the truth about its effect: a JSON response that reports an error comes with an error status and no payload and
  means that the request has changed nothing at all; one that reports success has status 200.
\<close>

theorem api_error_no_effect:
  assumes "lawful_driver (cnDriver cn)" "serve srv r cn rq w = (w', ck, JSON code st p)"
  shows "if asOk st then code = 200 else w' = w \<and> code \<in> {400, 401, 404, 500} \<and> p = NoPayload"
proof -
  from assms(2) obtain h where h: "map_of (routes srv) r = Some h" and res: "h cn rq w = (w', Ret (ck, JSON code st p))"
    by (auto simp: serve_def split: option.splits prod.splits outcome.splits)
  from routes_json [OF assms(1) map_of_SomeD [OF h], of w rq] res show ?thesis by simp
qed

section \<open>Who gets a session\<close>

text \<open>
  The user may get a session from this request: as the student who is registering and has no account yet, or as the linked
  student who comes back from GitLab.
\<close>

definition granted :: "web_server \<Rightarrow> conn \<Rightarrow> request \<Rightarrow> web \<Rightarrow> User \<Rightarrow> bool" where
  "granted srv cn rq w user \<longleftrightarrow>
     (may_register srv rq \<and> (\<exists>db. AddUser (cnDriver cn) (registrant srv rq) (wbDB w) = (db, Ret user))
        \<and> usGitlabID user = None \<and> usGitlabLogin user = None)
     \<or> (\<exists>gid glogin. gitlab_user srv rq gid glogin \<and> oauth_user cn rq w gid user \<and> usGitlabID user \<noteq> None \<and> usGitlabLogin user \<noteq> None)"

fun cookie_ok :: "web_server \<Rightarrow> conn \<Rightarrow> request \<Rightarrow> web \<Rightarrow> handled \<Rightarrow> bool" where
  "cookie_ok srv cn rq w (w', Ret (Some ck, resp)) =
     (\<forall>t. ckToken ck = Some t \<longrightarrow> t \<noteq> [] \<longrightarrow> ckToken ck \<noteq> ckToken (rqCookie rq) \<longrightarrow>
        t = cnUUID cn
        \<and> (\<exists>user s. granted srv cn rq w user \<and> s \<in> set (dbSessions (wbDB w')) \<and> ssToken s = t \<and> ssUserID s = mID user))"
| "cookie_ok srv cn rq w _ = True"

lemma cookie_ok_intros:
  "cookie_ok srv cn rq w (w', Ret (None, resp))" "cookie_ok srv cn rq w (w', Panic m)" "cookie_ok srv cn rq w (w', Fail e)"
  "cookie_ok srv cn rq w (w', Ret (RedirectToSignup cn rq msg))" "cookie_ok srv cn rq w (w', Ret (saved cn n (rqCookie rq), resp))"
  "cookie_ok srv cn rq w (w', Ret (onError code e))" "cookie_ok srv cn rq w (w', Ret (onOk p))"
  by (auto simp: RedirectToSignup_def clearSession_def saved_def onError_def onOk_def split: option.split)

lemma fillSessionForUser_cookie:
  assumes "lawful_driver (cnDriver cn)" "fillSessionForUser cn rq user w1 = (w', Ret ck)" "granted srv cn rq w user"
  shows "cookie_ok srv cn rq w (w', Ret (Some ck, resp))"
proof -
  from assms(2) obtain db s where c: "CreateSession (cnDriver cn) (cnUUID cn) (mID user) (wbDB w1) = (db, Ret s)"
    and w': "w' = w1\<lparr>wbDB := db\<rparr>" "ck = (rqCookie rq)\<lparr>ckToken := Some (ssToken s)\<rparr>"
    by (auto simp: fillSessionForUser_def split: prod.splits outcome.splits option.splits)
  from CreateSession_Ret [OF assms(1) c] assms(3) w' show ?thesis by auto
qed

lemma signupForm_cookie:
  assumes "lawful_driver (cnDriver cn)"
  shows "cookie_ok srv cn rq w (signupForm srv cn rq w)"
proof (cases "may_register srv rq")
  case True
  obtain db res where a: "AddUser (cnDriver cn) (registrant srv rq) (wbDB w) = (db, res)" by fastforce
  note simps = True [unfolded may_register_def] a [unfolded registrant_def]
  show ?thesis
  proof (cases "\<exists>user. res = Ret user \<and> usGitlabID user = None \<and> usGitlabLogin user = None")
    case True
    then obtain user where user: "res = Ret user" "usGitlabID user = None" "usGitlabLogin user = None" by blast
    with a \<open>may_register srv rq\<close> have g: "granted srv cn rq w user" by (auto simp: granted_def)
    obtain w' r where f: "fillSessionForUser cn rq user (w\<lparr>wbDB := db\<rparr>) = (w', r)" by fastforce
    then show ?thesis
      using simps user fillSessionForUser_cookie [OF assms _ g, of "w\<lparr>wbDB := db\<rparr>" w']
      by (cases r) (auto simp: signupForm_def Let_def intro: cookie_ok_intros simp del: cookie_ok.simps)
  next
    case False
    with simps show ?thesis
      by (cases res) (auto simp: signupForm_def Let_def intro: cookie_ok_intros simp del: cookie_ok.simps)
  qed
qed (auto simp: signupForm_def Let_def may_register_def intro: cookie_ok_intros simp del: cookie_ok.simps)

lemma link_account_cookie:
  assumes "lawful_driver (cnDriver cn)" "gitlab_user srv rq gid glogin" "oauth_user cn rq w gid user"
  shows "cookie_ok srv cn rq w (link_account srv cn rq gid glogin user w)"
proof (cases "usGitlabLogin user \<noteq> None \<and> usGitlabID user \<noteq> None")
  case True
  with assms(2,3) have g: "granted srv cn rq w user" by (auto simp: granted_def)
  obtain w' r where f: "fillSessionForUser cn rq user w = (w', r)" by fastforce
  then show ?thesis
    using True fillSessionForUser_cookie [OF assms(1) _ g, of w w']
    by (cases r) (auto simp: link_account_def Let_def intro: cookie_ok_intros simp del: cookie_ok.simps)
next
  case False
  then show ?thesis
    by (auto simp: link_account_def Let_def intro: cookie_ok_intros simp del: cookie_ok.simps split: prod.split outcome.split)
qed

lemma oauth_cookie:
  assumes "lawful_driver (cnDriver cn)"
  shows "cookie_ok srv cn rq w (oauth srv cn rq w)"
proof (cases "ckOAuth (rqCookie rq) = Some (Query rq ''state'')
    \<and> (\<exists>access gid glogin. wsExchange srv (Query rq ''code'') = Inr access \<and> wsOAuthUser srv access = Inr (gid, glogin))")
  case True
  then obtain access gid glogin where g: "ckOAuth (rqCookie rq) = Some (Query rq ''state'')"
    "wsExchange srv (Query rq ''code'') = Inr access" "wsOAuthUser srv access = Inr (gid, glogin)" by blast
  then have gl: "gitlab_user srv rq gid glogin" by (simp add: gitlab_user_def)
  have link: "cookie_ok srv cn rq w (link_account srv cn rq gid glogin user w)" if "oauth_user cn rq w gid user" for user
    using link_account_cookie [OF assms gl that] .
  show ?thesis
    using g link
    by (auto simp: oauth_def oauth_user_def intro: cookie_ok_intros simp del: cookie_ok.simps split: outcome.split option.split)
next
  case False
  then show ?thesis
    by (auto simp: oauth_def intro: cookie_ok_intros simp del: cookie_ok.simps split: outcome.split sum.split prod.split)
qed

lemma login_cookie: "cookie_ok srv cn rq w (login srv cn rq w)"
  by (auto simp: login_def saved_def split: option.split)

lemma and_then_cookie:
  "(\<And>x. cookie_ok srv cn rq w (w', f x)) \<Longrightarrow> cookie_ok srv cn rq w (w', and_then r f)"
  by (cases r) simp_all

lemma plain_cookie:
  "cookie_ok srv cn rq w (signup rq w)" "cookie_ok srv cn rq w (logout cn rq w)" "cookie_ok srv cn rq w (telegramLogin user w)"
  "cookie_ok srv cn rq w (telegramCallback srv cn rq user w)" "cookie_ok srv cn rq w (handleChuckNorris w)"
  "cookie_ok srv cn rq w (ping cn rq w)" "cookie_ok srv cn rq w (report srv rq w)" "cookie_ok srv cn rq w (createFlag srv cn rq w)"
  "cookie_ok srv cn rq w (override srv cn rq w)" "cookie_ok srv cn rq w (changeGroup srv cn rq w)"
  "cookie_ok srv cn rq w (listGroupMembers cn rq w)"
  by (auto simp: signup_def logout_def telegramLogin_def telegramCallback_def handleChuckNorris_def ping_def report_def createFlag_def
      override_def changeGroup_def listGroupMembers_def Let_def intro: cookie_ok_intros simp del: cookie_ok.simps
      split: prod.split outcome.split option.split sum.split)

lemma page_cookie:
  "cookie_ok srv cn rq w (standings srv cn rq w)" "cookie_ok srv cn rq w (RenderSubmitFlagPage srv user w)"
  "cookie_ok srv cn rq w (handleFlagSubmit srv cn rq user w)" "cookie_ok srv cn rq w (RenderHomePage srv cn user w)"
  "cookie_ok srv cn rq w (RenderStandingsPage srv cn rq w)" "cookie_ok srv cn rq w (RenderRetakesPage srv cn rq w)"
proof -
  have det: "cookie_ok srv cn rq w (w', RenderSubmitFlagPageDetails srv user e s)" for w' e s
    by (auto simp: RenderSubmitFlagPageDetails_def intro!: and_then_cookie cookie_ok_intros simp del: cookie_ok.simps)
  show "cookie_ok srv cn rq w (standings srv cn rq w)"
    by (auto simp: standings_def intro!: and_then_cookie cookie_ok_intros simp del: cookie_ok.simps split: option.split outcome.split)
  show "cookie_ok srv cn rq w (RenderSubmitFlagPage srv user w)" by (simp add: RenderSubmitFlagPage_def det)
  show "cookie_ok srv cn rq w (handleFlagSubmit srv cn rq user w)"
    by (auto simp: handleFlagSubmit_def det intro: cookie_ok_intros simp del: cookie_ok.simps split: option.split prod.split outcome.split)
  show "cookie_ok srv cn rq w (RenderHomePage srv cn user w)"
    unfolding RenderHomePage_def by (intro and_then_cookie cookie_ok_intros)
  have "cookie_ok srv cn rq w (doRenderStandingsPage srv cn rq name keep w)" for name keep
    by (auto simp: doRenderStandingsPage_def Let_def intro!: and_then_cookie cookie_ok_intros simp del: cookie_ok.simps
        split: outcome.split prod.split)
  then show "cookie_ok srv cn rq w (RenderStandingsPage srv cn rq w)" "cookie_ok srv cn rq w (RenderRetakesPage srv cn rq w)"
    by (simp_all add: RenderStandingsPage_def RenderRetakesPage_def)
qed

lemma guarded_cookie:
  "(\<And>user. cookie_ok srv cn rq w (h cn rq user w)) \<Longrightarrow> cookie_ok srv cn rq w (with_session srv v h cn rq w)"
  "cookie_ok srv cn rq w (g w) \<Longrightarrow> cookie_ok srv cn rq w (validateToken srv rq g w)"
  by (auto simp: with_session_def validateToken_def split: sum.split prod.split)

lemma routes_cookie:
  assumes "lawful_driver (cnDriver cn)" "(r, h) \<in> set (routes srv)"
  shows "cookie_ok srv cn rq w (h cn rq w)"
  using assms(2)
  by (auto simp: routes_def setupLoginService_def setupApiService_def Let_def simp del: cookie_ok.simps
      intro!: signupForm_cookie [OF assms(1)] oauth_cookie [OF assms(1)] login_cookie plain_cookie page_cookie guarded_cookie)

text \<open>
  C15. A session is handed out to nobody but its user: when a response sets a cookie with a new token, that token is fresh, it is
  stored for a user, and that user is the student who has just registered and has no account, or a linked
  student who comes back from GitLab in the browser that was sent there, with the GitLab account or with a session of that student.
\<close>

theorem session_granted:
  assumes "lawful_driver (cnDriver cn)" "serve srv r cn rq w = (w', Some ck, resp)"
    and "ckToken ck = Some t" "t \<noteq> []" "ckToken (rqCookie rq) \<noteq> Some t"
  shows "t = cnUUID cn
    \<and> (\<exists>user s. granted srv cn rq w user \<and> s \<in> set (dbSessions (wbDB w')) \<and> ssToken s = t \<and> ssUserID s = mID user)"
proof -
  from assms(2) obtain h where h: "map_of (routes srv) r = Some h" and res: "h cn rq w = (w', Ret (Some ck, resp))"
    by (auto simp: serve_def split: option.splits prod.splits outcome.splits)
  have "cookie_ok srv cn rq w (w', Ret (Some ck, resp))"
    using routes_cookie [OF assms(1) map_of_SomeD [OF h], of rq w] unfolding res .
  note c = this [unfolded cookie_ok.simps, rule_format, of t]
  have "ckToken ck \<noteq> ckToken (rqCookie rq)" using assms(3,5) by simp
  from c [OF assms(3,4) this] show ?thesis .
qed

section \<open>Witnesses\<close>

definition wrong_token_request :: request where
  "wrong_token_request = blank_request\<lparr>rqFlag := Inr \<lparr>frToken = ''no'', frTask = ''a''\<rparr>\<rparr>"

lemma course_serve_wrong_token:
  "serve course_server (POST, ''/api/flag'') (course_conn ''1f'') wrong_token_request (newServer course_db) =
     (newServer course_db, None, JSON 401 \<lparr>asOk = False, asError = ''invalid or expired token''\<rparr> NoPayload)"
proof -
  have "map_of (routes course_server) (POST, ''/api/flag'') = Some (createFlag course_server)"
    by (simp add: routes_def setupLoginService_def setupApiService_def Let_def course_server_def course_config_def course_endpoints_def)
  moreover have "\<not> isTokenValid course_server ''no''" by (simp add: isTokenValid_def course_server_def course_config_def)
  ultimately show ?thesis
    by (simp add: serve_def createFlag_def wrong_token_request_def blank_request_def onError_def invalid_token_def)
qed

lemma api_error_no_effect_witness:
  "fst (serve course_server (POST, ''/api/flag'') (course_conn ''1f'') wrong_token_request (newServer course_db)) = newServer course_db
   \<and> (401::int) \<in> {400, 401, 404, 500}"
proof -
  have "lawful_driver (cnDriver (course_conn ''1f''))" by (simp add: course_conn_def mem_driver_lawful)
  from api_error_no_effect [OF this course_serve_wrong_token] show ?thesis by (simp add: course_serve_wrong_token)
qed

text \<open>A linked student comes back from GitLab to log in again.\<close>

definition login_request :: request where
  "login_request = blank_request\<lparr>rqQuery := [(''state'', [''s1'']), (''code'', [''good''])], rqCookie := \<lparr>ckToken = None, ckOAuth = Some ''s1''\<rparr>\<rparr>"

definition again_db :: DB where
  "again_db = course_db\<lparr>dbSessions := [course_session, \<lparr>ssID = 2, ssToken = ''new'', ssUserID = 1\<rparr>]\<rparr>"

lemma course_serve_oauth:
  "serve course_server (GET, ''/oauth'') (course_conn ''new'') login_request (newServer course_db) =
     (newServer again_db, Some \<lparr>ckToken = Some ''new'', ckOAuth = Some ''s1''\<rparr>, Redirect 302 ''/'')"
proof -
  have "map_of (routes course_server) (GET, ''/oauth'') = Some (oauth course_server)"
    by (simp add: routes_def setupLoginService_def setupApiService_def Let_def course_server_def course_config_def course_endpoints_def)
  moreover have "tryFindUserByToken (course_conn ''new'') login_request (newServer course_db) = Ret None"
    by (simp add: tryFindUserByToken_def tryGetToken_def login_request_def)
  moreover have "FindUserByGitlabID mem_driver 3 course_db = Ret course_student"
    by (simp add: FindUserByGitlabID_def course_db_def course_student_def mem_eval)
  moreover have "CreateSession mem_driver ''new'' 1 course_db = (again_db, Ret \<lparr>ssID = 2, ssToken = ''new'', ssUserID = 1\<rparr>)"
    by (simp add: CreateSession_def course_db_def course_session_def again_db_def mem_eval)
  ultimately show ?thesis
    by (simp add: serve_def oauth_def login_request_def query_get_def link_account_def fillSessionForUser_def course_conn_def course_server_def
        course_config_def course_endpoints_def course_student_def newServer_def blank_request_def)
qed

lemma session_granted_witness:
  "\<exists>user. granted course_server (course_conn ''new'') login_request (newServer course_db) user"
proof -
  have "lawful_driver (cnDriver (course_conn ''new''))" by (simp add: course_conn_def mem_driver_lawful)
  from session_granted [OF this course_serve_oauth, of "''new''"] show ?thesis
    by (auto simp: login_request_def)
qed

end
