(* ===== verification/GoText.thy ===== *)
theory GoText
  imports GoStrings
begin

text \<open>
  More of Go's packages strings and path, for the parsing of dates and for the tools around the server: trimming space,
  cutting at a separator, and joining and cleaning paths.
\<close>

section \<open>Trimming space\<close>

text \<open>The runes of a string, each with the bytes it was decoded from.\<close>

function segments :: "nat list \<Rightarrow> (rune \<times> nat list) list" where
  "segments bs =
     (if bs = [] then []
      else (fst (decode_rune bs), take (snd (decode_rune bs)) bs) # segments (drop (snd (decode_rune bs)) bs))"
  by pat_completeness auto
termination
  by (relation "measure length") (use decode_width in \<open>auto intro!: diff_less simp: Suc_le_eq\<close>)

declare segments.simps [simp del]

definition IsSpace :: "unicode \<Rightarrow> rune \<Rightarrow> bool" where
  "IsSpace u r = (if r < 256 then r \<in> {9, 10, 11, 12, 13, 32, 133, 160} else ucIsSpace u r)"

text \<open>
  \<open>strings.TrimSpace\<close>. The encoding of a space starts with a byte that no decoding from the left can swallow, so cutting
  from the right finds the same runes as decoding from the left.
\<close>

definition TrimSpace :: "unicode \<Rightarrow> string \<Rightarrow> string" where
  "TrimSpace u s =
     (let space = (\<lambda>(r, bs). IsSpace u r)
      in map chr (concat (map snd (rev (dropWhile space (rev (dropWhile space (segments (map byte s)))))))))"

lemma segments_ascii: "ascii s \<Longrightarrow> segments (map byte s) = map (\<lambda>ch. (byte ch, [byte ch])) s"
proof (induction s)
  case Nil
  then show ?case by (simp add: segments.simps [of "[]"])
next
  case (Cons ch s)
  then show ?case by (subst segments.simps) (simp add: decode_rune_def)
qed

text \<open>On ASCII strings the six ASCII spaces are cut from both ends.\<close>

definition ascii_space :: "char \<Rightarrow> bool" where
  "ascii_space ch = ((byte ch :: nat) \<in> {9, 10, 11, 12, 13, 32})"

lemma IsSpace_byte: "byte ch < (128 :: nat) \<Longrightarrow> IsSpace u (byte ch) = ascii_space ch"
  by (auto simp: IsSpace_def ascii_space_def)

lemma TrimSpace_ascii:
  assumes "ascii s"
  shows "TrimSpace u s = rev (dropWhile ascii_space (rev (dropWhile ascii_space s)))"
proof -
  let ?space = "\<lambda>(r, bs). IsSpace u r" and ?seg = "\<lambda>ch. (byte ch :: nat, [byte ch :: nat])"
  have drop: "dropWhile ?space (map ?seg t) = map ?seg (dropWhile ascii_space t)" if "ascii t" for t
    using that by (induction t) (auto simp: IsSpace_byte)
  have "ascii (rev (dropWhile ascii_space s))"
    using assms by (auto simp: ascii_def list_all_iff dest: set_dropWhileD)
  note drop = drop [OF assms] drop [OF this]
  have bytes: "map chr (concat (map (snd \<circ> ?seg) t)) = t" for t by (induction t) simp_all
  show ?thesis
    unfolding TrimSpace_def Let_def segments_ascii [OF assms] drop(1) rev_map drop(2) map_map by (rule bytes)
qed

lemma TrimSpace_id:
  assumes "ascii s" "s \<noteq> []" "\<not> ascii_space (hd s)" "\<not> ascii_space (last s)"
  shows "TrimSpace u s = s"
proof -
  have "dropWhile ascii_space s = s" "dropWhile ascii_space (rev s) = rev s"
    using assms(2-4) by (simp_all add: dropWhile_eq_self_iff hd_rev)
  with assms(1) show ?thesis by (simp add: TrimSpace_ascii)
qed

section \<open>Splitting\<close>

text \<open>\<open>strings.Cut\<close> with a separator of one byte: the parts before and after its first occurrence, if there is one.\<close>

fun strings_Cut :: "string \<Rightarrow> char \<Rightarrow> (string \<times> string) option" where
  "strings_Cut [] sep = None"
| "strings_Cut (ch # s) sep =
     (if ch = sep then Some ([], s)
      else (case strings_Cut s sep of None \<Rightarrow> None | Some (a, b) \<Rightarrow> Some (ch # a, b)))"

lemma strings_Cut_append: "sep \<notin> set a \<Longrightarrow> strings_Cut (a @ sep # b) sep = Some (a, b)"
  by (induction a) auto

lemma strings_Cut_SomeD: "strings_Cut s sep = Some (a, b) \<Longrightarrow> s = a @ sep # b \<and> sep \<notin> set a"
  by (induction s arbitrary: a b) (auto split: if_splits option.splits)

lemma strings_Cut_None_iff: "strings_Cut s sep = None \<longleftrightarrow> sep \<notin> set s"
  by (induction s) (auto split: option.split)

fun split_slash :: "string \<Rightarrow> string list" where
  "split_slash [] = [[]]"
| "split_slash (ch # s) =
     (if ch = slash then [] # split_slash s
      else (case split_slash s of p # ps \<Rightarrow> (ch # p) # ps | [] \<Rightarrow> [[ch]]))"

fun join_slash :: "string list \<Rightarrow> string" where
  "join_slash [] = []"
| "join_slash [p] = p"
| "join_slash (p # ps) = p @ slash # join_slash ps"

section \<open>Paths\<close>

text \<open>The elements that \<open>path.Clean\<close> keeps, the last one first.\<close>

fun clean_elements :: "bool \<Rightarrow> string list \<Rightarrow> string list \<Rightarrow> string list" where
  "clean_elements rooted kept [] = kept"
| "clean_elements rooted kept (p # ps) =
     (if p = [] \<or> p = ''.'' then clean_elements rooted kept ps
      else if p = ''..'' then
        (case kept of
           q # qs \<Rightarrow> if q = ''..'' then clean_elements rooted (p # kept) ps else clean_elements rooted qs ps
         | [] \<Rightarrow> clean_elements rooted (if rooted then [] else [p]) ps)
      else clean_elements rooted (p # kept) ps)"

definition path_Clean :: "string \<Rightarrow> string" where
  "path_Clean p =
     (let rooted = (case p of ch # _ \<Rightarrow> ch = slash | [] \<Rightarrow> False);
          q = join_slash (rev (clean_elements rooted [] (split_slash p)))
      in if rooted then slash # q else if q = [] then ''.'' else q)"

definition path_Join :: "string \<Rightarrow> string \<Rightarrow> string" where
  "path_Join dir name =
     (if dir = [] \<and> name = [] then []
      else if dir = [] then path_Clean name
      else path_Clean (dir @ slash # name))"

lemma split_slash_not_Nil [simp]: "split_slash s \<noteq> []"
  by (cases s) (auto split: list.split)

lemma split_slash_element: "slash \<notin> set p \<Longrightarrow> split_slash p = [p]"
  by (induction p) (auto split: list.split)

lemma split_slash_append: "split_slash (s @ slash # t) = split_slash s @ split_slash t"
proof (induction s)
  case (Cons ch s)
  then show ?case by (cases "split_slash s") auto
qed simp

lemma clean_elements_append: "clean_elements rooted kept (ps @ qs) = clean_elements rooted (clean_elements rooted kept ps) qs"
  by (induction rooted kept ps rule: clean_elements.induct) (auto split: list.split)

text \<open>A trailing slash does not matter.\<close>

lemma path_Join_trailing: "path_Join dir (name @ [slash]) = (if dir = [] \<and> name = [] then [slash] else path_Join dir name)"
proof -
  have c: "clean_elements r [] (split_slash (s @ [slash])) = clean_elements r [] (split_slash s)" for r s
    using split_slash_append [of s "[]"] by (simp add: clean_elements_append)
  have "path_Clean (s @ [slash]) = path_Clean s" if "s \<noteq> []" for s
  proof -
    from that obtain ch t where "s = ch # t" by (cases s) auto
    with c [of _ s] show ?thesis by (simp add: path_Clean_def del: split_slash.simps)
  qed
  from this [of name] this [of "dir @ slash # name"] show ?thesis
    by (auto simp: path_Join_def path_Clean_def slash_def)
qed

lemma clean_elements_kept:
  "(\<forall>p \<in> set ps. slash \<notin> set p) \<Longrightarrow> (\<forall>p \<in> set kept. slash \<notin> set p \<and> p \<noteq> [] \<and> p \<noteq> ''.'') \<Longrightarrow>
     p \<in> set (clean_elements rooted kept ps) \<Longrightarrow> slash \<notin> set p \<and> p \<noteq> [] \<and> p \<noteq> ''.''"
  by (induction rooted kept ps rule: clean_elements.induct) (auto split: if_splits list.splits)

lemma split_slash_elements: "p \<in> set (split_slash s) \<Longrightarrow> slash \<notin> set p"
  by (induction s arbitrary: p) (auto split: if_splits list.splits)

lemma join_slash_snoc: "join_slash (ps @ [p]) = (if ps = [] then p else join_slash ps @ slash # p)"
  by (induction ps rule: join_slash.induct) auto

text \<open>Joining a directory and the name of a file gives the file in the cleaned directory.\<close>

lemma path_Join_element:
  assumes "dir \<noteq> []" "slash \<notin> set name" "name \<noteq> []" "name \<noteq> ''.''" "name \<noteq> ''..''"
  shows "path_Join dir name =
    (if path_Clean dir = [slash] then slash # name
     else if path_Clean dir = ''.'' then name
     else path_Clean dir @ slash # name)"
proof -
  from assms(1) obtain ch t where dir: "dir = ch # t" by (cases dir) auto
  define kept where "kept = clean_elements (ch = slash) [] (split_slash dir)"
  have kept: "slash \<notin> set p \<and> p \<noteq> [] \<and> p \<noteq> ''.''" if "p \<in> set kept" for p
    using clean_elements_kept [of "split_slash dir" "[]" p "ch = slash"] split_slash_elements that by (auto simp: kept_def)
  have "clean_elements (ch = slash) [] (split_slash (dir @ slash # name)) = name # kept"
    using assms(2-5) by (simp add: split_slash_append split_slash_element clean_elements_append kept_def)
  then have join: "path_Join dir name = (if ch = slash then slash # join_slash (rev (name # kept)) else join_slash (rev (name # kept)))"
    using assms(3) by (simp add: path_Join_def path_Clean_def dir join_slash_snoc del: split_slash.simps)
  have clean: "path_Clean dir = (if ch = slash then slash # join_slash (rev kept) else if join_slash (rev kept) = [] then ''.'' else join_slash (rev kept))"
    by (simp add: path_Clean_def dir kept_def del: split_slash.simps)
  show ?thesis
  proof (cases kept rule: rev_cases)
    case Nil
    then show ?thesis unfolding join clean by (auto simp: slash_def)
  next
    case (snoc ps p)
    have "join_slash (rev kept) \<noteq> []" "join_slash (rev kept) \<noteq> ''.''" "hd (join_slash (rev kept)) \<noteq> slash"
      using kept [of p] unfolding snoc by (cases "rev ps"; cases p; auto)+
    moreover from snoc have "kept \<noteq> []" by simp
    then have "join_slash (rev (name # kept)) = join_slash (rev kept) @ slash # name" by (simp add: join_slash_snoc)
    ultimately show ?thesis unfolding join clean by auto
  qed
qed

end
