(* ===== verification/Crashme.thy ===== *)
theory Crashme
  imports GoText WebBase
begin

text \<open>
  Program \<open>cmd/crashme\<close>: a TCP service that runs the binary of a task on what the client sends, and answers a crash with the
  task's flag, which it asks the server for. What a connection meets is a parameter, the record \<open>session_env\<close>: the bytes that
  arrive, the semaphore, the file system and the clock, the process, and the server's answers. Writes to the connection
  whose result the code ignores are taken to arrive.
\<close>

section \<open>Files\<close>

datatype file_kind = Missing | StatFails string | Regular | Directory | Special

definition isRegularFile :: "(string \<Rightarrow> file_kind) \<Rightarrow> string \<Rightarrow> bool" where
  "isRegularFile stat path =
     (case stat path of Missing \<Rightarrow> False | StatFails e \<Rightarrow> False | k \<Rightarrow> k = Regular)"

definition isDirectory :: "(string \<Rightarrow> file_kind) \<Rightarrow> string \<Rightarrow> bool" where
  "isDirectory stat path =
     (case stat path of Missing \<Rightarrow> False | StatFails e \<Rightarrow> False | k \<Rightarrow> k = Directory)"

section \<open>The checker\<close>

text \<open>The structs \<open>checker\<close> and \<open>flagFetcher\<close>.\<close>

record checker =
  chBinaries :: string
  chSubmits :: string
  chConcurrency :: int
  chURL :: string
  chToken :: string

definition MaxInputSize :: nat where "MaxInputSize = 10 * 1024 * 1024"
definition MaxFirstLineSizeE :: nat where "MaxFirstLineSizeE = 100"

definition newChecker ::
  "(string \<Rightarrow> gerror option) \<Rightarrow> (string \<Rightarrow> file_kind) \<Rightarrow> string \<Rightarrow> string \<Rightarrow> int \<Rightarrow> string \<Rightarrow> string \<Rightarrow> checker outcome" where
  "newChecker mkdirAll stat binaries submits concurrency url token =
     (case mkdirAll submits of
        Some e \<Rightarrow> Fail (Wrap ''failed to mkdir submits directory'' e)
      | None \<Rightarrow>
          if \<not> isDirectory stat binaries then Fail (Errorf ''binaries directory does not exist'')
          else Ret \<lparr>chBinaries = binaries, chSubmits = submits, chConcurrency = concurrency, chURL = url, chToken = token\<rparr>)"

section \<open>Asking for the flag\<close>

text \<open>The outcome of one request: sending it, reading the body or decoding it fails, or the decoded answer.\<close>

datatype exchange =
    PostFails gerror
  | BodyFails gerror
  | BadJSON gerror
  | Answer Status string

datatype attempt_error = Transient gerror | Permanent gerror

text \<open>Encoding a string as JSON replaces what is not UTF-8.\<close>

definition json_text :: "string \<Rightarrow> string" where
  "json_text s = strings_Map Some s"

definition doFetchFlag :: "(string \<Rightarrow> FlagRequest \<Rightarrow> exchange) \<Rightarrow> checker \<Rightarrow> string \<Rightarrow> attempt_error + string" where
  "doFetchFlag post ch task =
     (case post (chURL ch) \<lparr>frToken = json_text (chToken ch), frTask = json_text task\<rparr> of
        PostFails e \<Rightarrow> Inl (Transient e)
      | BodyFails e \<Rightarrow> Inl (Transient e)
      | BadJSON e \<Rightarrow> Inl (Transient e)
      | Answer st flag \<Rightarrow>
          if \<not> asOk st then Inl (Permanent (Errorf (''server error: '' @ asError st))) else Inr flag)"

text \<open>
  \<open>backoff.Retry\<close> is a parameter: it runs an operation, given by the error of each attempt, and returns the number of
  the last attempt and the error it reports.
\<close>

type_synonym retry = "(nat \<Rightarrow> attempt_error option) \<Rightarrow> nat \<times> gerror option"

definition fetchFlag :: "retry \<Rightarrow> (nat \<Rightarrow> string \<Rightarrow> FlagRequest \<Rightarrow> exchange) \<Rightarrow> checker \<Rightarrow> string \<Rightarrow> gerror + string" where
  "fetchFlag retry post ch task =
     (case retry (\<lambda>k. case doFetchFlag (post k) ch task of Inl e \<Rightarrow> Some e | Inr flag \<Rightarrow> None) of
        (n, Some e) \<Rightarrow> Inl e
      | (n, None) \<Rightarrow> Inr (case doFetchFlag (post n) ch task of Inl e \<Rightarrow> [] | Inr flag \<Rightarrow> flag))"

section \<open>Reading the first line\<close>

text \<open>The results of single reads of one byte; when the list is over the connection is.\<close>

datatype read = Byte char | Empty | ReadFails gerror

text \<open>
  At most \<open>left\<close> more bytes are read. The result is what is left of the connection, and the line without the space around it.
\<close>

definition line_eof :: "string \<Rightarrow> gerror" where
  "line_eof str =
     (if length str = MaxFirstLineSizeE then Errorf ''too long first line'' else Errorf ''got EOF before new line'')"

fun slowReadFirstLine :: "unicode \<Rightarrow> nat \<Rightarrow> read list \<Rightarrow> string \<Rightarrow> read list \<times> (gerror + string)" where
  "slowReadFirstLine u 0 rs str = (rs, Inl (line_eof str))"
| "slowReadFirstLine u (Suc left) [] str = ([], Inl (line_eof str))"
| "slowReadFirstLine u (Suc left) (Empty # rs) str = (rs, Inl (line_eof str))"
| "slowReadFirstLine u (Suc left) (ReadFails e # rs) str = (rs, Inl e)"
| "slowReadFirstLine u (Suc left) (Byte ch # rs) str =
     (if ch = CHR 0x0A then (rs, Inr (TrimSpace u (str @ [ch])))
      else slowReadFirstLine u left rs (str @ [ch]))"

section \<open>Running the program\<close>

text \<open>
  How a process ends: it does not start, exits with code 0, ends otherwise (by the signal, -1 for none, and the printed
  state), or waiting for it fails. The run also has how many bytes of the input were copied and what it printed.
\<close>

datatype exit_state = StartFails gerror | Exits | Crashes int string | WaitFails gerror

record process_run =
  rnRead :: nat
  rnStdout :: string
  rnStderr :: string
  rnExit :: exit_state

datatype slot = Free | Busy "gerror option"

text \<open>
  The environment of a connection: its bytes, the semaphore (free, or waited for with success or an error), the files,
  the printed time, whether the pipes of the process can be made, the process on its input, whether
  the report of the crash can be written, and retries and answers for the flag.
\<close>

record session_env =
  seReads :: "read list"
  seSlot :: slot
  seStat :: "string \<Rightarrow> file_kind"
  seCreate :: "string \<Rightarrow> gerror option"
  seTime :: string
  sePipe :: "string \<Rightarrow> gerror option"
  seProcess :: "string \<Rightarrow> string \<Rightarrow> process_run"
  seReport :: "gerror option"
  seRetry :: retry
  sePost :: "nat \<Rightarrow> string \<Rightarrow> FlagRequest \<Rightarrow> exchange"

fun input_bytes :: "read list \<Rightarrow> string" where
  "input_bytes (Byte ch # rs) = ch # input_bytes rs"
| "input_bytes (Empty # rs) = input_bytes rs"
| "input_bytes _ = []"

definition newCommandProxy :: "(string \<Rightarrow> gerror option) \<Rightarrow> gerror option" where
  "newCommandProxy pipe =
     (case pipe ''stdout'' of
        Some e \<Rightarrow> Some (Wrap ''failed to create command stdout'' e)
      | None \<Rightarrow>
          (case pipe ''stderr'' of
             Some e \<Rightarrow> Some (Wrap ''failed to create command stderr'' e)
           | None \<Rightarrow>
               (case pipe ''stdin'' of
                  Some e \<Rightarrow> Some (Wrap ''failed to create command stdin'' e)
                | None \<Rightarrow> None)))"

text \<open>The names of files: underscores and dashes in the task's name are the same.\<close>

definition lastTaskName :: "string \<Rightarrow> string" where
  "lastTaskName task = path_Base (ReplaceAll task ''_'' ''-'')"

definition executablePath :: "checker \<Rightarrow> string \<Rightarrow> string" where
  "executablePath ch task = path_Join (chBinaries ch) (''ctf_'' @ ReplaceAll (lastTaskName task) ''-'' ''_'')"

definition inputPath :: "checker \<Rightarrow> session_env \<Rightarrow> string \<Rightarrow> string" where
  "inputPath ch se task = path_Join (chSubmits ch) (lastTaskName task @ ''_'' @ seTime se)"

text \<open>A connection's result: what it was sent, the files that were written, and the error it ends with.\<close>

type_synonym session_result = "string \<times> (string \<times> string) list \<times> gerror option"

definition SIGINT :: int where "SIGINT = 2"

text \<open>From the command on: \<open>proxy.run\<close> and what follows on its result.\<close>

definition run_task :: "checker \<Rightarrow> session_env \<Rightarrow> string \<Rightarrow> string \<Rightarrow> string \<Rightarrow> session_result" where
  "run_task ch se task rest out =
     (let run = seProcess se (executablePath ch task) rest;
          files = [(inputPath ch se task, take (rnRead run) rest), (inputPath ch se task @ ''.err'', rnStderr run)];
          out1 = out @ ''Running task '' @ task @ [CHR 0x0A];
          failed = (\<lambda>e. Some (Errorf (''failed to start command: '' @ error_text e @ '', stderr: '' @ rnStderr run)))
      in case rnExit run of
           StartFails e \<Rightarrow>
             (out1, [(inputPath ch se task, []), (inputPath ch se task @ ''.err'', [])],
              Some (Errorf (''failed to start command: failed to start command: '' @ error_text e @ '', stderr: '')))
         | WaitFails e \<Rightarrow> (out1 @ rnStdout run, files, failed e)
         | Exits \<Rightarrow> (out1 @ rnStdout run @ ''Command finished normally'' @ [CHR 0x0A], files, None)
         | Crashes signal text \<Rightarrow>
             if signal = SIGINT then (out1 @ rnStdout run, files, Some (Errorf ''got EOF before command exit''))
             else
               (case seReport se of
                  Some e \<Rightarrow> (out1 @ rnStdout run, files, Some (Wrap ''failed to write to the connection'' e))
                | None \<Rightarrow>
                    (let out2 = out1 @ rnStdout run @ ''Command failed: '' @ text @ CHR 0x0A # ''Trying to fetch flag...'' @ [CHR 0x0A]
                     in case fetchFlag (seRetry se) (sePost se) ch task of
                          Inl e \<Rightarrow> (out2, files, Some (Errorf (''failed to fetch flag: '' @ error_text e)))
                        | Inr flag \<Rightarrow> (out2 @ flag @ [CHR 0x0A], files, None))))"

definition doHandleConnection :: "unicode \<Rightarrow> checker \<Rightarrow> session_env \<Rightarrow> session_result" where
  "doHandleConnection u ch se =
     (let waiting = (case seSlot se of Free \<Rightarrow> [] | Busy r \<Rightarrow> ''Waiting for an available runner...'' @ [CHR 0x0A]);
          out = waiting @ ''Enter task name: ''
      in case seSlot se of
           Busy (Some e) \<Rightarrow> (waiting, [], Some (Wrap ''failed to acquire semaphore'' e))
         | _ \<Rightarrow>
             (case slowReadFirstLine u MaxFirstLineSizeE (seReads se) [] of
                (reads, Inl e) \<Rightarrow> (out, [], Some (Wrap ''failed to read first line'' e))
              | (reads, Inr task) \<Rightarrow>
                  if \<not> isRegularFile (seStat se) (executablePath ch task)
                  then (out, [], Some (Errorf (''unknown task '' @ task)))
                  else
                    (case seCreate se (inputPath ch se task) of
                       Some e \<Rightarrow> (out, [], Some (Wrap ''failed to create input file'' e))
                     | None \<Rightarrow>
                         (case seCreate se (inputPath ch se task @ ''.err'') of
                            Some e \<Rightarrow> (out, [(inputPath ch se task, [])], Some (Wrap ''failed to create stderr file'' e))
                          | None \<Rightarrow>
                              (case newCommandProxy (sePipe se) of
                                 Some e \<Rightarrow>
                                   (out, [(inputPath ch se task, []), (inputPath ch se task @ ''.err'', [])],
                                    Some (Wrap ''failed to prepare command'' e))
                               | None \<Rightarrow>
                                   run_task ch se task
                                     (take (MaxInputSize - (length (seReads se) - length reads)) (input_bytes reads)) out)))))"

text \<open>The connection is closed in the end; a nil connection makes the handler panic.\<close>

definition handleConnection :: "unicode \<Rightarrow> checker \<Rightarrow> session_env option \<Rightarrow> (string \<times> (string \<times> string) list) outcome" where
  "handleConnection u ch conn =
     (case conn of
        None \<Rightarrow> Panic ''nil pointer dereference''
      | Some se \<Rightarrow>
          (case doHandleConnection u ch se of
             (out, files, None) \<Rightarrow> Ret (out, files)
           | (out, files, Some e) \<Rightarrow> Ret (out @ ''Error: '' @ error_text e @ [CHR 0x0A], files)))"

section \<open>Accepting connections\<close>

text \<open>
  The loop of \<open>main\<close> over the results of \<open>Accept\<close>: the connections that handlers are started for, with their numbers. After an
  error the handler is started all the same, without a connection.
\<close>

definition acceptErrorsBudget :: nat where "acceptErrorsBudget = 10"

fun accept_loop :: "nat \<Rightarrow> nat \<Rightarrow> (gerror + session_env) list \<Rightarrow> (nat \<times> session_env option) list outcome" where
  "accept_loop budget connID [] = Ret []"
| "accept_loop budget connID (Inl e # accepted) =
     (if budget = 0 then Panic (error_text e)
      else and_then (accept_loop (budget - 1) (connID + 1) accepted) (\<lambda>started. Ret ((connID, None) # started)))"
| "accept_loop budget connID (Inr conn # accepted) =
     and_then (accept_loop (if budget < acceptErrorsBudget then budget + 1 else budget) (connID + 1) accepted)
       (\<lambda>started. Ret ((connID, Some conn) # started))"

end
