(* ===== verification/CrashProxy.thy ===== *)
theory CrashProxy
  imports Crashme "HOL-Library.Sublist"
begin

text \<open>
  Program \<open>cmd/crashme\<close>, the type \<open>commandProxy\<close>: the process, the two goroutines that copy its outputs, and the goroutine that
  runs it, as a step relation. It refines the run of a process that \<open>Crashme\<close> takes as a parameter: the output of a run is what
  was copied when \<open>run\<close> returns.
\<close>

section \<open>States\<close>

datatype channel = Stdout | Stderr

text \<open>
  A pipe with the goroutine that copies from it: the bytes in the pipe, whether the reading end is open, the bytes that
  were copied, and whether the goroutine is done. All that was ever written is kept for the specification.
\<close>

record pipe =
  ppBuffer :: string
  ppOpen :: bool
  ppCopied :: string
  ppDone :: bool
  ppWritten :: string

text \<open>\<open>run\<close> waits for the process, then for the goroutines, then it returns.\<close>

datatype proxy_pc = InWait | InJoin | Returned

text \<open>
  The process is what it will still write, byte by byte, until it exits or crashes. Nothing else ends it: the context with the
  timeout is not given to the command.
\<close>

record commandProxy =
  pxProgram :: "(channel \<times> char) list"
  pxExited :: bool
  pxPipe :: "channel \<Rightarrow> pipe"
  pxMain :: proxy_pc

definition new_pipe :: pipe where
  "new_pipe = \<lparr>ppBuffer = [], ppOpen = True, ppCopied = [], ppDone = False, ppWritten = []\<rparr>"

definition start_proxy :: "(channel \<times> char) list \<Rightarrow> commandProxy" where
  "start_proxy program = \<lparr>pxProgram = program, pxExited = False, pxPipe = (\<lambda>s. new_pipe), pxMain = InWait\<rparr>"

definition set_pipe :: "commandProxy \<Rightarrow> channel \<Rightarrow> pipe \<Rightarrow> commandProxy" where
  "set_pipe st s p = st\<lparr>pxPipe := (pxPipe st)(s := p)\<rparr>"

definition close_pipe :: "pipe \<Rightarrow> pipe" where
  "close_pipe p = p\<lparr>ppOpen := False, ppBuffer := []\<rparr>"

section \<open>Steps\<close>

text \<open>
  The process writes into a pipe that is open and not full, is killed by writing into a closed one, and exits at the end. A goroutine copies a byte, gives up when the destination fails, and is done at the
  end of the output or when the pipe was closed under it; \<open>copyAndDone\<close> closes the pipe. \<open>Wait\<close> returns when the process has
  exited, and closes both pipes, as \<open>os/exec\<close> documents; what is in them is lost.
\<close>

inductive proxy_step :: "nat \<Rightarrow> commandProxy \<Rightarrow> commandProxy \<Rightarrow> bool" for capacity where
  writes: "\<not> pxExited st \<Longrightarrow> pxProgram st = (s, ch) # rest \<Longrightarrow> ppOpen (pxPipe st s) \<Longrightarrow> length (ppBuffer (pxPipe st s)) < capacity \<Longrightarrow>
    proxy_step capacity st
      (set_pipe (st\<lparr>pxProgram := rest\<rparr>) s
        ((pxPipe st s)\<lparr>ppBuffer := ppBuffer (pxPipe st s) @ [ch], ppWritten := ppWritten (pxPipe st s) @ [ch]\<rparr>))"
| broken: "\<not> pxExited st \<Longrightarrow> pxProgram st = (s, ch) # rest \<Longrightarrow> \<not> ppOpen (pxPipe st s) \<Longrightarrow>
    proxy_step capacity st (st\<lparr>pxExited := True, pxProgram := []\<rparr>)"
| exits: "\<not> pxExited st \<Longrightarrow> pxProgram st = [] \<Longrightarrow> proxy_step capacity st (st\<lparr>pxExited := True\<rparr>)"
| copied: "\<not> ppDone (pxPipe st s) \<Longrightarrow> ppOpen (pxPipe st s) \<Longrightarrow> ppBuffer (pxPipe st s) = ch # buf \<Longrightarrow>
    proxy_step capacity st (set_pipe st s ((pxPipe st s)\<lparr>ppBuffer := buf, ppCopied := ppCopied (pxPipe st s) @ [ch]\<rparr>))"
| failed: "\<not> ppDone (pxPipe st s) \<Longrightarrow> ppOpen (pxPipe st s) \<Longrightarrow> ppBuffer (pxPipe st s) \<noteq> [] \<Longrightarrow>
    proxy_step capacity st (set_pipe st s ((close_pipe (pxPipe st s))\<lparr>ppDone := True\<rparr>))"
| eof: "\<not> ppDone (pxPipe st s) \<Longrightarrow> ppOpen (pxPipe st s) \<Longrightarrow> ppBuffer (pxPipe st s) = [] \<Longrightarrow> pxExited st \<Longrightarrow>
    proxy_step capacity st (set_pipe st s ((close_pipe (pxPipe st s))\<lparr>ppDone := True\<rparr>))"
| closed: "\<not> ppDone (pxPipe st s) \<Longrightarrow> \<not> ppOpen (pxPipe st s) \<Longrightarrow>
    proxy_step capacity st (set_pipe st s ((pxPipe st s)\<lparr>ppDone := True\<rparr>))"
| waited: "pxMain st = InWait \<Longrightarrow> pxExited st \<Longrightarrow>
    proxy_step capacity st (st\<lparr>pxMain := InJoin, pxPipe := (\<lambda>s. close_pipe (pxPipe st s))\<rparr>)"
| joined: "pxMain st = InJoin \<Longrightarrow> \<forall>s. ppDone (pxPipe st s) \<Longrightarrow> proxy_step capacity st (st\<lparr>pxMain := Returned\<rparr>)"

inductive_cases proxy_stepE: "proxy_step capacity st st'"

section \<open>What a run does\<close>

text \<open>The bytes of one output.\<close>

definition output_of :: "channel \<Rightarrow> (channel \<times> char) list \<Rightarrow> string" where
  "output_of s program = map snd (filter (\<lambda>w. fst w = s) program)"

lemma output_of_simps [simp]:
  "output_of s [] = []" "output_of s ((t, ch) # program) = (if t = s then ch # output_of s program else output_of s program)"
  by (simp_all add: output_of_def)

text \<open>The invariant of a pipe, its process and the goroutine that runs them.\<close>

definition pipe_ok :: "bool \<Rightarrow> proxy_pc \<Rightarrow> pipe \<Rightarrow> bool" where
  "pipe_ok ended pc p \<longleftrightarrow>
     prefix (ppCopied p @ ppBuffer p) (ppWritten p) \<and> (ppDone p \<longrightarrow> \<not> ppOpen p) \<and> (ppOpen p \<longrightarrow> pc = InWait)
     \<and> (ppOpen p \<longrightarrow> ppCopied p @ ppBuffer p = ppWritten p) \<and> (pc = Returned \<longrightarrow> ppDone p) \<and> (pc \<noteq> InWait \<longrightarrow> ended)"

definition proxy_ok :: "(channel \<times> char) list \<Rightarrow> commandProxy \<Rightarrow> bool" where
  "proxy_ok program st \<longleftrightarrow>
     (\<forall>s. pipe_ok (pxExited st) (pxMain st) (pxPipe st s) \<and>
       prefix (ppWritten (pxPipe st s) @ output_of s (pxProgram st)) (output_of s program))"

lemma proxy_ok_start: "proxy_ok program (start_proxy program)"
  by (simp add: proxy_ok_def pipe_ok_def start_proxy_def new_pipe_def)

lemma pipe_okD:
  assumes "proxy_ok program st"
  shows "pipe_ok (pxExited st) (pxMain st) (pxPipe st s)"
    and "prefix (ppWritten (pxPipe st s) @ output_of s (pxProgram st)) (output_of s program)"
  using assms by (auto simp: proxy_ok_def)

lemma set_pipe_simps [simp]:
  "pxProgram (set_pipe st s p) = pxProgram st" "pxExited (set_pipe st s p) = pxExited st" "pxMain (set_pipe st s p) = pxMain st"
  "pxPipe (set_pipe st s p) = (pxPipe st)(s := p)"
  by (simp_all add: set_pipe_def)

lemma close_pipe_simps [simp]:
  "ppBuffer (close_pipe p) = []" "ppOpen (close_pipe p) = False" "ppCopied (close_pipe p) = ppCopied p"
  "ppDone (close_pipe p) = ppDone p" "ppWritten (close_pipe p) = ppWritten p"
  by (simp_all add: close_pipe_def)

lemma proxy_ok_step:
  assumes "proxy_step capacity st st'" "proxy_ok program st"
  shows "proxy_ok program st'"
  using assms
proof (induction rule: proxy_step.induct)
  case (writes st s ch rest)
  have "pipe_ok (pxExited st) (pxMain st) (pxPipe st s)" "prefix (ppWritten (pxPipe st t) @ output_of t (pxProgram st)) (output_of t program)" for t
    using pipe_okD [OF writes.prems] by blast+
  moreover from this(2) [of s] writes.hyps(2) have "prefix (ppWritten (pxPipe st s) @ ch # output_of s rest) (output_of s program)" by simp
  moreover have "prefix (ppWritten (pxPipe st t) @ output_of t rest) (output_of t program)" if "t \<noteq> s" for t
    using pipe_okD(2) [OF writes.prems, of t] writes.hyps(2) that by simp
  ultimately show ?case using writes.hyps pipe_okD(1) [OF writes.prems] by (auto simp: proxy_ok_def pipe_ok_def)
next
  case (broken st s ch rest)
  have "prefix (ppWritten (pxPipe st t)) (output_of t program)" for t
    using append_prefixD [OF pipe_okD(2) [OF broken.prems]] .
  with broken show ?case by (auto simp: proxy_ok_def pipe_ok_def)
qed (auto simp: proxy_ok_def pipe_ok_def dest: append_prefixD)

lemma proxy_reachable_ok:
  "(proxy_step capacity)\<^sup>*\<^sup>* (start_proxy program) st \<Longrightarrow> proxy_ok program st"
  by (induction rule: rtranclp_induct) (auto intro: proxy_ok_start proxy_ok_step)

text \<open>Somebody can always go on: a full pipe is open, and then its goroutine can copy.\<close>

lemma proxy_progress:
  assumes "0 < capacity" "proxy_ok program st" "pxMain st \<noteq> Returned"
  shows "\<exists>st'. proxy_step capacity st st'"
proof (cases "pxExited st")
  case False
  show ?thesis
  proof (cases "pxProgram st")
    case Nil
    with False show ?thesis by (blast intro: proxy_step.exits)
  next
    case (Cons w rest)
    obtain s ch where w: "w = (s, ch)" by (cases w)
    show ?thesis
    proof (cases "ppOpen (pxPipe st s)")
      case True
      with pipe_okD(1) [OF assms(2), of s] have "\<not> ppDone (pxPipe st s)" by (auto simp: pipe_ok_def)
      moreover have "length (ppBuffer (pxPipe st s)) < capacity \<or> (\<exists>c buf. ppBuffer (pxPipe st s) = c # buf)"
        using assms(1) by (cases "ppBuffer (pxPipe st s)") simp_all
      ultimately show ?thesis using proxy_step.writes [OF False Cons [unfolded w] True] proxy_step.copied [OF _ True] by blast
    qed (use False Cons w in \<open>blast intro: proxy_step.broken\<close>)
  qed
next
  case True
  show ?thesis
  proof (cases "pxMain st")
    case InJoin
    then have "\<not> ppOpen (pxPipe st s)" for s using pipe_okD(1) [OF assms(2), of s] by (auto simp: pipe_ok_def)
    with InJoin show ?thesis by (blast intro: proxy_step.joined proxy_step.closed)
  qed (use True assms(3) in \<open>auto intro: proxy_step.waited\<close>)
qed

text \<open>Every step uses something up, so a run ends whatever the scheduling.\<close>

definition pipe_work :: "pipe \<Rightarrow> nat" where
  "pipe_work p = length (ppBuffer p) + (if ppDone p then 0 else 1)"

fun pc_work :: "proxy_pc \<Rightarrow> nat" where
  "pc_work InWait = 2" | "pc_work InJoin = 1" | "pc_work Returned = 0"

definition proxy_work :: "commandProxy \<Rightarrow> nat" where
  "proxy_work st = 2 * length (pxProgram st) + (if pxExited st then 0 else 1)
     + pipe_work (pxPipe st Stdout) + pipe_work (pxPipe st Stderr) + pc_work (pxMain st)"

lemma proxy_step_work: "proxy_step capacity st st' \<Longrightarrow> proxy_work st' < proxy_work st"
proof (induction rule: proxy_step.induct)
  case (writes st s ch rest)
  then show ?case by (cases s) (auto simp: proxy_work_def pipe_work_def)
next
  case (copied st s ch buf)
  then show ?case by (cases s) (auto simp: proxy_work_def pipe_work_def)
next
  case (failed st s)
  then show ?case by (cases s) (auto simp: proxy_work_def pipe_work_def)
next
  case (eof st s)
  then show ?case by (cases s) (auto simp: proxy_work_def pipe_work_def)
next
  case (closed st s)
  then show ?case by (cases s) (auto simp: proxy_work_def pipe_work_def)
qed (auto simp: proxy_work_def pipe_work_def)


section \<open>Lost output\<close>

definition after_writes :: "commandProxy \<Rightarrow> commandProxy" where
  "after_writes st = st\<lparr>pxProgram := [],
     pxPipe := (\<lambda>s. (pxPipe st s)\<lparr>ppBuffer := ppBuffer (pxPipe st s) @ output_of s (pxProgram st),
       ppWritten := ppWritten (pxPipe st s) @ output_of s (pxProgram st)\<rparr>)\<rparr>"

lemma all_written:
  assumes "\<not> pxExited st" "\<forall>s. ppOpen (pxPipe st s) \<and> length (ppBuffer (pxPipe st s) @ output_of s (pxProgram st)) \<le> capacity"
  shows "(proxy_step capacity)\<^sup>*\<^sup>* st (after_writes st)"
  using assms
proof (induction "pxProgram st" arbitrary: st)
  case Nil
  then have "after_writes st = st" by (simp add: after_writes_def flip: Nil.hyps)
  then show ?case by simp
next
  case (Cons w rest)
  obtain s ch where w: "w = (s, ch)" by (cases w)
  define st1 where "st1 = set_pipe (st\<lparr>pxProgram := rest\<rparr>) s
    ((pxPipe st s)\<lparr>ppBuffer := ppBuffer (pxPipe st s) @ [ch], ppWritten := ppWritten (pxPipe st s) @ [ch]\<rparr>)"
  have p: "pxProgram st = (s, ch) # rest" using Cons.hyps(2) w by simp
  with Cons.prems(2) have fits: "length (ppBuffer (pxPipe st s)) < capacity" by (auto dest: spec [of _ s])
  have step: "proxy_step capacity st st1"
    unfolding st1_def using Cons.prems p fits by (intro proxy_step.writes) auto
  have room: "\<not> pxExited st1" "\<forall>t. ppOpen (pxPipe st1 t) \<and> length (ppBuffer (pxPipe st1 t) @ output_of t (pxProgram st1)) \<le> capacity"
    using Cons.prems p by (auto simp: st1_def split: if_splits)
  have "rest = pxProgram st1" by (simp add: st1_def)
  from Cons.hyps(1) [OF this room] have "(proxy_step capacity)\<^sup>*\<^sup>* st1 (after_writes st1)" .
  moreover have "after_writes st1 = after_writes st"
    by (simp add: after_writes_def st1_def set_pipe_def p fun_eq_iff)
  ultimately show ?case using step by (simp add: converse_rtranclp_into_rtranclp)
qed

text \<open>
  C27. \<open>run\<close> waits for the process before it waits for the goroutines, and that closes the pipes: whatever a process writes, if it
  fits the pipes, there is a schedule in which the process has written all of it and nothing has been copied when \<open>run\<close> returns.
\<close>

theorem proxy_loses_output:
  assumes "\<forall>s. length (output_of s program) \<le> capacity"
  shows "\<exists>st. (proxy_step capacity)\<^sup>*\<^sup>* (start_proxy program) st \<and> pxMain st = Returned
    \<and> (\<forall>s. ppWritten (pxPipe st s) = output_of s program \<and> ppCopied (pxPipe st s) = [])"
proof -
  let ?full = "after_writes (start_proxy program)"
  define exited where "exited = ?full\<lparr>pxExited := True\<rparr>"
  define waited where "waited = exited\<lparr>pxMain := InJoin, pxPipe := (\<lambda>s. close_pipe (pxPipe exited s))\<rparr>"
  define out_done where "out_done = set_pipe waited Stdout ((pxPipe waited Stdout)\<lparr>ppDone := True\<rparr>)"
  define both where "both = set_pipe out_done Stderr ((pxPipe out_done Stderr)\<lparr>ppDone := True\<rparr>)"
  have "(proxy_step capacity)\<^sup>*\<^sup>* (start_proxy program) ?full"
    by (rule all_written) (use assms in \<open>auto simp: start_proxy_def new_pipe_def\<close>)
  also have "proxy_step capacity ?full exited"
    unfolding exited_def by (rule proxy_step.exits) (simp_all add: after_writes_def start_proxy_def)
  also have "proxy_step capacity exited waited"
    unfolding waited_def by (rule proxy_step.waited) (simp_all add: exited_def after_writes_def start_proxy_def)
  also have "proxy_step capacity waited out_done"
    unfolding out_done_def by (rule proxy_step.closed) (simp_all add: waited_def exited_def after_writes_def start_proxy_def new_pipe_def)
  also have "proxy_step capacity out_done both"
    unfolding both_def by (rule proxy_step.closed) (simp_all add: out_done_def waited_def exited_def after_writes_def start_proxy_def new_pipe_def)
  also have "proxy_step capacity both (both\<lparr>pxMain := Returned\<rparr>)"
  proof (rule proxy_step.joined)
    show "\<forall>s. ppDone (pxPipe both s)"
    proof
      fix s show "ppDone (pxPipe both s)" by (cases s) (simp_all add: both_def out_done_def)
    qed
  qed (simp add: both_def out_done_def waited_def)
  finally have "(proxy_step capacity)\<^sup>*\<^sup>* (start_proxy program) (both\<lparr>pxMain := Returned\<rparr>)" .
  moreover have "ppWritten (pxPipe both s) = output_of s program \<and> ppCopied (pxPipe both s) = []" for s
    by (cases s) (simp_all add: both_def out_done_def waited_def exited_def after_writes_def start_proxy_def new_pipe_def)
  ultimately show ?thesis by (intro exI [of _ "both\<lparr>pxMain := Returned\<rparr>"]) simp
qed

section \<open>Witnesses\<close>

definition hello :: "(channel \<times> char) list" where
  "hello = [(Stdout, CHR ''h''), (Stderr, CHR ''e''), (Stdout, CHR ''i'')]"


lemma proxy_loses_output_witness:
  "\<exists>st. (proxy_step 2)\<^sup>*\<^sup>* (start_proxy hello) st \<and> pxMain st = Returned
     \<and> ppWritten (pxPipe st Stdout) = ''hi'' \<and> ppCopied (pxPipe st Stdout) = []"
proof -
  have "length (output_of s hello) \<le> 2" for s by (cases s) (simp_all add: hello_def)
  with proxy_loses_output [of hello 2] show ?thesis by (auto simp: hello_def)
qed

end
