(* ===== verification/GoTime.thy ===== *)
theory GoTime
  imports GoText
begin

text \<open>
  The proleptic Gregorian calendar and the parts of Go's package time that dates go through: the civil date of a
  day and back, a location's offsets, and \<open>time.Date\<close>. Days are counted from the first of January 1970.
\<close>

section \<open>The calendar\<close>

definition leap :: "int \<Rightarrow> bool" where
  "leap y \<longleftrightarrow> y mod 4 = 0 \<and> (y mod 100 \<noteq> 0 \<or> y mod 400 = 0)"

definition month_lengths :: "int \<Rightarrow> int list" where
  "month_lengths y = [31, if leap y then 29 else 28, 31, 30, 31, 30, 31, 31, 30, 31, 30, 31]"

definition daysIn :: "int \<Rightarrow> int \<Rightarrow> int" where
  "daysIn m y = month_lengths y ! nat (m - 1)"

text \<open>The days from the first of January of year 0 to that of year \<open>y\<close>.\<close>

definition days_before_year :: "int \<Rightarrow> int" where
  "days_before_year y = 365 * y + (y + 3) div 4 - (y + 99) div 100 + (y + 399) div 400"

definition epoch_days :: int where "epoch_days = 719528"

definition days_of_civil :: "int \<Rightarrow> int \<Rightarrow> int \<Rightarrow> int" where
  "days_of_civil y m d = days_before_year y + sum_list (take (nat (m - 1)) (month_lengths y)) + (d - 1) - epoch_days"

text \<open>The year is estimated from the mean length of a year and corrected by at most one.\<close>

definition year_of_days :: "int \<Rightarrow> int" where
  "year_of_days n =
     (let y = n * 400 div 146097
      in if n < days_before_year y then y - 1 else if days_before_year (y + 1) \<le> n then y + 1 else y)"

fun split_month :: "int \<Rightarrow> int list \<Rightarrow> int \<Rightarrow> int \<times> int" where
  "split_month m [] d = (m, d)"
| "split_month m (l # ls) d = (if d < l then (m, d) else split_month (m + 1) ls (d - l))"

definition civil_of_days :: "int \<Rightarrow> int \<times> int \<times> int" where
  "civil_of_days n =
     (let y = year_of_days (n + epoch_days);
          (m, d) = split_month 1 (month_lengths y) (n + epoch_days - days_before_year y)
      in (y, m, d + 1))"

lemma div_bounds: "0 < (k :: int) \<Longrightarrow> k * (x div k) \<le> x" "0 < (k :: int) \<Longrightarrow> x < k * (x div k) + k"
  by (simp_all add: minus_mod_eq_mult_div [symmetric])

text \<open>Rounding up the quotient of the next number.\<close>

lemma round_up_Suc:
  assumes "0 < (k :: int)" "j = k - 1" shows "(y + k) div k = (y + j) div k + (if y mod k = 0 then 1 else 0)"
proof -
  have y: "y = k * (y div k) + y mod k" by simp
  have "(y + j) div k = y div k + (if y mod k = 0 then 0 else 1)"
  proof (cases "y mod k = 0")
    case True
    then show ?thesis using assms y by (intro int_div_pos_eq [where r = j]) (auto simp: algebra_simps)
  next
    case False
    moreover have "0 \<le> y mod k" "y mod k < k" using assms by simp_all
    ultimately show ?thesis using y assms(2)
      by (intro int_div_pos_eq [where r = "y mod k - 1"]) (auto simp: algebra_simps)
  qed
  moreover have "(y + k) div k = y div k + 1" using assms(1) by (intro div_add_self2) simp
  ultimately show ?thesis by simp
qed

lemma days_before_year_Suc: "days_before_year (y + 1) = days_before_year y + (if leap y then 366 else 365)"
proof -
  have "y mod 100 mod 4 = y mod 4" "y mod 400 mod 100 = y mod 100" by (simp_all add: mod_mod_cancel)
  then have m: "y mod 100 = 0 \<Longrightarrow> y mod 4 = 0" "y mod 400 = 0 \<Longrightarrow> y mod 100 = 0" by simp_all
  have e: "y + 1 + 3 = y + 4" "y + 1 + 99 = y + 100" "y + 1 + 399 = y + 400" by simp_all
  have q: "(y + 4) div 4 = (y + 3) div 4 + (if y mod 4 = 0 then 1 else 0)"
    "(y + 100) div 100 = (y + 99) div 100 + (if y mod 100 = 0 then 1 else 0)"
    "(y + 400) div 400 = (y + 399) div 400 + (if y mod 400 = 0 then 1 else 0)"
    by (rule round_up_Suc; simp)+
  have sum: "365 * (y + 1) + (a + (if p4 then 1 else 0)) - (b + (if p100 then 1 else 0)) + (c + (if p400 then 1 else 0))
      = 365 * y + a - b + c + (if p4 \<and> (\<not> p100 \<or> p400) then 366 else 365)"
    if "p100 \<Longrightarrow> p4" "p400 \<Longrightarrow> p100" for a b c :: int and p4 p100 p400
    using that by (cases p4; cases p100; cases p400) simp_all
  show ?thesis unfolding days_before_year_def e q leap_def by (rule sum [OF m])
qed

lemma month_lengths_sum: "sum_list (month_lengths y) = (if leap y then 366 else 365)"
  by (simp add: month_lengths_def)

lemma days_before_year_mono: "y \<le> z \<Longrightarrow> days_before_year y \<le> days_before_year z"
  by (induction z rule: int_ge_induct) (auto simp: days_before_year_Suc)

lemma days_before_year_bounds:
  "146097 * y - 400 \<le> 400 * days_before_year y" "400 * days_before_year y \<le> 146097 * y + 700"
proof -
  have b: "4 * ((y + 3) div 4) \<le> y + 3" "y + 3 < 4 * ((y + 3) div 4) + 4"
    "100 * ((y + 99) div 100) \<le> y + 99" "y + 99 < 100 * ((y + 99) div 100) + 100"
    "400 * ((y + 399) div 400) \<le> y + 399" "y + 399 < 400 * ((y + 399) div 400) + 400"
    by (rule div_bounds; simp)+
  have lo: "146097 * y - 400 \<le> 400 * (365 * y + p - q + r)" if "y + 3 < 4 * p + 4" "100 * q \<le> y + 99" "y + 399 < 400 * r + 400" for p q r
    using that unfolding right_diff_distrib distrib_left by linarith
  have hi: "400 * (365 * y + p - q + r) \<le> 146097 * y + 700" if "4 * p \<le> y + 3" "y + 99 < 100 * q + 100" "400 * r \<le> y + 399" for p q r
    using that unfolding right_diff_distrib distrib_left by linarith
  show "146097 * y - 400 \<le> 400 * days_before_year y" unfolding days_before_year_def by (rule lo) (fact b)+
  show "400 * days_before_year y \<le> 146097 * y + 700" unfolding days_before_year_def by (rule hi) (fact b)+
qed

lemma year_of_days_correct:
  "days_before_year (year_of_days n) \<le> n \<and> n < days_before_year (year_of_days n + 1)"
proof -
  define y where "y = n * 400 div 146097"
  have y: "146097 * y \<le> n * 400" "n * 400 < 146097 * y + 146097" 
    using div_bounds [of 146097 "n * 400"] by (simp_all add: y_def)
  note b = days_before_year_bounds
  have lo: "days_before_year (y - 1) \<le> n" using y b(2) [of "y - 1"] unfolding right_diff_distrib by linarith
  have hi: "n < days_before_year (y + 2)" using y b(1) [of "y + 2"] unfolding distrib_left by linarith
  show ?thesis using lo hi unfolding year_of_days_def Let_def y_def [symmetric] by (auto simp: add.assoc)
qed

lemma year_of_days_unique:
  assumes "days_before_year y \<le> n" "n < days_before_year (y + 1)" shows "year_of_days n = y"
proof (rule ccontr)
  assume "year_of_days n \<noteq> y"
  then have "year_of_days n + 1 \<le> y \<or> y + 1 \<le> year_of_days n" by linarith
  with assms year_of_days_correct [of n] days_before_year_mono show False
    by (meson leD le_less_trans less_le_trans order_trans)
qed

lemma split_month_take:
  "k < length ls \<Longrightarrow> (\<forall>l \<in> set ls. 0 \<le> l) \<Longrightarrow> 0 \<le> d \<Longrightarrow> d < ls ! k \<Longrightarrow>
     split_month m ls (sum_list (take k ls) + d) = (m + int k, d)"
proof (induction ls arbitrary: k m)
  case (Cons l ls)
  then show ?case
  proof (cases k)
    case (Suc j)
    with Cons.prems have "0 \<le> sum_list (take j ls)" by (auto intro!: sum_list_nonneg dest: in_set_takeD)
    with Cons Suc show ?thesis by (auto simp: algebra_simps)
  qed simp
qed simp

lemma split_month_sum:
  "0 \<le> d \<Longrightarrow> d < sum_list ls \<Longrightarrow> split_month m ls d = (m', d') \<Longrightarrow>
     \<exists>k < length ls. m' = m + int k \<and> 0 \<le> d' \<and> d' < ls ! k \<and> d = sum_list (take k ls) + d'"
proof (induction m ls d rule: split_month.induct)
  case (2 m l ls d)
  show ?case
  proof (cases "d < l")
    case True
    with 2 show ?thesis by (intro exI [of _ 0]) auto
  next
    case False
    with 2 obtain k where "k < length ls" "m' = m + 1 + int k" "0 \<le> d'" "d' < ls ! k" "d - l = sum_list (take k ls) + d'" by fastforce
    then show ?thesis by (intro exI [of _ "Suc k"]) auto
  qed
qed simp

lemma month_lengths_nth: "k < 12 \<Longrightarrow> 28 \<le> month_lengths y ! k \<and> month_lengths y ! k \<le> 31"
  by (simp add: month_lengths_def less_Suc_eq numeral_eq_Suc nth_Cons split: nat.split) auto

text \<open>The two directions are inverse to each other.\<close>

definition civil :: "int \<Rightarrow> int \<Rightarrow> int \<Rightarrow> bool" where
  "civil y m d \<longleftrightarrow> 1 \<le> m \<and> m \<le> 12 \<and> 1 \<le> d \<and> d \<le> daysIn m y"

lemma civil_of_days_of_civil:
  assumes "civil y m d" shows "civil_of_days (days_of_civil y m d) = (y, m, d)"
proof -
  define k where "k = nat (m - 1)"
  from assms have k: "k < length (month_lengths y)" "d - 1 < month_lengths y ! k" "0 \<le> d - 1" "m = 1 + int k"
    by (auto simp: civil_def daysIn_def k_def month_lengths_def)
  have nonneg: "\<forall>l \<in> set (month_lengths y). 0 \<le> l" by (auto simp: month_lengths_def)
  let ?s = "sum_list (take k (month_lengths y))"
  have "sum_list (month_lengths y) = ?s + sum_list (drop k (month_lengths y))"
    using sum_list_append [of "take k (month_lengths y)" "drop k (month_lengths y)"] by simp
  moreover have "drop k (month_lengths y) = month_lengths y ! k # drop (Suc k) (month_lengths y)"
    using k(1) by (simp add: Cons_nth_drop_Suc)
  moreover have "0 \<le> ?s" "0 \<le> sum_list (drop (Suc k) (month_lengths y))"
    using nonneg by (auto intro!: sum_list_nonneg dest: in_set_takeD in_set_dropD)
  ultimately have "?s + (d - 1) < sum_list (month_lengths y)" "0 \<le> ?s + (d - 1)" using k(2,3) by simp_all
  then have "year_of_days (days_before_year y + (?s + (d - 1))) = y"
    by (intro year_of_days_unique) (simp_all add: days_before_year_Suc month_lengths_sum)
  moreover have n: "days_of_civil y m d + epoch_days = days_before_year y + (?s + (d - 1))"
    by (simp add: days_of_civil_def k_def)
  moreover have "split_month 1 (month_lengths y) (?s + (d - 1)) = (m, d - 1)"
    using split_month_take [OF k(1) nonneg k(3,2), of 1] k(4) by simp
  ultimately show ?thesis by (simp add: civil_of_days_def)
qed

lemma days_of_civil_of_days:
  assumes "civil_of_days n = (y, m, d)" shows "civil y m d \<and> days_of_civil y m d = n"
proof -
  let ?N = "n + epoch_days"
  from assms have y: "y = year_of_days ?N"
    and s: "split_month 1 (month_lengths y) (?N - days_before_year y) = (m, d - 1)"
    by (auto simp: civil_of_days_def Let_def split: prod.splits)
  from year_of_days_correct [of ?N] y have "0 \<le> ?N - days_before_year y" "?N - days_before_year y < sum_list (month_lengths y)"
    by (simp_all add: days_before_year_Suc month_lengths_sum)
  from split_month_sum [OF this s] obtain k where "k < length (month_lengths y)" "m = 1 + int k" "0 \<le> d - 1"
    "d - 1 < month_lengths y ! k" "?N - days_before_year y = sum_list (take k (month_lengths y)) + (d - 1)" by blast
  then show ?thesis by (simp add: civil_def daysIn_def days_of_civil_def month_lengths_def)
qed

end
