(* ===== verification/Dates.thy ===== *)
theory Dates
  imports GoTime Models
begin

text \<open>
  The type \<open>Date\<close> of \<open>deadlines.go\<close>: an instant that is written as day, month, year, hour and minute of Moscow. The
  time zone database is a parameter.
\<close>

section \<open>Locations\<close>

text \<open>For a time in seconds the offset from UTC, and the bounds of the period in which it is in force.\<close>

record location =
  lcLookup :: "int \<Rightarrow> int \<times> int \<times> int"

record date_fields =
  dfYear :: int
  dfMonth :: int
  dfDay :: int
  dfHour :: int
  dfMinute :: int

definition wall_seconds :: "date_fields \<Rightarrow> int" where
  "wall_seconds f = days_of_civil (dfYear f) (dfMonth f) (dfDay f) * 86400 + dfHour f * 3600 + dfMinute f * 60"

text \<open>\<open>time.Date\<close>: the offset is looked up as if the fields were in UTC, and again if that was wrong.\<close>

definition time_Date :: "location \<Rightarrow> date_fields \<Rightarrow> instant" where
  "time_Date z f =
     (let unix = wall_seconds f;
          (off, start, end_of) = lcLookup z unix;
          utc = unix - off;
          off' = (if off \<noteq> 0 \<and> (utc < start \<or> end_of \<le> utc) then fst (lcLookup z utc) else off)
      in (unix - off') * 1000000000)"

definition fields_of :: "location \<Rightarrow> instant \<Rightarrow> date_fields" where
  "fields_of z t =
     (let s = t div 1000000000;
          wall = s + fst (lcLookup z s);
          (y, m, d) = civil_of_days (wall div 86400)
      in \<lparr>dfYear = y, dfMonth = m, dfDay = d, dfHour = wall mod 86400 div 3600, dfMinute = wall mod 3600 div 60\<rparr>)"

section \<open>Formatting and parsing\<close>

text \<open>The elements of the layout \<open>02-01-2006 15:04\<close>.\<close>

datatype element = ZeroDay | ZeroMonth | LongYear | Hour24 | ZeroMinute | Sep char

definition dateFormat :: "element list" where
  "dateFormat = [ZeroDay, Sep (CHR ''-''), ZeroMonth, Sep (CHR ''-''), LongYear, Sep (CHR '' ''), Hour24, Sep (CHR '':''), ZeroMinute]"

definition padded :: "nat \<Rightarrow> nat \<Rightarrow> string" where
  "padded w n = replicate (w - length (nat_digits n)) (CHR ''0'') @ nat_digits n"

definition appendInt :: "int \<Rightarrow> nat \<Rightarrow> string" where
  "appendInt x w = (if x < 0 then CHR ''-'' # padded w (nat (- x)) else padded w (nat x))"

fun format_element :: "date_fields \<Rightarrow> element \<Rightarrow> string" where
  "format_element f ZeroDay = appendInt (dfDay f) 2"
| "format_element f ZeroMonth = appendInt (dfMonth f) 2"
| "format_element f LongYear = appendInt (dfYear f) 4"
| "format_element f Hour24 = appendInt (dfHour f) 2"
| "format_element f ZeroMinute = appendInt (dfMinute f) 2"
| "format_element f (Sep ch) = [ch]"

definition date_text :: "date_fields \<Rightarrow> string" where
  "date_text f = concat (map (format_element f) dateFormat)"

text \<open>One or two digits, or exactly two when \<open>fixed\<close>.\<close>

definition getnum :: "string \<Rightarrow> bool \<Rightarrow> (int \<times> string) option" where
  "getnum s fixed =
     (case s of
        a # b # r \<Rightarrow>
          if \<not> is_digit a then None
          else if is_digit b then Some (digits_value 0 [a, b], r)
          else if fixed then None else Some (digits_value 0 [a], b # r)
      | [a] \<Rightarrow> if is_digit a \<and> \<not> fixed then Some (digits_value 0 [a], []) else None
      | [] \<Rightarrow> None)"

definition bad_date :: gerror where "bad_date = Errorf ''cannot parse''"
definition out_of_range :: "string \<Rightarrow> gerror" where "out_of_range what = Errorf (what @ '' out of range'')"

text \<open>A number in a range: what is left, and the number.\<close>

definition parse_num :: "string \<Rightarrow> string \<Rightarrow> bool \<Rightarrow> int \<Rightarrow> int \<Rightarrow> gerror + int \<times> string" where
  "parse_num what s fixed lo hi =
     (case getnum s fixed of
        None \<Rightarrow> Inl bad_date
      | Some (v, r) \<Rightarrow> if v < lo \<or> hi < v then Inl (out_of_range what) else Inr (v, r))"

text \<open>Space in the layout takes any amount of it, as long as the value has some or is over.\<close>

fun parse_element :: "element \<Rightarrow> string \<Rightarrow> date_fields \<Rightarrow> gerror + string \<times> date_fields" where
  "parse_element ZeroDay s f =
     (case getnum s True of None \<Rightarrow> Inl bad_date | Some (v, r) \<Rightarrow> Inr (r, f\<lparr>dfDay := v\<rparr>))"
| "parse_element ZeroMonth s f =
     (case parse_num ''month'' s True 1 12 of Inl e \<Rightarrow> Inl e | Inr (v, r) \<Rightarrow> Inr (r, f\<lparr>dfMonth := v\<rparr>))"
| "parse_element LongYear s f =
     (if length s < 4 \<or> \<not> list_all is_digit (take 4 s) then Inl bad_date
      else Inr (drop 4 s, f\<lparr>dfYear := digits_value 0 (take 4 s)\<rparr>))"
| "parse_element Hour24 s f =
     (case parse_num ''hour'' s False 0 23 of Inl e \<Rightarrow> Inl e | Inr (v, r) \<Rightarrow> Inr (r, f\<lparr>dfHour := v\<rparr>))"
| "parse_element ZeroMinute s f =
     (case parse_num ''minute'' s True 0 59 of Inl e \<Rightarrow> Inl e | Inr (v, r) \<Rightarrow> Inr (r, f\<lparr>dfMinute := v\<rparr>))"
| "parse_element (Sep ch) s f =
     (if ch = CHR '' '' then
        (case s of
           [] \<Rightarrow> Inr ([], f)
         | a # r \<Rightarrow> if a = CHR '' '' then Inr (dropWhile (\<lambda>c. c = CHR '' '') s, f) else Inl bad_date)
      else (case s of [] \<Rightarrow> Inl bad_date | a # r \<Rightarrow> if a = ch then Inr (r, f) else Inl bad_date))"

fun parse_layout :: "element list \<Rightarrow> string \<Rightarrow> date_fields \<Rightarrow> gerror + date_fields" where
  "parse_layout [] s f =
     (if s \<noteq> [] then Inl (Errorf ''extra text'')
      else if dfDay f < 1 \<or> daysIn (dfMonth f) (dfYear f) < dfDay f then Inl (out_of_range ''day'')
      else Inr f)"
| "parse_layout (e # es) s f =
     (case parse_element e s f of Inl err \<Rightarrow> Inl err | Inr (r, f') \<Rightarrow> parse_layout es r f')"

definition no_fields :: date_fields where
  "no_fields = \<lparr>dfYear = 0, dfMonth = -1, dfDay = -1, dfHour = 0, dfMinute = 0\<rparr>"

definition ParseInLocation :: "location \<Rightarrow> string \<Rightarrow> gerror + instant" where
  "ParseInLocation z s = (case parse_layout dateFormat s no_fields of Inl e \<Rightarrow> Inl e | Inr f \<Rightarrow> Inr (time_Date z f))"

section \<open>Dates\<close>

definition Date_String :: "location \<Rightarrow> instant \<Rightarrow> string" where
  "Date_String z t = date_text (fields_of z t)"

definition UnmarshalText :: "unicode \<Rightarrow> location \<Rightarrow> string \<Rightarrow> gerror + instant" where
  "UnmarshalText u z buf = ParseInLocation z (TrimSpace u buf)"

text \<open>
  The location is loaded by the first call, which panics with the printed error; \<open>sync.Once\<close> counts that call also when it
  panics, and then the location stays nil, with which only texts that are no dates are read without a panic.
\<close>

record default_location =
  loDone :: bool
  loLoc :: "location option"

definition defaultTimeZone :: string where "defaultTimeZone = ''Europe/Moscow''"

definition getDefaultLocation ::
  "(string \<Rightarrow> string + location) \<Rightarrow> default_location \<Rightarrow> default_location \<times> location option outcome" where
  "getDefaultLocation load st =
     (if loDone st then (st, Ret (loLoc st))
      else case load defaultTimeZone of
             Inl e \<Rightarrow> (\<lparr>loDone = True, loLoc = None\<rparr>, Panic e)
           | Inr z \<Rightarrow> (\<lparr>loDone = True, loLoc = Some z\<rparr>, Ret (Some z)))"

definition ParseInDefault :: "location option \<Rightarrow> string \<Rightarrow> instant outcome" where
  "ParseInDefault loc s =
     (case loc of
        Some z \<Rightarrow> (case ParseInLocation z s of Inl e \<Rightarrow> Fail e | Inr t \<Rightarrow> Ret t)
      | None \<Rightarrow>
          (case parse_layout dateFormat s no_fields of
             Inl e \<Rightarrow> Fail e
           | Inr f \<Rightarrow> Panic ''time: missing Location in call to Date''))"

definition read_date ::
  "unicode \<Rightarrow> (string \<Rightarrow> string + location) \<Rightarrow> default_location \<Rightarrow> string \<Rightarrow> default_location \<times> instant outcome" where
  "read_date u load st buf =
     (case getDefaultLocation load st of (st', r) \<Rightarrow> (st', and_then r (\<lambda>loc. ParseInDefault loc (TrimSpace u buf))))"

text \<open>So in one run of the program all dates are read in one location, the one of \<open>UnmarshalText\<close>, or none is read at all.\<close>

definition not_loaded :: default_location where "not_loaded = \<lparr>loDone = False, loLoc = None\<rparr>"

fun read_dates ::
  "unicode \<Rightarrow> (string \<Rightarrow> string + location) \<Rightarrow> default_location \<Rightarrow> string list \<Rightarrow> instant outcome list" where
  "read_dates u load st [] = []"
| "read_dates u load st (buf # bufs) = (case read_date u load st buf of (st', r) \<Rightarrow> r # read_dates u load st' bufs)"

lemma read_dates_done:
  "loDone st \<Longrightarrow> read_dates u load st bufs = map (\<lambda>buf. ParseInDefault (loLoc st) (TrimSpace u buf)) bufs"
  by (induction bufs) (simp_all add: read_date_def getDefaultLocation_def)

lemma one_location:
  "load defaultTimeZone = Inr z \<Longrightarrow>
     read_dates u load not_loaded bufs = map (\<lambda>buf. case UnmarshalText u z buf of Inl e \<Rightarrow> Fail e | Inr t \<Rightarrow> Ret t) bufs"
  by (cases bufs) (simp_all add: read_date_def getDefaultLocation_def not_loaded_def read_dates_done ParseInDefault_def UnmarshalText_def)

lemma no_location:
  assumes "load defaultTimeZone = Inl e" shows "Ret t \<notin> set (read_dates u load not_loaded bufs)"
  using assms
  by (cases bufs)
    (auto simp: read_date_def getDefaultLocation_def not_loaded_def read_dates_done ParseInDefault_def split: sum.splits)

definition MarshalText :: "location \<Rightarrow> instant \<Rightarrow> string" where
  "MarshalText z t = Date_String z t"

text \<open>The slice without the quotes panics when there are not two of them.\<close>

definition UnmarshalJSON :: "unicode \<Rightarrow> location \<Rightarrow> string \<Rightarrow> instant outcome" where
  "UnmarshalJSON u z buf =
     (if length buf < 2 then Panic ''slice bounds out of range''
      else case UnmarshalText u z (butlast (tl buf)) of Inl e \<Rightarrow> Fail e | Inr t \<Rightarrow> Ret t)"

definition MarshalJSON :: "location \<Rightarrow> instant \<Rightarrow> string" where
  "MarshalJSON z t = CHR 0x22 # MarshalText z t @ [CHR 0x22]"

section \<open>Reading what was printed\<close>

abbreviation digit :: "nat \<Rightarrow> char" where "digit k \<equiv> chr (48 + k)"

lemma digit_simps [simp]: "k < 10 \<Longrightarrow> is_digit (digit k)" "k < 10 \<Longrightarrow> (of_char (digit k) :: int) = 48 + int k"
proof -
  assume k: "k < 10"
  then have n: "(of_char (digit k) :: nat) = 48 + k" by simp
  then show "is_digit (digit k)" using k by (simp only: is_digit_def) simp
  have "(of_char (digit k) :: int) = of_nat (of_char (digit k))" by (simp only: of_nat_of_char)
  then show "(of_char (digit k) :: int) = 48 + int k" unfolding n by simp
qed

lemma zero_digit: "CHR ''0'' = digit 0"
  by (rule sym) (simp add: char_of_eq_iff take_bit_eq_mod)

lemma nat_digits_small: "n < 10 \<Longrightarrow> nat_digits n = [digit n]"
  by (simp add: nat_digits.simps)

lemma padded_Suc: "0 < w \<Longrightarrow> padded (Suc w) n = padded w (n div 10) @ [digit (n mod 10)]"
proof (cases "n < 10")
  case True
  assume "0 < w"
  with True show ?thesis
    by (cases w) (simp_all add: padded_def nat_digits_small zero_digit replicate_append_same [symmetric])
next
  case False
  then show ?thesis by (simp add: padded_def nat_digits.simps [of n])
qed

lemma padded_one: "n < 10 \<Longrightarrow> padded (Suc 0) n = [digit n]"
  by (simp add: padded_def nat_digits_small)

lemma padded_two: "n < 100 \<Longrightarrow> padded 2 n = [digit (n div 10), digit (n mod 10)]"
  using padded_Suc [of "Suc 0" n] by (simp add: padded_one numeral_2_eq_2)

lemma padded_four:
  assumes "n < 10000"
  shows "padded 4 n = [digit (n div 1000), digit (n div 100 mod 10), digit (n div 10 mod 10), digit (n mod 10)]"
proof -
  have "padded 4 n = padded 2 (n div 10 div 10) @ [digit (n div 10 mod 10), digit (n mod 10)]"
  proof -
    have "padded 4 n = padded 3 (n div 10) @ [digit (n mod 10)]" using padded_Suc [of 3 n] by simp
    moreover have "padded 3 (n div 10) = padded 2 (n div 10 div 10) @ [digit (n div 10 mod 10)]"
      using padded_Suc [of 2 "n div 10"] by simp
    ultimately show ?thesis by simp
  qed
  moreover have "n div 10 div 10 = n div 100" "n div 100 div 10 = n div 1000" by (simp_all only: div_mult2_eq [symmetric]) simp_all
  moreover have "n div 100 < 100" using assms by (simp add: div_less_iff_less_mult)
  ultimately show ?thesis by (simp add: padded_two)
qed

lemma digits_two: "n < 100 \<Longrightarrow> digits_value 0 (padded 2 n) = int n \<and> list_all is_digit (padded 2 n)"
  by (auto simp: padded_two div_less_iff_less_mult) presburger

lemma digits_four:
  assumes "n < 10000" shows "digits_value 0 (padded 4 n) = int n \<and> list_all is_digit (padded 4 n) \<and> length (padded 4 n) = 4"
proof -
  have "1000 * (n div 1000) + 100 * (n div 100 mod 10) + 10 * (n div 10 mod 10) + n mod 10 = n"
  proof -
    have b: "n div 10 div 10 = n div 100" "n div 100 div 10 = n div 1000" by (simp_all only: div_mult2_eq [symmetric]) simp_all
    from mult_div_mod_eq [of 10 n] mult_div_mod_eq [of 10 "n div 10"] mult_div_mod_eq [of 10 "n div 100"]
    show ?thesis unfolding b by linarith
  qed
  from arg_cong [OF this, of int] have "1000 * int (n div 1000) + 100 * int (n div 100 mod 10) + 10 * int (n div 10 mod 10) + int (n mod 10) = int n"
    by (simp only: of_nat_add of_nat_mult of_nat_numeral)
  with assms show ?thesis by (simp add: padded_four div_less_iff_less_mult)
qed

lemma getnum_padded: "n < 100 \<Longrightarrow> getnum (padded 2 n @ s) fixed = Some (int n, s)"
  using digits_two [of n] by (simp add: padded_two getnum_def)

section \<open>The dates that are accepted\<close>

definition valid_fields :: "date_fields \<Rightarrow> bool" where
  "valid_fields f \<longleftrightarrow> 0 \<le> dfYear f \<and> dfYear f \<le> 9999 \<and> civil (dfYear f) (dfMonth f) (dfDay f)
     \<and> 0 \<le> dfHour f \<and> dfHour f \<le> 23 \<and> 0 \<le> dfMinute f \<and> dfMinute f \<le> 59"

lemma civil_day_bound: "civil y m d \<Longrightarrow> 1 \<le> m \<and> m \<le> 12 \<and> 1 \<le> d \<and> d \<le> 31"
  using month_lengths_nth [of "nat (m - 1)" y] by (auto simp: civil_def daysIn_def nat_less_iff)

lemma valid_fields_text:
  assumes "valid_fields f"
  shows "\<exists>y m d h mi. f = \<lparr>dfYear = int y, dfMonth = int m, dfDay = int d, dfHour = int h, dfMinute = int mi\<rparr>
    \<and> y < 10000 \<and> m < 100 \<and> d < 100 \<and> h < 100 \<and> mi < 100
    \<and> date_text f = padded 2 d @ CHR ''-'' # padded 2 m @ CHR ''-'' # padded 4 y @ CHR '' '' # padded 2 h @ CHR '':'' # padded 2 mi"
proof -
  note b = assms [unfolded valid_fields_def] civil_day_bound [of "dfYear f" "dfMonth f" "dfDay f"]
  have "f = \<lparr>dfYear = int (nat (dfYear f)), dfMonth = int (nat (dfMonth f)), dfDay = int (nat (dfDay f)),
             dfHour = int (nat (dfHour f)), dfMinute = int (nat (dfMinute f))\<rparr>"
    using b by simp
  moreover have "nat (dfYear f) < 10000" "nat (dfMonth f) < 100" "nat (dfDay f) < 100" "nat (dfHour f) < 100" "nat (dfMinute f) < 100"
    using b by linarith+
  moreover have "date_text f = padded 2 (nat (dfDay f)) @ CHR ''-'' # padded 2 (nat (dfMonth f)) @ CHR ''-'' #
      padded 4 (nat (dfYear f)) @ CHR '' '' # padded 2 (nat (dfHour f)) @ CHR '':'' # padded 2 (nat (dfMinute f))"
    using b by (simp add: date_text_def dateFormat_def appendInt_def)
  ultimately show ?thesis by blast
qed

lemma parse_num_padded: "n < 100 \<Longrightarrow> lo \<le> int n \<Longrightarrow> int n \<le> hi \<Longrightarrow> parse_num what (padded 2 n @ s) fixed lo hi = Inr (int n, s)"
  by (simp add: parse_num_def getnum_padded)

lemma digit_not_space: "is_digit ch \<Longrightarrow> \<not> ascii_space ch" "is_digit ch \<Longrightarrow> ch \<noteq> CHR '' ''" "is_digit ch \<Longrightarrow> byte ch < (128 :: nat)"
  by (auto simp: is_digit_def ascii_space_def)

lemma drop_space_padded: "n < 100 \<Longrightarrow> dropWhile (\<lambda>c. c = CHR '' '') (padded 2 n @ s) = padded 2 n @ s"
  using digits_two [of n] by (simp add: padded_two digit_not_space)

lemma parse_date_text:
  assumes "valid_fields f" shows "parse_layout dateFormat (date_text f) f0 = Inr f"
proof -
  obtain y m d h mi where f: "f = \<lparr>dfYear = int y, dfMonth = int m, dfDay = int d, dfHour = int h, dfMinute = int mi\<rparr>"
    "y < 10000" "m < 100" "d < 100" "h < 100" "mi < 100"
    "date_text f = padded 2 d @ CHR ''-'' # padded 2 m @ CHR ''-'' # padded 4 y @ CHR '' '' # padded 2 h @ CHR '':'' # padded 2 mi"
    using valid_fields_text [OF assms] by blast
  have v: "1 \<le> int m" "int m \<le> 12" "1 \<le> int d" "int d \<le> daysIn (int m) (int y)" "int h \<le> 23" "int mi \<le> 59"
    using assms f(1) by (auto simp: valid_fields_def civil_def)
  from digits_four [OF f(2)] have y: "length (padded 4 y) = 4" "list_all is_digit (padded 4 y)" "digits_value 0 (padded 4 y) = int y" by auto
  have mi: "parse_num ''minute'' (padded 2 mi) True 0 59 = Inr (int mi, [])"
    using parse_num_padded [of mi 0 59 "''minute''" "[]" True] f(6) v by simp
  have day: "int d \<noteq> 0" "\<not> daysIn (int m) (int y) < int d" using v by linarith+
  show ?thesis
    using f(2-6) v(1-6) y day
    by (simp add: f(7) dateFormat_def getnum_padded parse_num_padded drop_space_padded mi) (simp add: f(1))
qed

lemma TrimSpace_date_text:
  assumes "valid_fields f" shows "TrimSpace u (date_text f) = date_text f"
proof -
  obtain y m d h mi where f: "y < 10000" "m < 100" "d < 100" "h < 100" "mi < 100"
    "date_text f = padded 2 d @ CHR ''-'' # padded 2 m @ CHR ''-'' # padded 4 y @ CHR '' '' # padded 2 h @ CHR '':'' # padded 2 mi"
    using valid_fields_text [OF assms] by blast
  have two: "\<exists>a b. padded 2 n = [a, b] \<and> is_digit a \<and> is_digit b" if "n < 100" for n
    using digits_two [OF that] that by (simp add: padded_two)
  have four: "list_all is_digit (padded 4 y)" using digits_four [OF f(1)] by blast
  from two [OF f(2)] two [OF f(3)] two [OF f(4)] two [OF f(5)] four show ?thesis
    by (intro TrimSpace_id) (auto simp: f(6) ascii_def list_all_iff digit_not_space)
qed

lemma UnmarshalText_date_text: "valid_fields f \<Longrightarrow> UnmarshalText u z (date_text f) = Inr (time_Date z f)"
  by (simp add: UnmarshalText_def ParseInLocation_def TrimSpace_date_text parse_date_text)

lemma digit_value: "is_digit ch \<Longrightarrow> 0 \<le> (of_char ch - 48 :: int) \<and> (of_char ch - 48 :: int) \<le> 9"
proof -
  assume d: "is_digit ch"
  have "(of_char ch :: int) = of_nat (of_char ch)" by (simp only: of_nat_of_char)
  with d show ?thesis by (simp add: is_digit_def)
qed

lemma getnum_range: "getnum s fixed = Some (v, r) \<Longrightarrow> 0 \<le> v \<and> v \<le> 99"
  by (fastforce simp: getnum_def split: list.splits if_splits dest: digit_value)

lemma parse_num_range: "parse_num what s fixed lo hi = Inr (v, r) \<Longrightarrow> lo \<le> v \<and> v \<le> hi"
  by (auto simp: parse_num_def split: option.splits prod.splits if_splits)

lemma year_range:
  assumes "length s = 4" "list_all is_digit s"
  shows "0 \<le> digits_value 0 s \<and> digits_value 0 s \<le> 9999"
proof -
  obtain a b c d where s: "s = [a, b, c, d]"
    using assms(1) by (auto simp: numeral_eq_Suc length_Suc_conv)
  from assms(2) have "is_digit a" "is_digit b" "is_digit c" "is_digit d" by (simp_all add: s)
  from this [THEN digit_value] show ?thesis by (simp add: s)
qed

lemma year_range_take:
  "\<not> length s < 4 \<Longrightarrow> list_all is_digit (take 4 s) \<Longrightarrow> 0 \<le> digits_value 0 (take 4 s) \<and> digits_value 0 (take 4 s) \<le> 9999"
  by (rule year_range) simp_all

lemma parsed_date_valid:
  assumes "parse_layout dateFormat s f0 = Inr f" shows "valid_fields f"
  using assms
  by (auto simp: dateFormat_def valid_fields_def civil_def split: sum.splits option.splits prod.splits if_splits list.splits
      dest!: parse_num_range getnum_range dest: year_range year_range_take)

section \<open>Printing what was read\<close>

text \<open>
  The wall clock time is not near a change of the offset: it is in force at that time taken as UTC and at the instant itself.
\<close>

definition steady :: "location \<Rightarrow> date_fields \<Rightarrow> int \<Rightarrow> bool" where
  "steady z f off \<longleftrightarrow>
     (\<exists>start end_of. lcLookup z (wall_seconds f) = (off, start, end_of) \<and> lcLookup z (wall_seconds f - off) = (off, start, end_of)
        \<and> start \<le> wall_seconds f - off \<and> wall_seconds f - off < end_of)"

lemma fields_of_time_Date:
  assumes "steady z f off" "valid_fields f" shows "fields_of z (time_Date z f) = f"
proof -
  obtain start end_of where l: "lcLookup z (wall_seconds f) = (off, start, end_of)" "lcLookup z (wall_seconds f - off) = (off, start, end_of)"
    "start \<le> wall_seconds f - off" "wall_seconds f - off < end_of" using assms(1) by (auto simp: steady_def)
  let ?n = "days_of_civil (dfYear f) (dfMonth f) (dfDay f)"
  from assms(2) have v: "civil (dfYear f) (dfMonth f) (dfDay f)" "0 \<le> dfHour f" "dfHour f \<le> 23" "0 \<le> dfMinute f" "dfMinute f \<le> 59"
    by (auto simp: valid_fields_def)
  have "time_Date z f = (wall_seconds f - off) * 1000000000" using l by (simp add: time_Date_def)
  then have s: "time_Date z f div 1000000000 = wall_seconds f - off" by simp
  have "wall_seconds f = ?n * 86400 + (dfHour f * 3600 + dfMinute f * 60)" by (simp add: wall_seconds_def)
  then have day: "wall_seconds f div 86400 = ?n" and rest: "wall_seconds f mod 86400 = dfHour f * 3600 + dfMinute f * 60"
    using v by (simp_all add: div_pos_pos_trivial mod_pos_pos_trivial)
  have "wall_seconds f = (?n * 24 + dfHour f) * 3600 + dfMinute f * 60" by (simp add: wall_seconds_def algebra_simps)
  then have "wall_seconds f mod 3600 = dfMinute f * 60" using v by (simp only: mod_mult_self3) simp
  with day rest v show ?thesis
    by (simp add: fields_of_def Let_def s l(2) civil_of_days_of_civil [OF v(1)])
qed

text \<open>
  C30. A text that is accepted as a date denotes one, with a real day of the calendar, and the instant is the one the time zone gives it. The
  date written in full is accepted with the same result, also in quotes; and that is how the instant is printed, as text and as
  JSON, unless the time is near a change of the offset.
\<close>

theorem Date_text:
  assumes "UnmarshalText u z s = Inr t"
  shows "\<exists>f. valid_fields f \<and> t = time_Date z f
    \<and> UnmarshalText u z (date_text f) = Inr t \<and> UnmarshalJSON u z (CHR 0x22 # date_text f @ [CHR 0x22]) = Ret t
    \<and> (\<forall>off. steady z f off \<longrightarrow> MarshalText z t = date_text f \<and> MarshalJSON z t = CHR 0x22 # date_text f @ [CHR 0x22])"
proof -
  from assms obtain f where f: "parse_layout dateFormat (TrimSpace u s) no_fields = Inr f" and t: "t = time_Date z f"
    by (auto simp: UnmarshalText_def ParseInLocation_def split: sum.splits)
  from f have v: "valid_fields f" by (rule parsed_date_valid)
  have read_back: "UnmarshalText u z (date_text f) = Inr t" using UnmarshalText_date_text [OF v] t by simp
  then have "UnmarshalJSON u z (CHR 0x22 # date_text f @ [CHR 0x22]) = Ret t" by (simp add: UnmarshalJSON_def)
  moreover have "MarshalText z t = date_text f" if "steady z f off" for off
    using fields_of_time_Date [OF that v] by (simp add: MarshalText_def Date_String_def t)
  ultimately show ?thesis using v t read_back by (auto simp: MarshalJSON_def)
qed

text \<open>The time of Moscow since 2011, with the change of October 2014.\<close>

definition moscow :: location where
  "moscow = \<lparr>lcLookup = (\<lambda>s. if s < 1414274400 then (14400, 1301180400, 1414274400) else (10800, 1414274400, 2 ^ 62))\<rparr>"

definition latin :: unicode where
  "latin = \<lparr>ucIsLetter = (\<lambda>r. True), ucIsDigit = (\<lambda>r. False), ucIsSpace = (\<lambda>r. False), ucToTitle = (\<lambda>r. r), ucToLower = (\<lambda>r. r)\<rparr>"

lemma Date_text_witness:
  "\<exists>f. valid_fields f \<and> time_Date moscow f = 1614545940000000000 \<and> UnmarshalJSON latin moscow (CHR 0x22 # date_text f @ [CHR 0x22]) = Ret 1614545940000000000"
proof -
  have "TrimSpace latin '' 28-02-2021 23:59'' = ''28-02-2021 23:59''" by (simp add: TrimSpace_ascii ascii_space_def)
  moreover have "days_of_civil 2021 2 28 = 18686"
    by (simp add: days_of_civil_def days_before_year_def month_lengths_def epoch_days_def leap_def)
  ultimately have "UnmarshalText latin moscow '' 28-02-2021 23:59'' = Inr 1614545940000000000"
    by (simp add: UnmarshalText_def ParseInLocation_def dateFormat_def parse_num_def getnum_def is_digit_def daysIn_def month_lengths_def
        time_Date_def wall_seconds_def moscow_def)
  from Date_text [OF this] show ?thesis by metis
qed

end
