(* ===== verification/NmtClient.thy ===== *)
theory NmtClient
  imports WebServer
begin

text \<open>
  Package \<open>pkg/client/notmanytask\<close>, the client of the API, and the program \<open>cmd/cli\<close> on top of it. The HTTP library is a
  parameter: it maps a call to an error, or to what it has decoded into the result, whose fields stay empty unless the
  response has a status of success.
\<close>

section \<open>Calls\<close>

record api_call =
  acMethod :: http_method
  acPath :: string
  acToken :: string
  acQuery :: "(string \<times> string) list"
  acGroup :: string
  acBody :: "OverrideRequest option"

type_synonym transport = "api_call \<Rightarrow> gerror + Status \<times> payload"

record nmt_client =
  ncTransport :: transport
  ncToken :: string

text \<open>The base of the URLs, the timeout and the retries belong to the transport.\<close>

definition NewClient :: "(string \<Rightarrow> transport) \<Rightarrow> string \<Rightarrow> string \<Rightarrow> nmt_client outcome" where
  "NewClient resty endpoint token = Ret \<lparr>ncTransport = resty endpoint, ncToken = token\<rparr>"

text \<open>The standings are a pointer, nil when the result has none. \<open>dump\<close> prints the result for the error.\<close>

definition LoadStandings :: "(Status \<Rightarrow> payload \<Rightarrow> string) \<Rightarrow> nmt_client \<Rightarrow> string \<Rightarrow> Standings option outcome" where
  "LoadStandings dump c grp =
     (case ncTransport c \<lparr>acMethod = GET, acPath = ''/api/standings'', acToken = ncToken c, acQuery = [(''group'', grp)],
                          acGroup = [], acBody = None\<rparr> of
        Inl e \<Rightarrow> Fail (Wrap ''failed to fetch standings'' e)
      | Inr (st, p) \<Rightarrow>
          if \<not> asOk st
          then Fail (Errorf (''failed to fetch standings: '' @ asError st @ '' (res: '' @ dump st p @ '')''))
          else Ret (case p of StandingsPayload s \<Rightarrow> Some s | _ \<Rightarrow> None))"

definition LoadUsers :: "nmt_client \<Rightarrow> string \<Rightarrow> User list outcome" where
  "LoadUsers c grp =
     (case ncTransport c \<lparr>acMethod = GET, acPath = ''/api/group/{group}/members'', acToken = ncToken c, acQuery = [],
                          acGroup = grp, acBody = None\<rparr> of
        Inl e \<Rightarrow> Fail (Wrap ''failed to fetch group members'' e)
      | Inr (st, p) \<Rightarrow>
          if \<not> asOk st then Fail (Errorf (''failed to fetch group members: '' @ asError st))
          else Ret (case p of MembersPayload us \<Rightarrow> us | _ \<Rightarrow> []))"

definition override_call :: "nmt_client \<Rightarrow> string \<Rightarrow> string \<Rightarrow> string \<Rightarrow> goint \<Rightarrow> api_call" where
  "override_call c user task status score =
     \<lparr>acMethod = POST, acPath = ''/api/override'', acToken = ncToken c, acQuery = [], acGroup = [],
      acBody = Some \<lparr>orToken = ncToken c, orTask = task, orLogin = user, orScore = score, orStatus = status\<rparr>\<rparr>"

definition OverrideScore :: "nmt_client \<Rightarrow> string \<Rightarrow> string \<Rightarrow> string \<Rightarrow> goint \<Rightarrow> unit outcome" where
  "OverrideScore c user task status score =
     (case ncTransport c (override_call c user task status score) of
        Inl e \<Rightarrow> Fail e
      | Inr (st, p) \<Rightarrow>
          if \<not> asOk st then Fail (Errorf (''failed to override score: '' @ asError st)) else Ret ())"

text \<open>One entry for every successful task of the name: the three nested loops.\<close>

definition is_success :: "string \<Rightarrow> ScoredTask \<Rightarrow> bool" where
  "is_success taskname t \<longleftrightarrow> stTask t = taskname \<and> \<not> (stStatus t \<noteq> ''success'' \<or> stScore t \<le>s 0)"

definition LoadSuccessfulSubmits ::
  "(Status \<Rightarrow> payload \<Rightarrow> string) \<Rightarrow> nmt_client \<Rightarrow> string \<Rightarrow> string \<Rightarrow> ScoredUser list outcome" where
  "LoadSuccessfulSubmits dump c grp taskname =
     and_then (LoadStandings dump c grp) (\<lambda>res.
     case res of
       None \<Rightarrow> Panic ''nil pointer dereference''
     | Some st \<Rightarrow>
         Ret (concat (map (\<lambda>user. concat (map (\<lambda>grp. map (\<lambda>task. uscUser user) (filter (is_success taskname) (sgrTasks grp)))
           (uscGroups user))) (sdUsers st))))"

section \<open>The command line\<close>

definition cli_endpoint :: string where "cli_endpoint = ''https://cpp-hse.net''"

definition overrideScores ::
  "(string \<Rightarrow> transport) \<Rightarrow> string \<Rightarrow> string \<Rightarrow> string \<Rightarrow> string \<Rightarrow> goint \<Rightarrow> unit outcome" where
  "overrideScores resty token task user status score =
     and_then (NewClient resty cli_endpoint token) (\<lambda>nmt. OverrideScore nmt user task status score)"

definition dumpSuccessfulSubmits ::
  "(Status \<Rightarrow> payload \<Rightarrow> string) \<Rightarrow> (string \<Rightarrow> transport) \<Rightarrow> string \<Rightarrow> string \<Rightarrow> string \<Rightarrow> string outcome" where
  "dumpSuccessfulSubmits dump resty token grp task =
     and_then (NewClient resty cli_endpoint token) (\<lambda>nmt.
     and_then (LoadSuccessfulSubmits dump nmt grp task) (\<lambda>users.
     Ret (concat (map (\<lambda>u. suGitlabLogin u @ [CHR 0x0A]) users))))"

text \<open>One student has the names the wrong way round.\<close>

definition username :: "ScoredUser \<Rightarrow> string" where
  "username user =
     (let (first, last) = (suFirstName user, suLastName user);
          (first, last) = (if suGitlabLogin user = ''denisrtyhb'' then (last, first) else (first, last))
      in last @ '' '' @ first)"

text \<open>The verb \<open>%.3f\<close>: the exact value rounded to three decimals, half to even.\<close>

definition three_decimals :: "f64 \<Rightarrow> string" where
  "three_decimals x =
     (case x of
        NaN \<Rightarrow> ''NaN''
      | Inf neg \<Rightarrow> if neg then ''-Inf'' else ''+Inf''
      | Fin r \<Rightarrow>
          (let n = nat (round_even (\<bar>r\<bar> * 1000));
               ds = nat_digits (n mod 1000)
           in (if r < 0 then ''-'' else []) @ nat_digits (n div 1000) @ ''.'' @ replicate (3 - length ds) (CHR ''0'') @ ds))"

definition dumpStandings ::
  "sort_slice \<Rightarrow> (Status \<Rightarrow> payload \<Rightarrow> string) \<Rightarrow> (string \<Rightarrow> transport) \<Rightarrow> string \<Rightarrow> string \<Rightarrow> string outcome" where
  "dumpStandings sort_by dump resty token grp =
     and_then (NewClient resty cli_endpoint token) (\<lambda>nmt.
     and_then (LoadStandings dump nmt grp) (\<lambda>res.
     case res of
       None \<Rightarrow> Panic ''nil pointer dereference''
     | Some st \<Rightarrow>
         Ret (concat (map (\<lambda>u. username (uscUser u) @ CHR 0x09 # three_decimals (uscFinalMark u) @ [CHR 0x0A])
           (sort_by (\<lambda>a b. string_less (username (uscUser a)) (username (uscUser b))) (sdUsers st))))))"

end
