(* ===== verification/Fuzz.thy ===== *)
theory Fuzz
  imports NmtClient
begin

text \<open>
  Program \<open>cmd/fuzz\<close>: it downloads the successful submissions of a task, builds them and runs a fuzzer on each. The shell, the
  file system, the API client's transport and Telegram's library are parameters.
\<close>

section \<open>Commands\<close>

record Args =
  fzNoCache :: bool
  fzGitlabGroup :: string
  fzEndpoint :: string
  fzTaskName :: string
  fzMainRepo :: string
  fzTaskTarget :: string
  fzCorpus :: string
  fzTimeout :: duration
  fzJobs :: goint

text \<open>
  What a command printed to its two outputs, and its error. Every command line is run at most once, so the shell is a function of
  the directory, if one is set, and the line.
\<close>

record command_result =
  crOutput :: string
  crErrors :: string
  crError :: "gerror option"

type_synonym shell = "string option \<Rightarrow> string \<Rightarrow> command_result"

text \<open>Both outputs are connected to the buffer of the errors, so the result is the buffer that stays empty.\<close>

definition Run_command :: "shell \<Rightarrow> string option \<Rightarrow> string \<Rightarrow> string outcome" where
  "Run_command sh dir line =
     (let r = sh dir line;
          (stdout, stderr) = ([], crErrors r @ crOutput r)
      in case crError r of Some e \<Rightarrow> Fail e | None \<Rightarrow> Ret stdout)"

text \<open>The value, or a panic on the error.\<close>

definition fuzz_unwrap :: "'a outcome \<Rightarrow> 'a outcome" where
  "fuzz_unwrap r = (case r of Fail e \<Rightarrow> Panic (error_text e) | _ \<Rightarrow> r)"

definition MustRun :: "shell \<Rightarrow> string option \<Rightarrow> string \<Rightarrow> string outcome" where
  "MustRun sh dir line =
     fuzz_unwrap (Run_command sh dir line)"

section \<open>Downloading\<close>

text \<open>Removing the old copy is not checked.\<close>

definition clone_line :: "string \<Rightarrow> string \<Rightarrow> string \<Rightarrow> string" where
  "clone_line url branch out = ''git clone '' @ url @ '' --branch='' @ branch @ '' '' @ out"

definition fetch_repo :: "shell \<Rightarrow> string \<Rightarrow> string \<Rightarrow> string \<Rightarrow> unit outcome" where
  "fetch_repo sh url branch out = and_then (Run_command sh None (clone_line url branch out)) (\<lambda>s. Ret ())"

datatype stat_result = Found | NotFound | Unknown gerror

definition Exists :: "(string \<Rightarrow> stat_result) \<Rightarrow> string \<Rightarrow> bool \<times> gerror option" where
  "Exists stat path =
     (case stat path of Found \<Rightarrow> (True, None) | NotFound \<Rightarrow> (False, None) | Unknown e \<Rightarrow> (False, Some e))"

definition submit_dir :: "string \<Rightarrow> string \<Rightarrow> string \<Rightarrow> string" where
  "submit_dir dest project task = dest @ ''/'' @ project @ ''/'' @ task"

definition FetchSubmit ::
  "shell \<Rightarrow> (string \<Rightarrow> stat_result) \<Rightarrow> string \<Rightarrow> string \<Rightarrow> string \<Rightarrow> string \<Rightarrow> bool \<Rightarrow> unit outcome" where
  "FetchSubmit sh stat grp project task dest nocache =
     (let out = submit_dir dest project task;
          (present, err) = Exists stat out
      in if \<not> nocache \<and> present \<and> err = None then Ret ()
         else fetch_repo sh (''git@gitlab.com:'' @ grp @ ''/'' @ project @ ''.git'') (''submits/'' @ task) out)"

text \<open>
  \<open>errgroup.Wait\<close> on the outcomes of all goroutines: a panic kills the program, otherwise one of the errors, whichever
  came first, is returned.
\<close>

fun is_panic :: "'a outcome \<Rightarrow> bool" where
  "is_panic (Panic m) = True"
| "is_panic _ = False"

definition group_wait :: "(gerror list \<Rightarrow> gerror) \<Rightarrow> unit outcome list \<Rightarrow> unit outcome" where
  "group_wait first_error jobs =
     (case find is_panic jobs of
        Some p \<Rightarrow> p
      | None \<Rightarrow>
          (case concat (map (\<lambda>j. case j of Fail e \<Rightarrow> [e] | _ \<Rightarrow> []) jobs) of
             [] \<Rightarrow> Ret ()
           | es \<Rightarrow> Fail (first_error es)))"

text \<open>Members by login, the last one of a login; then a job for every successful task of the name, in the order of the scoreboard.\<close>

definition users_by_login :: "User list \<Rightarrow> string \<rightharpoonup> User" where
  "users_by_login us = foldl (\<lambda>m u. case usGitlabLogin u of None \<Rightarrow> m | Some l \<Rightarrow> m(l \<mapsto> u)) Map.empty us"

definition successful_submits :: "string \<Rightarrow> Standings \<Rightarrow> (ScoredUser \<times> string) list" where
  "successful_submits taskname st =
     concat (map (\<lambda>user. concat (map (\<lambda>grp. map (\<lambda>task. (uscUser user, stTask task)) (filter (is_success taskname) (sgrTasks grp)))
       (uscGroups user))) (sdUsers st))"

text \<open>
  The environment: the client, the shell, the files that exist, which error of a group is the first, absolute paths, the
  creation of log files, the library's escaping for Telegram, Go's formatting of a format without operands, how a panic is
  printed, and for each solution how long the fuzzer ran and how many others still ran then.
\<close>

record fuzz_env =
  fvClient :: nmt_client
  fvDump :: "Status \<Rightarrow> payload \<Rightarrow> string"
  fvShell :: shell
  fvStat :: "string \<Rightarrow> stat_result"
  fvFirst :: "gerror list \<Rightarrow> gerror"
  fvAbs :: "string \<Rightarrow> string outcome"
  fvCreate :: "string \<Rightarrow> gerror option"
  fvEscape :: "string \<Rightarrow> string"
  fvFormat :: "string \<Rightarrow> string"
  fvPanic :: "string \<Rightarrow> string"
  fvDelta :: "string \<Rightarrow> string"
  fvRunning :: "string \<Rightarrow> int"

text \<open>
  The directories of the submissions, each with its student, if the group has the login. The scoreboard is asked for with
  the endpoint in place of the group.
\<close>

definition FetchSubmits :: "fuzz_env \<Rightarrow> Args \<Rightarrow> (string \<rightharpoonup> User option) outcome" where
  "FetchSubmits fv args =
     and_then (LoadUsers (fvClient fv) ''hse'') (\<lambda>users.
     and_then (LoadStandings (fvDump fv) (fvClient fv) (fzEndpoint args)) (\<lambda>standings.
     case standings of
       None \<Rightarrow> Panic ''nil pointer dereference''
     | Some st \<Rightarrow>
         (let submits = successful_submits (fzTaskName args) st;
              res = foldl (\<lambda>m (u, name). m(submit_dir ''solutions'' (suGitlabProject u) name \<mapsto> users_by_login users (suGitlabLogin u)))
                      Map.empty submits
          in and_then (group_wait (fvFirst fv)
                 (map (\<lambda>(u, name). FetchSubmit (fvShell fv) (fvStat fv) (fzGitlabGroup args) (suGitlabProject u) name ''solutions''
                    (fzNoCache args)) submits))
               (\<lambda>_. Ret res))))"

section \<open>Building\<close>

record solutionInfo =
  siBinary :: string
  siUser :: "User option"

definition build_commands :: "Args \<Rightarrow> string \<Rightarrow> (string option \<times> string) list" where
  "build_commands args solution =
     (let build = ''build/'' @ solution;
          bin = ''bins/'' @ solution @ ''/'' @ fzTaskTarget args
      in [(None, ''mkdir -p '' @ build),
          (None, ''rsync -a repo/ '' @ build),
          (None, ''rsync -a '' @ solution @ ''/ '' @ build @ ''/tasks''),
          (Some build, ''rm -rf build''),
          (Some build, ''cmake -B build -DCMAKE_BUILD_TYPE=ASAN''),
          (Some build, ''cmake --build build --target '' @ fzTaskTarget args @ '' --parallel 4''),
          (None, ''mkdir -p bins/'' @ solution),
          (None, ''cp '' @ build @ ''/build/'' @ fzTaskTarget args @ '' '' @ bin)])"

fun must_run_all :: "shell \<Rightarrow> (string option \<times> string) list \<Rightarrow> unit outcome" where
  "must_run_all sh [] = Ret ()"
| "must_run_all sh ((dir, line) # cs) = and_then (MustRun sh dir line) (\<lambda>s. must_run_all sh cs)"

text \<open>\<open>order\<close> is the order in which Go ranges over the map.\<close>

definition BuildSubmits :: "fuzz_env \<Rightarrow> string list \<Rightarrow> Args \<Rightarrow> (string \<rightharpoonup> solutionInfo) outcome" where
  "BuildSubmits fv order args =
     and_then (FetchSubmits fv args) (\<lambda>solutions.
     and_then (fetch_repo (fvShell fv) ''git@gitlab.com:danlark/cpp-advanced-hse.git'' ''main'' ''repo'') (\<lambda>_.
     and_then (group_wait (fvFirst fv) (map (\<lambda>s. must_run_all (fvShell fv) (build_commands args s)) (filter (\<lambda>s. solutions s \<noteq> None) order))) (\<lambda>_.
     Ret (\<lambda>s. map_option (\<lambda>u. \<lparr>siBinary = ''bins/'' @ s @ ''/'' @ fzTaskTarget args, siUser = u\<rparr>) (solutions s)))))"

section \<open>Messages\<close>

text \<open>
  File \<open>bot.go\<close>. The bot is none without a token, and a message on no bot does nothing. A text is formatted, escaped, and then
  taken as a format again. The result of sending is not used.
\<close>

definition fuzz_NewBot :: "string \<Rightarrow> (string \<Rightarrow> gerror option) \<Rightarrow> bool outcome" where
  "fuzz_NewBot token connect =
     (if token = [] then Ret False else case connect token of None \<Rightarrow> Ret True | Some e \<Rightarrow> Fail e)"

record tg_message =
  tmChat :: int
  tmText :: string

definition NewMessage :: "bool \<Rightarrow> int \<Rightarrow> tg_message option" where
  "NewMessage exists chat = (if exists then Some \<lparr>tmChat = chat, tmText = []\<rparr> else None)"

definition Raw :: "fuzz_env \<Rightarrow> string \<Rightarrow> tg_message option \<Rightarrow> tg_message option" where
  "Raw fv s b = map_option (\<lambda>m. m\<lparr>tmText := tmText m @ fvFormat fv s\<rparr>) b"

definition Escaped :: "fuzz_env \<Rightarrow> string \<Rightarrow> tg_message option \<Rightarrow> tg_message option" where
  "Escaped fv s b = Raw fv (fvEscape fv s) b"

definition Send :: "tg_message option \<Rightarrow> tg_message list" where
  "Send b = (case b of None \<Rightarrow> [] | Some m \<Rightarrow> [m])"

definition BIGREDEYE :: int where "BIGREDEYE = 170494590"

definition announce :: "fuzz_env \<Rightarrow> bool \<Rightarrow> string \<Rightarrow> tg_message list" where
  "announce fv tb s = Send (Escaped fv s (NewMessage tb BIGREDEYE))"

section \<open>Fuzzing\<close>

definition fuzz_line :: "Args \<Rightarrow> string \<Rightarrow> string \<Rightarrow> string" where
  "fuzz_line args binary corpus =
     binary @ '' '' @ corpus @ '' -fork='' @ Itoa (sint (fzJobs args)) @ '' -timeout=600 -max_total_time=''
       @ Itoa (sint (int_of_f64 (Seconds (fzTimeout args)))) @ '' -reload=1''"

text \<open>The file of an output is created when the option is made, before the command runs.\<close>

definition WithOutput :: "fuzz_env \<Rightarrow> string \<Rightarrow> unit outcome" where
  "WithOutput fv file = (case fvCreate fv file of Some e \<Rightarrow> Panic (error_text e) | None \<Rightarrow> Ret ())"

text \<open>The link to the user, and the message about a solution: a cross or a check mark, in UTF-8.\<close>

definition user_link :: "User \<Rightarrow> int \<Rightarrow> string" where
  "user_link user telegram =
     ''['' @ usFirstName user @ '' '' @ usLastName user @ ''](tg://user?id='' @ Itoa telegram @ '')''"

definition verdict :: "fuzz_env \<Rightarrow> bool \<Rightarrow> Args \<Rightarrow> nat \<Rightarrow> string \<Rightarrow> string \<Rightarrow> string \<Rightarrow> bool \<Rightarrow> tg_message list" where
  "verdict fv tb args n solution lname link passed =
     Send (Escaped fv ((if passed then '') passed in '' else '') failed in '') @ fvDelta fv solution @ '', running ''
             @ Itoa (fvRunning fv solution) @ ''/'' @ Itoa (int n))
       (Raw fv link
         (Escaped fv (map chr (if passed then [0xE2, 0x9C, 0x85] else [0xE2, 0x9D, 0x8C])
             @ '' Solution of task '' @ fzTaskName args @ '' from user '' @ lname @ '' ('')
           (NewMessage tb BIGREDEYE))))"

text \<open>
  The goroutine of a solution: whether the fuzzer has ended well, and the message. Both messages dereference the user
  and the login of the solution, and the link to the user the Telegram account.
\<close>

definition fuzz_worker :: "fuzz_env \<Rightarrow> bool \<Rightarrow> Args \<Rightarrow> nat \<Rightarrow> string \<Rightarrow> solutionInfo \<Rightarrow> (bool \<times> tg_message list) outcome" where
  "fuzz_worker fv tb args n solution info =
     and_then (fuzz_unwrap (fvAbs fv (siBinary info))) (\<lambda>binary.
     and_then (fuzz_unwrap (fvAbs fv (fzCorpus args))) (\<lambda>corpus.
     and_then (WithOutput fv (''logs/'' @ solution @ ''.err'')) (\<lambda>_.
     and_then (WithOutput fv (''logs/'' @ solution @ ''.out'')) (\<lambda>_.
     let passed = (crError (fvShell fv (Some (''fuzzcwd/'' @ solution)) (fuzz_line args binary corpus)) = None) in
     case siUser info of
       None \<Rightarrow> Panic ''nil pointer dereference''
     | Some user \<Rightarrow>
         (case (usTelegramID user, usGitlabLogin user) of
            (Some telegram, Some lname) \<Rightarrow> Ret (passed, verdict fv tb args n solution lname (user_link user telegram) passed)
          | _ \<Rightarrow> Panic ''nil pointer dereference'')))))"

text \<open>The goroutines of all solutions, in the order in which they end: for every solution whether it has passed, and the message.\<close>

definition fuzz_all ::
  "fuzz_env \<Rightarrow> bool \<Rightarrow> string list \<Rightarrow> Args \<Rightarrow> (string \<rightharpoonup> solutionInfo) \<Rightarrow> (string \<times> bool \<times> tg_message list) list outcome" where
  "fuzz_all fv tb order args bins =
     (let solutions = filter (\<lambda>s. bins s \<noteq> None) order in
      map_outcome (\<lambda>s. and_then (fuzz_worker fv tb args (length solutions) s (the (bins s))) (\<lambda>r. Ret (s, r))) solutions)"

text \<open>
  The messages that were sent, and the summary. A panic while the submissions are fetched is recovered, and the function
  returns no error then; a panic in one of the goroutines ends the program, and which of their messages were sent
  before is left open.
\<close>

definition RunFuzzing :: "fuzz_env \<Rightarrow> string list \<Rightarrow> bool outcome \<Rightarrow> Args \<Rightarrow> tg_message list \<times> (string \<times> bool) list outcome" where
  "RunFuzzing fv order tg_bot args =
     (case tg_bot of
        Fail e \<Rightarrow> ([], Fail e)
      | Panic m \<Rightarrow> ([], Panic m)
      | Ret tb \<Rightarrow>
          (let building = announce fv tb (''Building submits for task '' @ fzTaskName args @ '': '');
               ended = (\<lambda>s. announce fv tb (''Fuzzer for task '' @ fzTaskName args @ s))
           in case FetchSubmits fv args of
                Panic m \<Rightarrow> (building @ ended ('' panicked: '' @ fvPanic fv m), Ret [])
              | _ \<Rightarrow>
                  (case BuildSubmits fv order args of
                     Fail e \<Rightarrow> (building @ ended ('' failed: '' @ error_text e), Fail e)
                   | Panic m \<Rightarrow> (building, Panic m)
                   | Ret bins \<Rightarrow>
                       (let started = announce fv tb (''Start fuzzing task '' @ fzTaskName args @ '' (''
                              @ Itoa (int (length (filter (\<lambda>s. bins s \<noteq> None) order))) @ '' submits)'')
                        in case fuzz_all fv tb order args bins of
                             Ret rs \<Rightarrow> (building @ started @ concat (map (snd \<circ> snd) rs) @ ended '' finished'', Ret (map (\<lambda>(s, passed, _). (s, passed)) rs))
                           | Fail e \<Rightarrow> (building @ started @ ended ('' failed: '' @ error_text e), Fail e)
                           | Panic m \<Rightarrow> (building @ started, Panic m)))))"

end
