(* ===== verification/NmtClientSpec.thy ===== *)
theory NmtClientSpec
  imports NmtClient WebAccess DatabaseFrame WebSample
begin

text \<open>
  The client and the server together: what it means for the user of the command line that an override succeeded or failed.
\<close>

section \<open>A call and its request\<close>

text \<open>
  The server has answered the call. The HTTP library decodes a body only for a status from 200 to 299: otherwise the result
  keeps its empty fields.
\<close>

definition decoded :: "response \<Rightarrow> Status \<times> payload" where
  "decoded resp =
     (case resp of
        JSON code st p \<Rightarrow> if 200 \<le> code \<and> code < 300 then (st, p) else (\<lparr>asOk = False, asError = []\<rparr>, NoPayload)
      | _ \<Rightarrow> (\<lparr>asOk = False, asError = []\<rparr>, NoPayload))"

definition answered_call :: "web_server \<Rightarrow> conn \<Rightarrow> transport \<Rightarrow> api_call \<Rightarrow> web \<Rightarrow> web \<Rightarrow> bool" where
  "answered_call srv cn tr call w w' \<longleftrightarrow>
     (\<exists>rq ck resp. rqToken rq = acToken call \<and> (\<forall>body. acBody call = Some body \<longrightarrow> rqOverride rq = Inr body)
        \<and> serve srv (acMethod call, acPath call) cn rq w = (w', ck, resp) \<and> tr call = Inr (decoded resp))"

text \<open>The endpoint is where the client expects it, and no other route of the configuration is.\<close>

definition override_route :: "web_server \<Rightarrow> bool" where
  "override_route srv \<longleftrightarrow>
     map_of (routes srv) (POST, ''/api/override'') = Some (\<lambda>cn rq. validateToken srv rq (override srv cn rq))"

text \<open>What the server does for an override that it accepts.\<close>

definition override_accepted :: "web_server \<Rightarrow> conn \<Rightarrow> string \<Rightarrow> OverrideRequest \<Rightarrow> web \<Rightarrow> web \<Rightarrow> bool" where
  "override_accepted srv cn token req w w' \<longleftrightarrow>
     isTokenValid srv token \<and> knows_task srv (orTask req)
     \<and> (\<exists>user. FindUserByGitlabLogin (cnDriver cn) (orLogin req) (wbDB w) = Ret user)
     \<and> (\<exists>db. AddOverride (cnDriver cn) (orLogin req) (orTask req) (orScore req) (orStatus req) (wbDB w) = (db, Ret ())
          \<and> w' = w\<lparr>wbDB := db\<rparr>)"

lemma AddOverride_Fail: "AddOverride d l t s st db = (db', Fail e) \<Longrightarrow> db' = db"
  and AddOverride_Panic: "AddOverride d l t s st db \<noteq> (db', Panic m)"
  by (auto simp: AddOverride_def split: sum.splits prod.splits)

lemma FindUserByGitlabLogin_Panic: "FindUserByGitlabLogin d l db \<noteq> Panic m"
  by (cases "sqFirst (drUsers d) (\<lambda>r. usGitlabLogin r = Some l \<and> live r) (dbUsers db)") (simp_all add: FindUserByGitlabLogin_def)

lemma override_result:
  assumes "rqOverride rq = Inr req" "validateToken srv rq (override srv cn rq) w = (w', Ret (ck, resp))"
  shows "(override_accepted srv cn (rqToken rq) req w w' \<and> decoded resp = (\<lparr>asOk = True, asError = []\<rparr>, NoPayload))
    \<or> (w' = w \<and> decoded resp = (\<lparr>asOk = False, asError = []\<rparr>, NoPayload))"
  using assms
  by (auto simp: validateToken_def override_def override_accepted_def decoded_def onError_def onOk_def knows_task_def
      split: if_splits outcome.splits prod.splits dest: AddOverride_Fail)

lemma override_no_panic:
  "rqOverride rq = Inr req \<Longrightarrow> validateToken srv rq (override srv cn rq) w = (w', res) \<Longrightarrow> \<exists>ck resp. res = Ret (ck, resp)"
  by (auto simp: validateToken_def override_def onError_def onOk_def FindUserByGitlabLogin_Panic AddOverride_Panic
      split: if_splits outcome.splits prod.splits)

text \<open>
  The client tells the truth about an override: it reports success exactly if the server has stored the override, for a
  linked student and a task of the course and with a valid token; otherwise nothing has changed. But all it can say of a
  failure is that it failed: the reason, which the server sends, is never shown.
\<close>

theorem override_end_to_end:
  assumes "override_route srv" "call = override_call c user task status score" "answered_call srv cn (ncTransport c) call w w'"
  shows "case OverrideScore c user task status score of
      Ret _ \<Rightarrow> override_accepted srv cn (ncToken c)
        \<lparr>orToken = ncToken c, orTask = task, orLogin = user, orScore = score, orStatus = status\<rparr> w w'
    | Fail e \<Rightarrow> w' = w \<and> e = Errorf ''failed to override score: ''
    | Panic m \<Rightarrow> False"
proof -
  let ?req = "\<lparr>orToken = ncToken c, orTask = task, orLogin = user, orScore = score, orStatus = status\<rparr>"
  from assms(2,3) obtain rq ck resp where rq: "rqToken rq = ncToken c" "rqOverride rq = Inr ?req"
    and s: "serve srv (POST, ''/api/override'') cn rq w = (w', ck, resp)" and tr: "ncTransport c call = Inr (decoded resp)"
    by (auto simp: answered_call_def override_call_def)
  obtain w1 res where h: "validateToken srv rq (override srv cn rq) w = (w1, res)" by fastforce
  obtain ck1 resp1 where res: "res = Ret (ck1, resp1)" using override_no_panic [OF rq(2) h] by blast
  with s h assms(1) have "w1 = w'" "resp1 = resp" by (simp_all add: serve_def override_route_def)
  with override_result [OF rq(2) h [unfolded res]] rq(1) tr assms(2) show ?thesis
    by (auto simp: OverrideScore_def)
qed

section \<open>Witness\<close>

definition cli_request :: OverrideRequest where
  "cli_request = \<lparr>orToken = ''tt'', orTask = ''a'', orLogin = ''ab'', orScore = 5, orStatus = ''success''\<rparr>"

definition overridden_db :: DB where
  "overridden_db =
     course_db\<lparr>dbOverrides := [\<lparr>mID = 1, mDeletedAt = None, ovGitlabLogin = ''ab'', ovTask = ''a'', ovScore = 5, ovStatus = ''success''\<rparr>]\<rparr>"

definition cli_client :: nmt_client where
  "cli_client = \<lparr>ncTransport = (\<lambda>call. Inr (\<lparr>asOk = True, asError = []\<rparr>, NoPayload)), ncToken = ''tt''\<rparr>"

lemma course_override_route: "override_route course_server"
  unfolding override_route_def
  by (simp add: routes_def setupLoginService_def setupApiService_def Let_def course_server_def course_config_def course_endpoints_def)

lemma course_serve_override:
  "serve course_server (POST, ''/api/override'') (course_conn ''1f'') (blank_request\<lparr>rqToken := ''tt'', rqOverride := Inr cli_request\<rparr>)
     (newServer course_db) = (newServer overridden_db, None, JSON 200 \<lparr>asOk = True, asError = []\<rparr> NoPayload)"
proof -
  have "isTokenValid course_server ''tt''" by (simp add: isTokenValid_def course_server_def course_config_def)
  moreover have "FindUserByGitlabLogin mem_driver ''ab'' course_db = Ret course_student"
    by (simp add: FindUserByGitlabLogin_def course_db_def course_student_def mem_eval)
  moreover have "AddOverride mem_driver ''ab'' ''a'' 5 ''success'' course_db = (overridden_db, Ret ())"
    by (simp add: AddOverride_def course_db_def overridden_db_def mem_eval)
  ultimately show ?thesis
    using course_override_route course_knows_a
    by (simp add: serve_def override_route_def validateToken_def override_def cli_request_def course_conn_def newServer_def onOk_def)
qed

lemma override_end_to_end_witness:
  "override_accepted course_server (course_conn ''1f'') ''tt'' cli_request (newServer course_db) (newServer overridden_db)"
proof -
  have "answered_call course_server (course_conn ''1f'') (ncTransport cli_client) (override_call cli_client ''ab'' ''a'' ''success'' 5)
      (newServer course_db) (newServer overridden_db)"
    unfolding answered_call_def
    by (intro exI [of _ "blank_request\<lparr>rqToken := ''tt'', rqOverride := Inr cli_request\<rparr>"] exI conjI allI impI,
        insert course_serve_override)
      (auto simp: override_call_def cli_client_def cli_request_def decoded_def)
  from override_end_to_end [OF course_override_route refl this] show ?thesis
    by (simp add: OverrideScore_def cli_client_def cli_request_def)
qed

end
