(* ===== verification/FuzzSpec.thy ===== *)
theory FuzzSpec
  imports Fuzz NmtClientSpec
begin

text \<open>
  What a run of the fuzzing driver that ends says about the submissions of the task.
\<close>

section \<open>Maps built by the loops\<close>

text \<open>Updates in a loop: a lookup sees the last one.\<close>

lemma foldl_updates: "foldl (\<lambda>m x. m(f x \<mapsto> g x)) m xs = m ++ map_of (rev (map (\<lambda>x. (f x, g x)) xs))"
  by (induction xs arbitrary: m) (simp_all add: map_add_def fun_eq_iff split: option.split)

lemma foldl_updates_dom: "dom (foldl (\<lambda>m x. m(f x \<mapsto> g x)) Map.empty xs) = f ` set xs"
  by (simp add: foldl_updates dom_map_of_conv_image_fst image_image)

lemma foldl_updates_Some:
  assumes "foldl (\<lambda>m x. m(f x \<mapsto> g x)) Map.empty xs k = Some v" shows "\<exists>x \<in> set xs. f x = k \<and> g x = v"
proof -
  from assms have "map_of (rev (map (\<lambda>x. (f x, g x)) xs)) k = Some v" by (simp add: foldl_updates)
  from map_of_SomeD [OF this] show ?thesis by auto
qed

lemma users_by_login_Some:
  assumes "users_by_login us l = Some u" shows "u \<in> set us \<and> usGitlabLogin u = Some l"
proof -
  let ?add = "\<lambda>m u. case usGitlabLogin u of None \<Rightarrow> m | Some l \<Rightarrow> m(l \<mapsto> u)"
  have "foldl ?add m us l = Some u \<Longrightarrow> m l = Some u \<or> u \<in> set us \<and> usGitlabLogin u = Some l" for m
  proof (induction us arbitrary: m)
    case (Cons a us)
    from Cons.IH [of "?add m a"] Cons.prems show ?case by (auto split: option.splits if_splits)
  qed simp
  with assms show ?thesis by (auto simp: users_by_login_def)
qed

section \<open>Outcomes of the steps\<close>

lemma group_wait_Ret: "group_wait first_error jobs = Ret () \<longleftrightarrow> (\<forall>j \<in> set jobs. j = Ret ())"
proof (cases "find is_panic jobs")
  case None
  then have np: "\<forall>j \<in> set jobs. \<not> is_panic j" by (simp add: find_None_iff)
  let ?errors = "concat (map (\<lambda>j. case j of Fail e \<Rightarrow> [e] | _ \<Rightarrow> []) jobs)"
  have e: "?errors = [] \<longleftrightarrow> (\<forall>j \<in> set jobs. j = Ret ())"
    using np by (auto split: outcome.splits) (metis is_panic.simps(1) outcome.exhaust old.unit.exhaust)
  have split: "(case es of [] \<Rightarrow> Ret () | x # xs \<Rightarrow> Fail (first_error (x # xs))) = Ret () \<longleftrightarrow> es = []" for es :: "gerror list"
    by (cases es) simp_all
  have "group_wait first_error jobs = Ret () \<longleftrightarrow> ?errors = []"
    unfolding group_wait_def None option.case by (rule split)
  with e show ?thesis by blast
next
  case (Some p)
  then have "p \<in> set jobs" "is_panic p" by (auto simp: find_Some_iff)
  obtain m where "p = Panic m" using \<open>is_panic p\<close> by (cases p) auto
  with Some \<open>p \<in> set jobs\<close> show ?thesis by (auto simp: group_wait_def)
qed

text \<open>The output of a command is never returned.\<close>

lemma Run_command_Ret: "Run_command sh dir line = Ret s \<longleftrightarrow> s = [] \<and> crError (sh dir line) = None"
  by (auto simp: Run_command_def Let_def split: option.split)

lemma MustRun_Ret: "MustRun sh dir line = Ret s \<longleftrightarrow> s = [] \<and> crError (sh dir line) = None"
  by (cases "crError (sh dir line)") (auto simp: MustRun_def fuzz_unwrap_def Run_command_def Let_def)

lemma must_run_all_Ret: "must_run_all sh cs = Ret () \<longleftrightarrow> (\<forall>(dir, line) \<in> set cs. crError (sh dir line) = None)"
  by (induction cs) (auto simp: MustRun_Ret)

text \<open>A submission is there: it was kept from an earlier run, or it has been cloned.\<close>

definition downloaded :: "fuzz_env \<Rightarrow> Args \<Rightarrow> ScoredUser \<Rightarrow> string \<Rightarrow> bool" where
  "downloaded fv args u name \<longleftrightarrow>
     (\<not> fzNoCache args \<and> fvStat fv (submit_dir ''solutions'' (suGitlabProject u) name) = Found)
     \<or> crError (fvShell fv None (clone_line (''git@gitlab.com:'' @ fzGitlabGroup args @ ''/'' @ suGitlabProject u @ ''.git'')
          (''submits/'' @ name) (submit_dir ''solutions'' (suGitlabProject u) name))) = None"

lemma FetchSubmit_Ret:
  "FetchSubmit (fvShell fv) (fvStat fv) (fzGitlabGroup args) (suGitlabProject u) name ''solutions'' (fzNoCache args) = Ret () \<Longrightarrow>
     downloaded fv args u name"
  unfolding FetchSubmit_def downloaded_def Let_def Exists_def fetch_repo_def
  by (cases "fvStat fv (submit_dir ''solutions'' (suGitlabProject u) name)"; cases "fzNoCache args") (simp_all add: Run_command_Ret)

definition built :: "fuzz_env \<Rightarrow> Args \<Rightarrow> string \<Rightarrow> bool" where
  "built fv args s \<longleftrightarrow> (\<forall>(dir, line) \<in> set (build_commands args s). crError (fvShell fv dir line) = None)"

lemma FetchSubmits_Ret:
  assumes "FetchSubmits fv args = Ret res"
  shows "\<exists>users st. LoadUsers (fvClient fv) ''hse'' = Ret users
    \<and> LoadStandings (fvDump fv) (fvClient fv) (fzEndpoint args) = Ret (Some st)
    \<and> (\<forall>(u, name) \<in> set (successful_submits (fzTaskName args) st). downloaded fv args u name)
    \<and> res = foldl (\<lambda>m x. m(submit_dir ''solutions'' (suGitlabProject (fst x)) (snd x) \<mapsto> users_by_login users (suGitlabLogin (fst x))))
              Map.empty (successful_submits (fzTaskName args) st)"
proof -
  from assms obtain users standings where u: "LoadUsers (fvClient fv) ''hse'' = Ret users"
    and l: "LoadStandings (fvDump fv) (fvClient fv) (fzEndpoint args) = Ret standings"
    by (auto simp: FetchSubmits_def)
  from assms u l obtain st where st: "standings = Some st" by (cases standings) (simp_all add: FetchSubmits_def)
  let ?fetch = "\<lambda>x. FetchSubmit (fvShell fv) (fvStat fv) (fzGitlabGroup args) (suGitlabProject (fst x)) (snd x) ''solutions'' (fzNoCache args)"
  from assms u l st have w: "group_wait (fvFirst fv) (map ?fetch (successful_submits (fzTaskName args) st)) = Ret ()"
    and res: "res = foldl (\<lambda>m x. m(submit_dir ''solutions'' (suGitlabProject (fst x)) (snd x) \<mapsto> users_by_login users (suGitlabLogin (fst x))))
              Map.empty (successful_submits (fzTaskName args) st)"
    by (simp_all add: FetchSubmits_def Let_def case_prod_unfold)
  from w have "\<forall>x \<in> set (successful_submits (fzTaskName args) st). downloaded fv args (fst x) (snd x)"
    by (auto simp: group_wait_Ret intro: FetchSubmit_Ret)
  with u l st res show ?thesis by (auto simp: case_prod_unfold)
qed

lemma verdict_length: "length (verdict fv tb args n s lname link passed) = (if tb then 1 else 0)"
  by (simp add: verdict_def Send_def Escaped_def Raw_def NewMessage_def)

lemma verdict_none [simp]: "verdict fv False args n s lname link passed = []"
  by (simp add: verdict_def Send_def Escaped_def Raw_def NewMessage_def)

lemma announce_length: "length (announce fv tb s) = (if tb then 1 else 0)"
  by (simp add: announce_def Send_def Escaped_def Raw_def NewMessage_def)

lemma fuzz_worker_Ret:
  assumes "fuzz_worker fv tb args n s info = Ret (passed, sent)"
  shows "\<exists>user binary corpus. siUser info = Some user \<and> usTelegramID user \<noteq> None \<and> usGitlabLogin user \<noteq> None
    \<and> fvAbs fv (siBinary info) = Ret binary \<and> fvAbs fv (fzCorpus args) = Ret corpus
    \<and> passed = (crError (fvShell fv (Some (''fuzzcwd/'' @ s)) (fuzz_line args binary corpus)) = None)
    \<and> length sent = (if tb then 1 else 0)"
  using assms by (auto simp: fuzz_worker_def fuzz_unwrap_def verdict_length Let_def split: outcome.splits option.splits if_splits)

lemma fuzz_all_Ret:
  assumes "fuzz_all fv tb order args bins = Ret rs" "\<forall>s \<in> set order. bins s \<noteq> None"
  shows "list_all2 (\<lambda>s (s', r). s' = s \<and> fuzz_worker fv tb args (length order) s (the (bins s)) = Ret r) order rs"
proof -
  from assms(2) have "filter (\<lambda>s. bins s \<noteq> None) order = order" by simp
  with assms(1) show ?thesis by (fastforce simp: fuzz_all_def map_outcome_Ret_iff elim!: list_all2_mono)
qed

lemma fuzz_all_sent:
  "list_all2 (\<lambda>s (s', r). s' = s \<and> fuzz_worker fv tb args n s (the (bins s)) = Ret r) order rs \<Longrightarrow>
     length (concat (map (snd \<circ> snd) rs)) = (if tb then length rs else 0)"
  by (induction rule: list_all2_induct) (auto dest: fuzz_worker_Ret)

section \<open>The report\<close>

text \<open>
  C39. A fuzzing run that ends without a panic reports, once each, exactly the directories of the successful submissions of the task. Each
  of them was downloaded and built, belongs to a member of the group with a Telegram account, whose login is that of
  the submission, and is reported as passed exactly if the fuzzer on its binary has ended without an error. With a bot there
  is one message for each, and three more.
\<close>

theorem fuzz_report:
  assumes "FetchSubmits fv args = Ret solutions" "distinct order" "set order = dom solutions"
    and "RunFuzzing fv order (Ret tb) args = (sent, Ret summary)"
  shows "\<exists>users st. LoadUsers (fvClient fv) ''hse'' = Ret users
    \<and> LoadStandings (fvDump fv) (fvClient fv) (fzEndpoint args) = Ret (Some st)
    \<and> (let submits = successful_submits (fzTaskName args) st;
           dir = (\<lambda>(u, name). submit_dir ''solutions'' (suGitlabProject u) name)
       in length sent = (if tb then 3 + length summary else 0)
        \<and> distinct (map fst summary) \<and> fst ` set summary = dir ` set submits
        \<and> (\<forall>(s, passed) \<in> set summary. \<exists>(u, name) \<in> set submits. \<exists>user \<in> set users. s = dir (u, name)
             \<and> usGitlabLogin user = Some (suGitlabLogin u) \<and> usTelegramID user \<noteq> None
             \<and> downloaded fv args u name \<and> built fv args s
             \<and> (\<exists>binary corpus. fvAbs fv (''bins/'' @ s @ ''/'' @ fzTaskTarget args) = Ret binary \<and> fvAbs fv (fzCorpus args) = Ret corpus
                  \<and> passed = (crError (fvShell fv (Some (''fuzzcwd/'' @ s)) (fuzz_line args binary corpus)) = None))))"
proof -
  let ?dir = "\<lambda>(u, name). submit_dir ''solutions'' (suGitlabProject u) name"
  from FetchSubmits_Ret [OF assms(1)] obtain users st where u: "LoadUsers (fvClient fv) ''hse'' = Ret users"
    and l: "LoadStandings (fvDump fv) (fvClient fv) (fzEndpoint args) = Ret (Some st)"
    and d: "\<forall>(u, name) \<in> set (successful_submits (fzTaskName args) st). downloaded fv args u name"
    and sol: "solutions = foldl (\<lambda>m x. m(?dir x \<mapsto> users_by_login users (suGitlabLogin (fst x)))) Map.empty (successful_submits (fzTaskName args) st)"
    by (auto simp: case_prod_unfold)
  let ?submits = "successful_submits (fzTaskName args) st"
  have dom: "dom solutions = ?dir ` set ?submits" unfolding sol by (rule foldl_updates_dom)
  from assms(4) obtain bins rs where b: "BuildSubmits fv order args = Ret bins" and r: "fuzz_all fv tb order args bins = Ret rs"
    and sum: "summary = map (\<lambda>(s, passed, _). (s, passed)) rs"
    and len: "length sent = (if tb then 3 else 0) + length (concat (map (snd \<circ> snd) rs))"
    by (auto simp: RunFuzzing_def Let_def assms(1) announce_length split: outcome.splits)
  from b have bins: "bins = (\<lambda>s. map_option (\<lambda>u. \<lparr>siBinary = ''bins/'' @ s @ ''/'' @ fzTaskTarget args, siUser = u\<rparr>) (solutions s))"
    and built: "\<forall>s \<in> set order. solutions s \<noteq> None \<longrightarrow> built fv args s"
    by (auto simp: BuildSubmits_def assms(1) group_wait_Ret must_run_all_Ret built_def)
  have "\<forall>s \<in> set order. bins s \<noteq> None" using assms(3) by (auto simp: bins)
  from fuzz_all_Ret [OF r this] have ran: "list_all2 (\<lambda>s (s', r). s' = s \<and> fuzz_worker fv tb args (length order) s (the (bins s)) = Ret r) order rs" .
  then have names: "map fst summary = order" unfolding sum by (induction rule: list_all2_induct) auto
  from fuzz_all_sent [OF ran] len have sent: "length sent = (if tb then 3 + length summary else 0)" by (simp add: sum)
  have "\<exists>(u, name) \<in> set ?submits. \<exists>user \<in> set users. s = ?dir (u, name)
       \<and> usGitlabLogin user = Some (suGitlabLogin u) \<and> usTelegramID user \<noteq> None \<and> downloaded fv args u name \<and> built fv args s
       \<and> (\<exists>binary corpus. fvAbs fv (''bins/'' @ s @ ''/'' @ fzTaskTarget args) = Ret binary \<and> fvAbs fv (fzCorpus args) = Ret corpus
            \<and> passed = (crError (fvShell fv (Some (''fuzzcwd/'' @ s)) (fuzz_line args binary corpus)) = None))"
    if "(s, passed) \<in> set summary" for s passed
  proof -
    from that obtain ms where "(s, passed, ms) \<in> set rs" by (auto simp: sum)
    then obtain i where i: "i < length rs" "rs ! i = (s, passed, ms)" by (auto simp: in_set_conv_nth)
    with ran have w: "fuzz_worker fv tb args (length order) s (the (bins s)) = Ret (passed, ms)" and s: "s \<in> set order"
      by (force simp: list_all2_conv_all_nth)+
    from s assms(3) obtain o_user where os: "solutions s = Some o_user" by auto
    from foldl_updates_Some [OF this [unfolded sol]] obtain u name where x: "(u, name) \<in> set ?submits" "?dir (u, name) = s"
      "users_by_login users (suGitlabLogin u) = o_user" by auto
    from fuzz_worker_Ret [OF w] os x(3) users_by_login_Some x(1,2) d built s show ?thesis
      by (fastforce simp: bins)
  qed
  with u l names assms(2,3) dom sent show ?thesis
    unfolding Let_def by (auto simp: names [symmetric] simp del: split_paired_Ex)
qed

section \<open>Witness\<close>

definition fuzzed_standings :: Standings where
  "fuzzed_standings =
     \<lparr>sdDeadlines = board_plan, sdUsers =
       [\<lparr>uscGroups = [\<lparr>sgrTitle = [], sgrPrettyTitle = [], sgrDeadline = 0,
           sgrTasks = [\<lparr>stTask = ''a'', stShortName = ''a'', stStatus = ''success'', stScore = 10, stMaxScore = 10, stOverridden = False,
             stTaskUrl = [], stPipelineUrl = [], stBranchUrl = []\<rparr>],
           sgrScore = 10, sgrMaxScore = 10\<rparr>],
         uscScore = 10, uscMaxScore = 10, uscFinalMark = Fin 10,
         uscUser = \<lparr>suFirstName = ''A'', suLastName = ''B'', suGitlabLogin = ''ab'', suGitlabProject = ''p''\<rparr>\<rparr>]\<rparr>"

definition fuzz_sample :: fuzz_env where
  "fuzz_sample =
     \<lparr>fvClient = \<lparr>ncTransport = (\<lambda>call. Inr (\<lparr>asOk = True, asError = []\<rparr>,
         if acPath call = ''/api/standings'' then StandingsPayload fuzzed_standings else MembersPayload [course_student])), ncToken = ''tt''\<rparr>,
      fvDump = (\<lambda>st p. []), fvShell = (\<lambda>dir line. \<lparr>crOutput = ''ok'', crErrors = [], crError = None\<rparr>), fvStat = (\<lambda>path. NotFound),
      fvFirst = hd, fvAbs = (\<lambda>path. Ret (''/'' @ path)), fvCreate = (\<lambda>path. None), fvEscape = id, fvFormat = id, fvPanic = id,
      fvDelta = (\<lambda>s. ''1m0s''), fvRunning = (\<lambda>s. 0)\<rparr>"

definition fuzz_args :: Args where
  "fuzz_args =
     \<lparr>fzNoCache = False, fzGitlabGroup = ''hw'', fzEndpoint = ''hse'', fzTaskName = ''a'', fzMainRepo = [], fzTaskTarget = ''fuzz_a'', fzCorpus = ''corpus'',
      fzTimeout = 60000000000, fzJobs = 4\<rparr>"

lemma fuzz_sample_submits: "successful_submits ''a'' fuzzed_standings = [(\<lparr>suFirstName = ''A'', suLastName = ''B'', suGitlabLogin = ''ab'', suGitlabProject = ''p''\<rparr>, ''a'')]"
  by (simp add: successful_submits_def fuzzed_standings_def is_success_def word_sle_eq)

lemma fuzz_sample_commands: "group_wait hd (map (\<lambda>s. must_run_all (fvShell fuzz_sample) (build_commands fuzz_args s)) ss) = Ret ()"
  by (simp add: group_wait_Ret must_run_all_Ret fuzz_sample_def)

lemma fuzz_sample_loads:
  "LoadUsers (fvClient fuzz_sample) ''hse'' = Ret [course_student]"
  "LoadStandings (fvDump fuzz_sample) (fvClient fuzz_sample) ''hse'' = Ret (Some fuzzed_standings)"
  by (simp_all add: LoadUsers_def LoadStandings_def fuzz_sample_def)

lemma fuzz_sample_fetched:
  "FetchSubmits fuzz_sample fuzz_args = Ret [''solutions/p/a'' \<mapsto> Some course_student]"
proof -
  have "fzTaskName fuzz_args = ''a''" "fzEndpoint fuzz_args = ''hse''" by (simp_all add: fuzz_args_def)
  moreover have "users_by_login [course_student] ''ab'' = Some course_student" by (simp add: users_by_login_def course_student_def)
  moreover have "FetchSubmit (fvShell fuzz_sample) (fvStat fuzz_sample) grp project name dest nocache = Ret ()" for grp project name dest nocache
    by (simp add: FetchSubmit_def Exists_def fuzz_sample_def fetch_repo_def Run_command_def)
  ultimately show ?thesis
    by (simp add: FetchSubmits_def fuzz_sample_loads fuzz_sample_submits group_wait_Ret submit_dir_def)
qed

lemma fuzz_sample_run:
  "\<exists>sent. RunFuzzing fuzz_sample [''solutions/p/a''] (Ret True) fuzz_args = (sent, Ret [(''solutions/p/a'', True)])"
proof -
  have "fetch_repo (fvShell fuzz_sample) url branch out = Ret ()" for url branch out
    by (simp add: fetch_repo_def Run_command_def fuzz_sample_def)
  moreover have "\<exists>ms. fuzz_worker fuzz_sample True fuzz_args n s \<lparr>siBinary = b, siUser = Some course_student\<rparr> = Ret (True, ms)" for n s b
    by (simp add: fuzz_worker_def fuzz_unwrap_def WithOutput_def fuzz_sample_def course_student_def)
  then obtain ms where "fuzz_worker fuzz_sample True fuzz_args (Suc 0) ''solutions/p/a''
      \<lparr>siBinary = ''bins/solutions/p/a/'' @ fzTaskTarget fuzz_args, siUser = Some course_student\<rparr> = Ret (True, ms)" by blast
  moreover have "fvFirst fuzz_sample = hd" by (simp add: fuzz_sample_def)
  ultimately show ?thesis
    using fuzz_sample_commands [of "[''solutions/p/a'']"] by (simp add: RunFuzzing_def Let_def BuildSubmits_def fuzz_sample_fetched fuzz_all_def)
qed

lemma fuzz_report_witness:
  "\<exists>(u, name) \<in> set (successful_submits ''a'' fuzzed_standings). downloaded fuzz_sample fuzz_args u name
     \<and> built fuzz_sample fuzz_args (submit_dir ''solutions'' (suGitlabProject u) name)"
proof -
  from fuzz_sample_run obtain sent where
    "RunFuzzing fuzz_sample [''solutions/p/a''] (Ret True) fuzz_args = (sent, Ret [(''solutions/p/a'', True)])" ..
  from fuzz_report [OF fuzz_sample_fetched _ _ this] fuzz_sample_loads show ?thesis
    by (fastforce simp: Let_def fuzz_args_def)
qed

end
