(* ===== verification/CommandLine.thy ===== *)
theory CommandLine
  imports NmtClient Fuzz
begin

text \<open>
  The command lines of \<open>cmd/cli\<close> and \<open>cmd/fuzz\<close>: the trees of commands with their flags, and \<open>main\<close>. The library that takes the
  arguments apart, cobra, is a parameter; what it documents is the predicate \<open>lawful_parser\<close>.
\<close>

section \<open>Commands and flags\<close>

text \<open>A flag has a name, a kind with its default, and a text for the help.\<close>

datatype flag_value = BoolVar bool | StringVar string | IntVar goint | DurationVar duration

type_synonym flag_decl = "string \<times> flag_value \<times> string"
type_synonym flag_values = "string \<Rightarrow> flag_value option"

text \<open>A command: how it is used, its text, its flags, those it shares with the commands below it, its function, and those commands.\<close>

datatype 'r command =
  Command (cmUse: string) (cmShort: string) (cmFlags: "flag_decl list") (cmPersistent: "flag_decl list")
    (cmRun: "(flag_values \<Rightarrow> 'r) option") (cmCommands: "'r command list")

fun AddCommand :: "'r command \<Rightarrow> 'r command \<Rightarrow> 'r command" where
  "AddCommand (Command use short fs ps run cs) c = Command use short fs ps run (cs @ [c])"

text \<open>The values of the flags: the last setting of a flag, else its default.\<close>

definition command_flags :: "'r command list \<Rightarrow> flag_decl list" where
  "command_flags path = concat (map cmPersistent path) @ cmFlags (last path)"

definition values_of :: "flag_decl list \<Rightarrow> (string \<times> flag_value) list \<Rightarrow> flag_values" where
  "values_of decls settings name =
     (case map_of (rev settings) name of Some v \<Rightarrow> Some v | None \<Rightarrow> map_option fst (map_of decls name))"

definition bool_flag :: "flag_values \<Rightarrow> string \<Rightarrow> bool" where
  "bool_flag vs name = (case vs name of Some (BoolVar b) \<Rightarrow> b | _ \<Rightarrow> False)"

definition string_flag :: "flag_values \<Rightarrow> string \<Rightarrow> string" where
  "string_flag vs name = (case vs name of Some (StringVar s) \<Rightarrow> s | _ \<Rightarrow> [])"

definition int_flag :: "flag_values \<Rightarrow> string \<Rightarrow> goint" where
  "int_flag vs name = (case vs name of Some (IntVar i) \<Rightarrow> i | _ \<Rightarrow> 0)"

definition duration_flag :: "flag_values \<Rightarrow> string \<Rightarrow> duration" where
  "duration_flag vs name = (case vs name of Some (DurationVar d) \<Rightarrow> d | _ \<Rightarrow> 0)"

text \<open>
  What the library makes of the arguments: an error, a text for the user (the help, also for a command without a function), or a
  command, by its path from the root, and the settings in their order.
\<close>

datatype 'r parsed_line = ParseFails gerror | Help | RunCommand "'r command list" "(string \<times> flag_value) list"

fun command_path :: "'r command \<Rightarrow> 'r command list \<Rightarrow> bool" where
  "command_path prog [] = False"
| "command_path prog [c] = (c = prog)"
| "command_path prog (c # d # path) = (c = prog \<and> d \<in> set (cmCommands prog) \<and> command_path d (d # path))"

fun same_kind :: "flag_value \<Rightarrow> flag_value \<Rightarrow> bool" where
  "same_kind (BoolVar _) (BoolVar _) = True"
| "same_kind (StringVar _) (StringVar _) = True"
| "same_kind (IntVar _) (IntVar _) = True"
| "same_kind (DurationVar _) (DurationVar _) = True"
| "same_kind _ _ = False"

definition lawful_parser :: "'r command \<Rightarrow> (string list \<Rightarrow> 'r parsed_line) \<Rightarrow> bool" where
  "lawful_parser prog parse \<longleftrightarrow>
     (\<forall>args path settings. parse args = RunCommand path settings \<longrightarrow>
        command_path prog path \<and> cmRun (last path) \<noteq> None
        \<and> (\<forall>(name, v) \<in> set settings. \<exists>d. map_of (command_flags path) name = Some d \<and> same_kind (fst d) v))"

section \<open>The function main\<close>

text \<open>
  What the program's command has returned, if one was run, what \<open>main\<close> prints to the standard error, and the status with which the
  program ends; it is 2 after a panic.
\<close>

definition failure :: "gerror \<Rightarrow> string" where
  "failure e = ''Command failed: '' @ error_text e"

definition main_command ::
  "('r \<Rightarrow> unit outcome) \<Rightarrow> (string list \<Rightarrow> 'r parsed_line) \<Rightarrow> string list \<Rightarrow> 'r option \<times> string \<times> nat" where
  "main_command ended parse args =
     (case parse args of
        ParseFails e \<Rightarrow> (None, failure e, 1)
      | Help \<Rightarrow> (None, [], 0)
      | RunCommand path settings \<Rightarrow>
          (let r = the (cmRun (last path)) (values_of (command_flags path) settings) in
           (Some r, case ended r of Ret _ \<Rightarrow> ([], 0) | Fail e \<Rightarrow> (failure e, 1) | Panic m \<Rightarrow> ([], 2))))"

section \<open>The client's commands\<close>

text \<open>What the functions use: the environment variable with the token, the transport, the sorting, and the printing of a result.\<close>

record cli_env =
  ceToken :: string
  ceResty :: "string \<Rightarrow> transport"
  ceSort :: sort_slice
  ceDump :: "Status \<Rightarrow> payload \<Rightarrow> string"

text \<open>The outcome of a command is what it has printed to the standard output.\<close>

definition makeOverrideCommand :: "cli_env \<Rightarrow> string outcome command" where
  "makeOverrideCommand ce =
     Command ''override'' ''Override scores''
       [(''task'', StringVar [], ''Task name''), (''user'', StringVar [], ''User name''), (''status'', StringVar [], ''Task status''),
        (''score'', IntVar 0, ''Task score'')]
       []
       (Some (\<lambda>vs. and_then (overrideScores (ceResty ce) (ceToken ce) (string_flag vs ''task'') (string_flag vs ''user'')
          (string_flag vs ''status'') (int_flag vs ''score'')) (\<lambda>_. Ret [])))
       []"

definition makeDumpStandingsCommand :: "cli_env \<Rightarrow> string outcome command" where
  "makeDumpStandingsCommand ce =
     Command ''standings'' ''Dump standings'' [(''group'', StringVar ''hse'', ''Group name'')] []
       (Some (\<lambda>vs. dumpStandings (ceSort ce) (ceDump ce) (ceResty ce) (ceToken ce) (string_flag vs ''group''))) []"

definition makeDumpSuccessfulSubmits :: "cli_env \<Rightarrow> string outcome command" where
  "makeDumpSuccessfulSubmits ce =
     Command ''submits'' ''Dump successful submits''
       [(''group'', StringVar ''hse'', ''Group name''), (''task'', StringVar [], ''Task name'')] []
       (Some (\<lambda>vs. dumpSuccessfulSubmits (ceDump ce) (ceResty ce) (ceToken ce) (string_flag vs ''group'') (string_flag vs ''task''))) []"

definition rootCmd :: "string outcome command" where
  "rootCmd = Command ''nmt'' ''Notmanytask client'' [] [] None []"

definition dumpCmd :: "string outcome command" where
  "dumpCmd = Command ''dump'' ''Dump various info'' [] [] None []"

definition cli_initCommands :: "cli_env \<Rightarrow> string outcome command" where
  "cli_initCommands ce =
     AddCommand (AddCommand rootCmd (makeOverrideCommand ce))
       (AddCommand (AddCommand dumpCmd (makeDumpStandingsCommand ce)) (makeDumpSuccessfulSubmits ce))"

definition cli_main :: "(string list \<Rightarrow> string outcome parsed_line) \<Rightarrow> string list \<Rightarrow> string outcome option \<times> string \<times> nat" where
  "cli_main = main_command (\<lambda>r. and_then r (\<lambda>_. Ret ()))"

section \<open>The fuzzing driver's commands\<close>

text \<open>The flags belong to the root; the field for a repository has none.\<close>

definition fuzz_flags :: "flag_decl list" where
  "fuzz_flags =
     [(''no-cache'', BoolVar False, ''Do not cache submits / repos''),
      (''endpoint'', StringVar ''https://cpp-hse.net'', ''Scoring system endpoint''),
      (''gitlab-group'', StringVar ''cpp-advanced-hse-2022'', ''Gitlab group name''),
      (''task'', StringVar [], ''Task name''),
      (''target'', StringVar [], ''Build target''),
      (''corpus'', StringVar ''corpus'', ''Path to the corpus''),
      (''timeout'', DurationVar (3600 * 10 ^ 9 * 24), ''Fuzzing timeout''),
      (''jobs'', IntVar 4, ''Number of fuzzing jobs per solution'')]"

definition parsed_args :: "flag_values \<Rightarrow> Args" where
  "parsed_args vs =
     \<lparr>fzNoCache = bool_flag vs ''no-cache'', fzGitlabGroup = string_flag vs ''gitlab-group'', fzEndpoint = string_flag vs ''endpoint'',
      fzTaskName = string_flag vs ''task'', fzMainRepo = [], fzTaskTarget = string_flag vs ''target'', fzCorpus = string_flag vs ''corpus'',
      fzTimeout = duration_flag vs ''timeout'', fzJobs = int_flag vs ''jobs''\<rparr>"

text \<open>
  The outcome of a command is the messages that were sent and what was printed to the standard output. The environment depends on
  the arguments: the client is made for the endpoint.
\<close>

type_synonym fuzz_outcome = "tg_message list \<times> string outcome"

record fuzz_setup =
  fsEnv :: "Args \<Rightarrow> fuzz_env"
  fsOrder :: "string list"
  fsBot :: "bool outcome"

definition FetchCmd :: "fuzz_setup \<Rightarrow> fuzz_outcome command" where
  "FetchCmd fs =
     Command ''fetch'' ''Fetch submits'' [] []
       (Some (\<lambda>vs. let args = parsed_args vs in ([], and_then (FetchSubmits (fsEnv fs args) args) (\<lambda>_. Ret [])))) []"

definition BuildCmd :: "fuzz_setup \<Rightarrow> fuzz_outcome command" where
  "BuildCmd fs =
     Command ''build'' ''Build submits'' [] []
       (Some (\<lambda>vs. let args = parsed_args vs in ([], and_then (BuildSubmits (fsEnv fs args) (fsOrder fs) args) (\<lambda>_. Ret [])))) []"

definition solution_line :: "string \<times> bool \<Rightarrow> string" where
  "solution_line s =
     ''Solution '' @ fst s @ (if snd s then '' completed successfully!'' else '' failed'') @ [CHR 0x0A]"

definition RunCmd :: "fuzz_setup \<Rightarrow> fuzz_outcome command" where
  "RunCmd fs =
     Command ''run'' ''Fetch, build & run submits'' [] []
       (Some (\<lambda>vs. let args = parsed_args vs in
          case RunFuzzing (fsEnv fs args) (fsOrder fs) (fsBot fs) args of
            (sent, r) \<Rightarrow> (sent, and_then r (\<lambda>stats. Ret (concat (map solution_line stats)))))) []"

definition RootCmd :: "fuzz_outcome command" where
  "RootCmd = Command ''fuzz'' ''Run fuzz tests'' [] [] None []"

definition fuzz_initCommands :: "fuzz_setup \<Rightarrow> fuzz_outcome command" where
  "fuzz_initCommands fs =
     (case RootCmd of
        Command use short flags ps run cs \<Rightarrow>
          AddCommand (AddCommand (AddCommand (Command use short flags (ps @ fuzz_flags) run cs) (FetchCmd fs)) (BuildCmd fs)) (RunCmd fs))"

definition fuzz_main :: "(string list \<Rightarrow> fuzz_outcome parsed_line) \<Rightarrow> string list \<Rightarrow> fuzz_outcome option \<times> string \<times> nat" where
  "fuzz_main = main_command (\<lambda>r. and_then (snd r) (\<lambda>_. Ret ()))"

end
