(* ===== verification/CommandLineSpec.thy ===== *)
theory CommandLineSpec
  imports CommandLine NmtClientSpec
begin

text \<open>
  What the command lines do: which command is run with which values, and what the status of the program tells about the server.
\<close>

section \<open>Paths\<close>

lemma command_path_iff:
  "command_path prog path \<longleftrightarrow>
     (\<exists>below. path = prog # below \<and> (below = [] \<or> hd below \<in> set (cmCommands prog) \<and> command_path (hd below) below))"
  by (cases "(prog, path)" rule: command_path.cases) auto

lemma command_path_Cons:
  "command_path prog (c # path) \<longleftrightarrow> c = prog \<and> (path = [] \<or> (\<exists>d \<in> set (cmCommands prog). command_path d path))"
  by (cases path) (auto simp: command_path_iff [of _ "_ # _"])

lemma lawful_parserD:
  assumes "lawful_parser prog parse" "parse args = RunCommand path settings"
  shows "command_path prog path" "cmRun (last path) \<noteq> None"
    and "(name, v) \<in> set settings \<Longrightarrow> \<exists>d. map_of (command_flags path) name = Some d \<and> same_kind (fst d) v"
  using assms unfolding lawful_parser_def by (blast, blast, fast)

lemmas cli_defs = cli_initCommands_def rootCmd_def dumpCmd_def makeOverrideCommand_def makeDumpStandingsCommand_def makeDumpSuccessfulSubmits_def

lemma cli_uses:
  "cmUse (makeOverrideCommand ce) = ''override''" "cmUse (makeDumpStandingsCommand ce) \<noteq> ''override''"
  "cmUse (makeDumpSuccessfulSubmits ce) \<noteq> ''override''"
  by (simp_all add: cli_defs)

lemma cli_paths:
  assumes "lawful_parser (cli_initCommands ce) parse" "parse args = RunCommand path settings"
  shows "path = [cli_initCommands ce, makeOverrideCommand ce] \<or>
    (\<exists>dump \<in> set (cmCommands (cli_initCommands ce)). cmUse dump = ''dump'' \<and>
      (path = [cli_initCommands ce, dump, makeDumpStandingsCommand ce] \<or> path = [cli_initCommands ce, dump, makeDumpSuccessfulSubmits ce]))"
proof -
  define dump where "dump = AddCommand (AddCommand dumpCmd (makeDumpStandingsCommand ce)) (makeDumpSuccessfulSubmits ce)"
  have below: "cmCommands (cli_initCommands ce) = [makeOverrideCommand ce, dump]" "cmRun (cli_initCommands ce) = None"
    "cmCommands (makeOverrideCommand ce) = []" "cmUse dump = ''dump''" "cmRun dump = None"
    "cmCommands dump = [makeDumpStandingsCommand ce, makeDumpSuccessfulSubmits ce]"
    "cmCommands (makeDumpStandingsCommand ce) = []" "cmCommands (makeDumpSuccessfulSubmits ce) = []"
    by (simp_all add: dump_def cli_defs)
  obtain c below where "path = c # below" using lawful_parserD(1) [OF assms] by (cases path) auto
  moreover obtain d below' where "below = d # below'"
    using lawful_parserD [OF assms] \<open>path = c # below\<close> below(2) by (cases below) (auto simp: command_path_Cons)
  ultimately show ?thesis
    using lawful_parserD(1) [OF assms] lawful_parserD(2) [OF assms] below
    by (cases below') (auto simp: command_path_Cons)
qed

section \<open>Values\<close>

lemma values_of_default: "name \<notin> fst ` set settings \<Longrightarrow> values_of decls settings name = map_option fst (map_of decls name)"
  using map_of_eq_None_iff [of "rev settings" name] by (auto simp: values_of_def)

lemma values_of_last: "values_of decls (settings @ [(name, v)]) name = Some v"
  by (simp add: values_of_def)

text \<open>Every flag of a command has a value of its kind.\<close>

lemma same_kind_trans: "same_kind d v \<Longrightarrow> same_kind d w \<Longrightarrow> same_kind v w"
  by (cases d; cases v; cases w) auto

lemma same_kind_refl [simp]: "same_kind v v"
  by (cases v) auto

lemma values_of_kind:
  assumes "lawful_parser prog parse" "parse args = RunCommand path settings" "map_of (command_flags path) name = Some d"
  shows "\<exists>v. values_of (command_flags path) settings name = Some v \<and> same_kind (fst d) v"
proof (cases "map_of (rev settings) name")
  case (Some v)
  from map_of_SomeD [OF this] have "(name, v) \<in> set settings" by simp
  from lawful_parserD(3) [OF assms(1,2) this] assms(3) Some show ?thesis by (auto simp: values_of_def)
qed (use assms(3) in \<open>simp add: values_of_def\<close>)

section \<open>The status\<close>

lemma main_command_status:
  "main_command ended parse args = (r, err, status) \<Longrightarrow>
     status \<le> 2 \<and> (status = 0 \<longleftrightarrow> parse args = Help \<or> (\<exists>x. r = Some x \<and> ended x = Ret ()))
     \<and> (err \<noteq> [] \<longleftrightarrow> status = 1)"
  by (auto simp: main_command_def failure_def Let_def split: parsed_line.splits outcome.splits)

lemma cli_main_run:
  assumes "cli_main parse args = (r, err, status)" "parse args = RunCommand path settings"
  shows "r = Some (the (cmRun (last path)) (values_of (command_flags path) settings))"
    and "(err, status) = (case the (cmRun (last path)) (values_of (command_flags path) settings) of
        Ret s \<Rightarrow> ([], 0) | Fail e \<Rightarrow> (failure e, 1) | Panic m \<Rightarrow> ([], 2))"
  using assms by (auto simp: cli_main_def main_command_def Let_def split: outcome.splits)

text \<open>
  C29. The command \<open>nmt override\<close> sends the values of its four flags, empty or 0 when a flag is not given, and when the server has answered its
  status tells the truth: the program ends with status 0 exactly if the server has stored that override, for a linked student and a task of the
  course and with a valid token; otherwise it ends with status 1, nothing has changed, and the message is always the same: the
  reason, which the server sends, is never shown.
\<close>

theorem override_command:
  assumes "lawful_parser (cli_initCommands ce) parse" "parse args = RunCommand path settings" "cmUse (last path) = ''override''"
    and "cli_main parse args = (r, err, status)" "vs = values_of (command_flags path) settings"
    and "override_route srv" "c = \<lparr>ncTransport = ceResty ce cli_endpoint, ncToken = ceToken ce\<rparr>"
    and "answered_call srv cn (ncTransport c)
      (override_call c (string_flag vs ''user'') (string_flag vs ''task'') (string_flag vs ''status'') (int_flag vs ''score'')) w w'"
  shows "(status = 0 \<and> err = [] \<and> override_accepted srv cn (ceToken ce)
        \<lparr>orToken = ceToken ce, orTask = string_flag vs ''task'', orLogin = string_flag vs ''user'', orScore = int_flag vs ''score'',
         orStatus = string_flag vs ''status''\<rparr> w w'
      \<or> status = 1 \<and> err = ''Command failed: failed to override score: '' \<and> w' = w)
    \<and> (\<forall>name. name \<notin> fst ` set settings \<longrightarrow> string_flag vs name = [] \<and> int_flag vs name = 0)"
proof -
  have path: "path = [cli_initCommands ce, makeOverrideCommand ce]"
    using cli_paths [OF assms(1,2)] assms(3) cli_uses by fastforce
  let ?out = "OverrideScore c (string_flag vs ''user'') (string_flag vs ''task'') (string_flag vs ''status'') (int_flag vs ''score'')"
  have "overrideScores (ceResty ce) (ceToken ce) (string_flag vs ''task'') (string_flag vs ''user'')
      (string_flag vs ''status'') (int_flag vs ''score'') = ?out"
    by (simp add: overrideScores_def NewClient_def assms(7))
  then have run: "the (cmRun (last path)) vs = and_then ?out (\<lambda>_. Ret [])"
    by (simp add: path makeOverrideCommand_def)
  have status: "(err, status) = (case and_then ?out (\<lambda>_. Ret [] :: string outcome) of Ret s \<Rightarrow> ([], 0) | Fail e \<Rightarrow> (failure e, 1) | Panic m \<Rightarrow> ([], 2))"
    using cli_main_run(2) [OF assms(4,2)] unfolding assms(5) [symmetric] run .
  have "string_flag vs name = [] \<and> int_flag vs name = 0" if "name \<notin> fst ` set settings" for name
    using values_of_default [OF that, of "command_flags path"] assms(5)
    by (auto simp: path command_flags_def cli_defs string_flag_def int_flag_def)
  moreover have "status = 0 \<and> err = [] \<and> override_accepted srv cn (ncToken c)
        \<lparr>orToken = ncToken c, orTask = string_flag vs ''task'', orLogin = string_flag vs ''user'', orScore = int_flag vs ''score'',
         orStatus = string_flag vs ''status''\<rparr> w w'
      \<or> status = 1 \<and> err = ''Command failed: failed to override score: '' \<and> w' = w"
    using override_end_to_end [OF assms(6) refl assms(8)] status
    by (cases ?out) (simp_all add: failure_def)
  ultimately show ?thesis unfolding assms(7) by simp
qed

section \<open>The fuzzing driver\<close>

lemmas fuzz_cmd_defs = fuzz_initCommands_def RootCmd_def FetchCmd_def BuildCmd_def RunCmd_def

lemma fuzz_root:
  "cmCommands (fuzz_initCommands fs) = [FetchCmd fs, BuildCmd fs, RunCmd fs]" "cmRun (fuzz_initCommands fs) = None"
  "cmPersistent (fuzz_initCommands fs) = fuzz_flags"
  "cmCommands (FetchCmd fs) = []" "cmCommands (BuildCmd fs) = []" "cmCommands (RunCmd fs) = []"
  "cmFlags (RunCmd fs) = []" "cmPersistent (RunCmd fs) = []"
  by (simp_all add: fuzz_cmd_defs)

lemma fuzz_paths:
  assumes "lawful_parser (fuzz_initCommands fs) parse" "parse args = RunCommand path settings"
  shows "\<exists>c \<in> {FetchCmd fs, BuildCmd fs, RunCmd fs}. path = [fuzz_initCommands fs, c]"
proof -
  obtain c below where "path = c # below" using lawful_parserD(1) [OF assms] by (cases path) auto
  moreover obtain d below' where "below = d # below'"
    using lawful_parserD [OF assms] \<open>path = c # below\<close> fuzz_root(2) [of fs] by (cases below) (auto simp: command_path_Cons)
  ultimately show ?thesis
    using lawful_parserD(1) [OF assms] fuzz_root [of fs] by (cases below') (auto simp: command_path_Cons)
qed

text \<open>Without settings the driver fuzzes a task with an empty name, for a day and with four jobs for each solution.\<close>

lemma fuzz_defaults:
  "parsed_args (values_of fuzz_flags []) =
     \<lparr>fzNoCache = False, fzGitlabGroup = ''cpp-advanced-hse-2022'', fzEndpoint = ''https://cpp-hse.net'', fzTaskName = [], fzMainRepo = [],
      fzTaskTarget = [], fzCorpus = ''corpus'', fzTimeout = 86400 * 10 ^ 9, fzJobs = 4\<rparr>"
  by (simp add: parsed_args_def values_of_def fuzz_flags_def bool_flag_def string_flag_def int_flag_def duration_flag_def)

text \<open>A panic while the submissions are fetched goes unnoticed: the program reports success and prints nothing.\<close>

lemma fuzz_panic_status:
  assumes "parse line = RunCommand [fuzz_initCommands fs, RunCmd fs] settings" "args = parsed_args (values_of fuzz_flags settings)"
    and "FetchSubmits (fsEnv fs args) args = Panic m" "fsBot fs = Ret tb"
  shows "\<exists>sent. fuzz_main parse line = (Some (sent, Ret []), [], 0)"
proof -
  have "command_flags [fuzz_initCommands fs, RunCmd fs] = fuzz_flags" by (simp add: command_flags_def fuzz_root)
  then have "\<exists>sent. the (cmRun (RunCmd fs)) (values_of (command_flags [fuzz_initCommands fs, RunCmd fs]) settings) = (sent, Ret [])"
    using assms(2-4) by (simp add: RunCmd_def Let_def RunFuzzing_def)
  with assms(1) show ?thesis by (auto simp: fuzz_main_def main_command_def Let_def)
qed

section \<open>Witness\<close>

definition cli_sample :: cli_env where
  "cli_sample = \<lparr>ceToken = ''tt'', ceResty = (\<lambda>url. ncTransport cli_client), ceSort = insertionSort, ceDump = (\<lambda>st p. [])\<rparr>"

definition sample_settings :: "(string \<times> flag_value) list" where
  "sample_settings =
     [(''task'', StringVar ''b''), (''user'', StringVar ''ab''), (''status'', StringVar ''success''), (''score'', IntVar 5),
      (''task'', StringVar ''a'')]"

definition sample_parser :: "string list \<Rightarrow> string outcome parsed_line" where
  "sample_parser args =
     (if args = [] then Help else RunCommand [cli_initCommands cli_sample, makeOverrideCommand cli_sample] sample_settings)"

lemma sample_parser_lawful: "lawful_parser (cli_initCommands cli_sample) sample_parser"
  by (auto simp: lawful_parser_def sample_parser_def cli_defs command_flags_def sample_settings_def)

lemma override_command_witness:
  "override_accepted course_server (course_conn ''1f'') ''tt'' cli_request (newServer course_db) (newServer overridden_db)
   \<and> snd (snd (cli_main sample_parser [''override''])) = 0"
proof -
  let ?path = "[cli_initCommands cli_sample, makeOverrideCommand cli_sample]"
  let ?vs = "values_of (command_flags ?path) sample_settings"
  have vals: "string_flag ?vs ''user'' = ''ab''" "string_flag ?vs ''task'' = ''a''" "string_flag ?vs ''status'' = ''success''" "int_flag ?vs ''score'' = 5"
    by (simp_all add: values_of_def sample_settings_def string_flag_def int_flag_def)
  have parse: "sample_parser [''override''] = RunCommand ?path sample_settings" by (simp add: sample_parser_def)
  obtain r err status where main: "cli_main sample_parser [''override''] = (r, err, status)" by (metis prod.exhaust)
  have use: "cmUse (last ?path) = ''override''" by (simp add: cli_defs)
  have answered: "answered_call course_server (course_conn ''1f'') (ncTransport cli_client) (override_call cli_client ''ab'' ''a'' ''success'' 5)
      (newServer course_db) (newServer overridden_db)"
    unfolding answered_call_def
    by (intro exI [of _ "blank_request\<lparr>rqToken := ''tt'', rqOverride := Inr cli_request\<rparr>"] exI conjI allI impI,
        insert course_serve_override)
      (auto simp: override_call_def cli_client_def cli_request_def decoded_def)
  have client: "cli_client = \<lparr>ncTransport = ceResty cli_sample cli_endpoint, ncToken = ceToken cli_sample\<rparr>"
    by (simp add: cli_client_def cli_sample_def)
  have token: "ceToken cli_sample = ''tt''" by (simp add: cli_sample_def)
  from cli_main_run(2) [OF main parse] have "status = 0"
    by (simp add: makeOverrideCommand_def overrideScores_def NewClient_def OverrideScore_def cli_sample_def cli_client_def)
  with override_command [OF sample_parser_lawful parse use main refl course_override_route client, unfolded vals, OF answered] token main
  show ?thesis by (simp add: cli_request_def)
qed

end
