(* ===== verification/Configuration.thy ===== *)
theory Configuration
  imports GoStrings
begin

text \<open>
  Packages \<open>internal/config\<close> and \<open>pkg/conf\<close>: the shape of the configuration and the settings that are bound to environment
  variables. The library that reads files and the environment, viper, is a parameter.
\<close>

section \<open>The shape of the configuration\<close>

text \<open>
  What reflection sees of a type: a struct with its fields (each with the tag \<open>mapstructure\<close>, if any), a pointer, or anything else.
\<close>

datatype go_type = Plain | Pointer go_type | Struct "(string \<times> string option \<times> go_type) list"

definition field :: "string \<Rightarrow> go_type \<Rightarrow> string \<times> string option \<times> go_type" where
  "field name t = (name, None, t)"

definition log_Config_type :: go_type where
  "log_Config_type =
     Struct [field ''Level'' Plain, field ''Filename'' Plain, field ''MaxSize'' Plain, field ''MaxBackups'' Plain,
       field ''MaxAgeDays'' Plain, field ''Development'' Plain]"

definition GitLabConfig_type :: go_type where
  "GitLabConfig_type =
     Struct [field ''BaseURL'' Plain, field ''Group'' (Struct [field ''Name'' Plain, field ''ID'' Plain]),
       field ''DefaultReadme'' Plain, field ''TaskUrlPrefix'' Plain,
       field ''Application'' (Struct [field ''ClientID'' Plain, field ''Secret'' Plain]),
       field ''Api'' (Struct [field ''Token'' Plain]), field ''CIConfigPath'' Plain]"

definition EndpointsConfig_type :: go_type where
  "EndpointsConfig_type =
     Struct [field ''HostName'' Plain, field ''Home'' Plain, field ''Flag'' Plain, field ''Login'' Plain, field ''Logout'' Plain,
       field ''Signup'' Plain, field ''Standings'' Plain, field ''Retakes'' Plain, field ''OauthCallback'' Plain,
       field ''TelegramLogin'' Plain, field ''TelegramCallback'' Plain,
       field ''Api'' (Struct [field ''Report'' Plain, field ''Flag'' Plain, field ''Override'' Plain, field ''ChangeGroup'' Plain,
         field ''Standings'' Plain, field ''ListGroupMembers'' Plain])]"

definition ServerConfig_type :: go_type where
  "ServerConfig_type =
     Struct [field ''ListenAddress'' Plain, field ''CourseName'' Plain, field ''HeaderName'' Plain,
       field ''Cookies'' (Struct [field ''AuthenticationKey'' Plain, field ''EncryptionKey'' Plain])]"

definition DataBaseConfig_type :: go_type where
  "DataBaseConfig_type =
     Struct [field ''Host'' Plain, field ''Port'' Plain, field ''User'' Plain, field ''Pass'' Plain, field ''Name'' Plain]"

definition TestingConfig_type :: go_type where
  "TestingConfig_type = Struct [field ''Tokens'' Plain]"

definition PullIntervalsConfig_type :: go_type where
  "PullIntervalsConfig_type =
     Struct [field ''Deadlines'' Plain, field ''Projects'' (Pointer Plain), field ''Pipelines'' (Pointer Plain)]"

definition TelegramBotConfig_type :: go_type where
  "TelegramBotConfig_type = Struct [field ''BotLogin'' Plain, field ''BotToken'' Plain]"

text \<open>The groups are a slice.\<close>

definition Config_type :: go_type where
  "Config_type =
     Struct [field ''Log'' log_Config_type, field ''GitLab'' GitLabConfig_type, field ''Endpoints'' EndpointsConfig_type,
       field ''Server'' ServerConfig_type, field ''DataBase'' DataBaseConfig_type, field ''Testing'' TestingConfig_type,
       field ''Groups'' Plain, field ''PullIntervals'' PullIntervalsConfig_type, field ''Telegram'' (Pointer TelegramBotConfig_type)]"

section \<open>Binding environment variables\<close>

text \<open>The keys that are bound, in order. Only a pointer at the top is followed.\<close>

fun join_dots :: "string list \<Rightarrow> string" where
  "join_dots [] = []"
| "join_dots [p] = p"
| "join_dots (p # ps) = p @ CHR ''.'' # join_dots ps"

definition field_name :: "string \<Rightarrow> string option \<Rightarrow> string" where
  "field_name n tag = (case tag of None \<Rightarrow> n | Some s \<Rightarrow> s)"

fun bind_fields :: "(string \<times> string option \<times> go_type) list \<Rightarrow> string list \<Rightarrow> string list" where
  "bind_fields [] parts = []"
| "bind_fields ((n, tag, Struct gs) # fs) parts = bind_fields gs (parts @ [field_name n tag]) @ bind_fields fs parts"
| "bind_fields ((n, tag, t) # fs) parts = join_dots (parts @ [field_name n tag]) # bind_fields fs parts"

text \<open>Asking for the fields of what is no struct panics.\<close>

fun bindEnvs :: "go_type \<Rightarrow> string list outcome" where
  "bindEnvs (Pointer t) = bindEnvs t"
| "bindEnvs (Struct fs) = Ret (bind_fields fs [])"
| "bindEnvs Plain = Panic ''reflect: NumField of non-struct type''"

text \<open>
  The steps of parsing, each with its error: the file, when one is given, the bindings, and the decoding of what the
  library has found for the bound keys.
\<close>

definition conf_ParseConfig ::
  "(string \<Rightarrow> gerror option) \<Rightarrow> (string list \<Rightarrow> gerror + 'c) \<Rightarrow> string \<Rightarrow> go_type \<Rightarrow> 'c outcome" where
  "conf_ParseConfig readInConfig unmarshal configPath t =
     (case (if configPath = [] then None else readInConfig configPath) of
        Some e \<Rightarrow> Fail (Wrap ''Failed to load config'' e)
      | None \<Rightarrow>
          and_then (bindEnvs t) (\<lambda>keys.
          case unmarshal keys of
            Inl e \<Rightarrow> Fail (Wrap ''Failed to unmarshal config'' e)
          | Inr c \<Rightarrow> Ret c))"

definition ParseConfig ::
  "(string \<Rightarrow> gerror option) \<Rightarrow> (string list \<Rightarrow> gerror + 'c) \<Rightarrow> string \<Rightarrow> 'c outcome" where
  "ParseConfig readInConfig unmarshal configPath =
     map_fail (Wrap ''Failed to parse config'') (conf_ParseConfig readInConfig unmarshal configPath (Pointer Config_type))"

text \<open>The name of the variable of a key: dots become underscores, in capitals, behind the prefix.\<close>

definition upper :: "char \<Rightarrow> char" where
  "upper ch = (if 97 \<le> (byte ch :: nat) \<and> byte ch \<le> (122 :: nat) then chr (byte ch - 32) else ch)"

definition env_name :: "string \<Rightarrow> string" where
  "env_name key = ''NMT_'' @ map (\<lambda>ch. if ch = CHR ''.'' then CHR ''_'' else upper ch) key"

section \<open>The paths of the settings\<close>

text \<open>A path leads through structs to a field that is none.\<close>

inductive setting :: "(string \<times> string option \<times> go_type) list \<Rightarrow> string list \<Rightarrow> bool" where
  leaf: "(n, tag, t) \<in> set fs \<Longrightarrow> \<forall>gs. t \<noteq> Struct gs \<Longrightarrow> setting fs [field_name n tag]"
| inner: "(n, tag, Struct gs) \<in> set fs \<Longrightarrow> setting gs path \<Longrightarrow> setting fs (field_name n tag # path)"

lemma setting_later: "setting fs path \<Longrightarrow> setting (x # fs) path"
  by (erule setting.cases) (auto intro: setting.intros)

lemma setting_Cons:
  "setting ((n, tag, t) # fs) path \<longleftrightarrow>
     (case t of Struct gs \<Rightarrow> \<exists>p. path = field_name n tag # p \<and> setting gs p | _ \<Rightarrow> path = [field_name n tag]) \<or> setting fs path"
proof
  assume "setting ((n, tag, t) # fs) path"
  then show "(case t of Struct gs \<Rightarrow> \<exists>p. path = field_name n tag # p \<and> setting gs p | _ \<Rightarrow> path = [field_name n tag]) \<or> setting fs path"
    by (cases rule: setting.cases) (auto split: go_type.split intro: setting.intros)
qed (auto split: go_type.splits intro: setting.intros setting_later)

lemma setting_Nil [simp]: "\<not> setting [] path"
  by (auto elim: setting.cases)

lemma bound_settings: "set (bind_fields fs parts) = (\<lambda>path. join_dots (parts @ path)) ` {path. setting fs path}"
  by (induction fs parts rule: bind_fields.induct) (auto simp: setting_Cons image_iff)

lemma env_name_bytes:
  "map byte (env_name key) = map byte ''NMT_'' @
     map (\<lambda>ch. if ch = CHR ''.'' then 95 else if 97 \<le> (byte ch :: nat) \<and> byte ch \<le> (122 :: nat) then byte ch - 32 else byte ch) key"
  by (auto simp: env_name_def upper_def)

text \<open>
  C40. The variables of the environment that the program reads are those of the settings: a key is bound for every path through the
  structs of a configuration, and for nothing else. For the program's own configuration no two settings have the same
  variable, and the token of the Telegram bot, behind a pointer, has none.
\<close>

theorem bound_variables:
  "bindEnvs (Pointer (Struct fs)) = Ret (bind_fields fs []) \<and> set (bind_fields fs []) = join_dots ` {path. setting fs path}
   \<and> (\<exists>keys. bindEnvs (Pointer Config_type) = Ret keys \<and> distinct (map env_name keys)
        \<and> ''Telegram'' \<in> set keys \<and> ''Telegram.BotToken'' \<notin> set keys)"
proof -
  note types = Config_type_def log_Config_type_def GitLabConfig_type_def EndpointsConfig_type_def ServerConfig_type_def DataBaseConfig_type_def
    TestingConfig_type_def PullIntervalsConfig_type_def TelegramBotConfig_type_def field_def
  obtain keys where k: "bindEnvs (Pointer Config_type) = Ret keys" by (simp add: types)
  have "distinct (map (\<lambda>key. map byte (env_name key) :: nat list) keys)"
    using k by (auto simp: types field_name_def env_name_bytes)
  then have "distinct (map env_name keys)" using distinct_map [of "map byte" "map env_name keys"] by (simp add: comp_def)
  moreover have "''Telegram'' \<in> set keys" "''Telegram.BotToken'' \<notin> set keys" using k by (auto simp: types field_name_def)
  ultimately show ?thesis using k bound_settings [of fs "[]"] by auto
qed

end
