(* ===== verification/Logging.thy ===== *)
theory Logging
  imports Models "HOL-Library.Signed_Division" "HOL-Library.Sublist"
begin

text \<open>
  The logs of the server: \<open>pkg/log\<close>, which makes the logger and rotates its file on a signal, and \<open>internal/logfield\<close>, the named
  fields of the entries. The logging library is not modelled: what it is given is.
\<close>

section \<open>Fields\<close>

text \<open>A field is its key and its value. Identifiers are the integers of their columns.\<close>

datatype field_value = StringValue string | UintValue nat | IntValue int

type_synonym log_field = "string \<times> field_value"

definition FieldToken :: string where "FieldToken = ''token''"
definition FieldUserID :: string where "FieldUserID = ''user_id''"
definition FieldGitlabID :: string where "FieldGitlabID = ''gitlab_id''"
definition FieldGitlabLogin :: string where "FieldGitlabLogin = ''gitlab_login''"
definition FieldProjectName :: string where "FieldProjectName = ''project_name''"
definition FieldProjectID :: string where "FieldProjectID = ''project_id''"
definition FieldPipelineID :: string where "FieldPipelineID = ''pipeline_id''"
definition FieldPipelineStatus :: string where "FieldPipelineStatus = ''pipeline_status''"

definition lf_Token :: "string \<Rightarrow> log_field" where "lf_Token token = (FieldToken, StringValue token)"
definition lf_UserID :: "nat \<Rightarrow> log_field" where "lf_UserID i = (FieldUserID, UintValue i)"
definition lf_GitlabID :: "int \<Rightarrow> log_field" where "lf_GitlabID i = (FieldGitlabID, IntValue i)"
definition lf_GitlabLogin :: "string \<Rightarrow> log_field" where "lf_GitlabLogin login = (FieldGitlabLogin, StringValue login)"
definition lf_ProjectName :: "string \<Rightarrow> log_field" where "lf_ProjectName name = (FieldProjectName, StringValue name)"
definition lf_ProjectID :: "int \<Rightarrow> log_field" where "lf_ProjectID i = (FieldProjectID, IntValue i)"
definition lf_PipelineID :: "int \<Rightarrow> log_field" where "lf_PipelineID i = (FieldPipelineID, IntValue i)"
definition lf_PipelineStatus :: "string \<Rightarrow> log_field" where "lf_PipelineStatus status = (FieldPipelineStatus, StringValue status)"

lemmas field_defs =
  FieldToken_def FieldUserID_def FieldGitlabID_def FieldGitlabLogin_def FieldProjectName_def FieldProjectID_def FieldPipelineID_def
  FieldPipelineStatus_def

section \<open>The logger\<close>

record LogConfig =
  lcLevel :: string
  lcFilename :: string
  lcMaxSize :: string
  lcMaxBackups :: goint
  lcMaxAgeDays :: goint
  lcDevelopment :: bool

text \<open>The writer, lumberjack.\<close>

record rotation =
  roFilename :: string
  roMaxSize :: goint
  roMaxBackups :: goint
  roMaxAge :: goint

text \<open>
  The keys of the parts of an entry, and what the library provides, by name: the line ending and the functions that print a level, a
  time, a duration and a caller.
\<close>

record EncoderConfig =
  ecTimeKey :: string
  ecLevelKey :: string
  ecNameKey :: string
  ecCallerKey :: string
  ecFunctionKey :: string
  ecMessageKey :: string
  ecStacktraceKey :: string
  ecProvided :: "string list"

datatype encoder = ConsoleEncoder EncoderConfig | JSONEncoder EncoderConfig

record logger =
  lgEncoder :: encoder
  lgWriter :: rotation
  lgLevel :: int
  lgStacktrace :: int

text \<open>Entries from this level on have the stack.\<close>

definition ErrorLevel :: int where "ErrorLevel = 2"

definition mebibyte :: int where "mebibyte = 1024 * 1024"

definition encoderConfig :: EncoderConfig where
  "encoderConfig =
     \<lparr>ecTimeKey = ''time'', ecLevelKey = ''level'', ecNameKey = ''logger'', ecCallerKey = ''caller'', ecFunctionKey = ''function'',
      ecMessageKey = ''message'', ecStacktraceKey = ''stacktrace'',
      ecProvided = [''DefaultLineEnding'', ''LowercaseLevelEncoder'', ''ISO8601TimeEncoder'', ''StringDurationEncoder'',
        ''ShortCallerEncoder'']\<rparr>"

text \<open>
  The first component is the package variable \<open>logger\<close>; \<open>Init\<close> declares a variable of the same name. The size of a file is
  given to the writer in whole mebibytes.
\<close>

definition Init ::
  "(string \<Rightarrow> gerror + goint) \<Rightarrow> (string \<Rightarrow> gerror + int) \<Rightarrow> LogConfig \<Rightarrow> logger option \<Rightarrow> logger option \<times> logger outcome" where
  "Init fromHumanSize unmarshalLevel config global =
     (case fromHumanSize (lcMaxSize config) of
        Inl e \<Rightarrow> (global, Fail e)
      | Inr maxSizeBytes \<Rightarrow>
          (case unmarshalLevel (lcLevel config) of
             Inl e \<Rightarrow> (global, Fail (Wrap ''failed to parse log level'' e))
           | Inr level \<Rightarrow>
               (global,
                Ret \<lparr>lgEncoder = (if lcDevelopment config then ConsoleEncoder encoderConfig else JSONEncoder encoderConfig),
                     lgWriter = \<lparr>roFilename = lcFilename config, roMaxSize = word_of_int (sint maxSizeBytes sdiv mebibyte),
                       roMaxBackups = lcMaxBackups config, roMaxAge = lcMaxAgeDays config\<rparr>,
                     lgLevel = level, lgStacktrace = ErrorLevel\<rparr>)))"

definition Sync :: "(logger \<Rightarrow> unit outcome) \<Rightarrow> logger option \<Rightarrow> unit outcome" where
  "Sync flush global = (case global of None \<Rightarrow> Ret () | Some l \<Rightarrow> flush l)"

text \<open>So the flush at the end of the program never happens.\<close>

lemma Sync_never_flushes: "fst (Init fromHumanSize unmarshalLevel config global) = global"
    "Sync flush (fst (Init fromHumanSize unmarshalLevel config None)) = Ret ()"
  by (simp_all add: Init_def Sync_def split: sum.split)

text \<open>
  The size that the writer gets is rounded down to mebibytes; a limit below one mebibyte becomes 0, which the library
  documents to mean its default of 100 megabytes.
\<close>

lemma Init_small_size:
  assumes "Init fromHumanSize unmarshalLevel config global = (g, Ret l)" "fromHumanSize (lcMaxSize config) = Inr n"
    and "0 \<le> sint n" "sint n < mebibyte"
  shows "roMaxSize (lgWriter l) = 0"
proof -
  have "sint n div mebibyte = 0" using assms(3,4) by (rule div_pos_pos_trivial)
  then have "sint n sdiv mebibyte = 0" using assms(3) by (simp add: signed_divide_int_def mebibyte_def sgn_if)
  with assms(2) show ?thesis using assms(1) by (simp add: Init_def split: sum.splits) auto
qed

text \<open>The keys of an entry: no field takes the place of a part of the entry or of another field.\<close>

definition entry_keys :: "EncoderConfig \<Rightarrow> string list" where
  "entry_keys ec = [ecTimeKey ec, ecLevelKey ec, ecNameKey ec, ecCallerKey ec, ecFunctionKey ec, ecMessageKey ec, ecStacktraceKey ec]"

lemma keys_distinct:
  "distinct (entry_keys encoderConfig @ [FieldToken, FieldUserID, FieldGitlabID, FieldGitlabLogin, FieldProjectName, FieldProjectID,
     FieldPipelineID, FieldPipelineStatus])"
  by (simp add: entry_keys_def encoderConfig_def field_defs)

section \<open>Rotation on a signal\<close>

text \<open>
  The channel of signals holds one; \<open>signal.Notify\<close> does not wait, so a signal that finds it full is dropped. A goroutine takes a
  signal from the channel and rotates the file. An error of the rotation is dropped.
\<close>

record rotator =
  rtPending :: bool
  rtRotating :: bool

datatype log_event = Sighup | RotateStart | RotateEnd

definition start_rotator :: rotator where
  "start_rotator = \<lparr>rtPending = False, rtRotating = False\<rparr>"

inductive rotator_step :: "rotator \<Rightarrow> log_event \<Rightarrow> rotator \<Rightarrow> bool" where
  notify: "rotator_step r Sighup (r\<lparr>rtPending := True\<rparr>)"
| receive: "rtPending r \<Longrightarrow> \<not> rtRotating r \<Longrightarrow> rotator_step r RotateStart (r\<lparr>rtPending := False, rtRotating := True\<rparr>)"
| rotated: "rtRotating r \<Longrightarrow> rotator_step r RotateEnd (r\<lparr>rtRotating := False\<rparr>)"

code_pred (modes: i \<Rightarrow> i \<Rightarrow> o \<Rightarrow> bool) rotator_step .

inductive_simps rotator_step_simps [simp]:
  "rotator_step r Sighup r'" "rotator_step r RotateStart r'" "rotator_step r RotateEnd r'"

text \<open>The states after a sequence of events.\<close>

inductive rotator_run :: "log_event list \<Rightarrow> rotator \<Rightarrow> bool" where
  start: "rotator_run [] start_rotator"
| more: "rotator_run es r \<Longrightarrow> rotator_step r e r' \<Longrightarrow> rotator_run (es @ [e]) r'"

text \<open>How often the file was rotated; the events after which no rotation has begun; those after which none has ended.\<close>

abbreviation starts :: "log_event list \<Rightarrow> nat" where "starts es \<equiv> count_list es RotateStart"

definition since_start :: "log_event list \<Rightarrow> log_event list" where
  "since_start es = rev (takeWhile (\<lambda>e. e \<noteq> RotateStart) (rev es))"

lemma since_start_simps [simp]:
  "since_start [] = []"
  "since_start (es @ [e]) = (if e = RotateStart then [] else since_start es @ [e])"
  by (simp_all add: since_start_def)

lemma rotator_run_invariant:
  "rotator_run es r \<Longrightarrow>
     (rtPending r \<longleftrightarrow> Sighup \<in> set (since_start es))
     \<and> starts es + of_bool (rtPending r) \<le> count_list es Sighup
     \<and> starts es = count_list es RotateEnd + of_bool (rtRotating r)"
  by (induction rule: rotator_run.induct)
    (auto simp: start_rotator_def count_list_append elim!: rotator_step.cases)

lemma since_start_split:
  "es = pre @ e # post \<Longrightarrow> RotateStart \<notin> set post \<Longrightarrow> e \<noteq> RotateStart \<Longrightarrow> e \<in> set (since_start es)"
  by (auto simp: since_start_def takeWhile_append)

text \<open>
  The file is rotated at most once for a signal. No signal is lost for good: whatever was dropped, as long as no rotation has
  begun after a signal one is pending, and the goroutine can go on; it rests only when a rotation has begun after every signal and
  has ended.
\<close>

theorem signals_rotate:
  assumes "rotator_run es r"
  shows "starts es \<le> count_list es Sighup
    \<and> (\<forall>pre post. es = pre @ Sighup # post \<longrightarrow> RotateStart \<notin> set post \<longrightarrow> rtPending r)
    \<and> (rtPending r \<or> rtRotating r \<longleftrightarrow> (\<exists>e r'. e \<noteq> Sighup \<and> rotator_step r e r'))
    \<and> ((\<forall>e r'. rotator_step r e r' \<longrightarrow> e = Sighup) \<longrightarrow>
        starts es = count_list es RotateEnd \<and> (\<forall>pre post. es = pre @ Sighup # post \<longrightarrow> RotateStart \<in> set post))"
proof -
  note inv = rotator_run_invariant [OF assms]
  have pending: "rtPending r" if "es = pre @ Sighup # post" "RotateStart \<notin> set post" for pre post
    using inv since_start_split [OF that] by simp
  have own: "rtPending r \<or> rtRotating r \<longleftrightarrow> (\<exists>e r'. e \<noteq> Sighup \<and> rotator_step r e r')"
    by (auto simp: rotator_step.simps)
  moreover have "starts es = count_list es RotateEnd \<and> (\<forall>pre post. es = pre @ Sighup # post \<longrightarrow> RotateStart \<in> set post)"
    if "\<forall>e r'. rotator_step r e r' \<longrightarrow> e = Sighup"
  proof -
    from that own have "\<not> rtPending r" "\<not> rtRotating r" by blast+
    with inv pending show ?thesis by auto
  qed
  ultimately show ?thesis using inv pending by auto
qed

text \<open>A signal during a rotation leads to another one; two of them to one.\<close>

lemma signals_rotate_witness:
  "rotator_run [Sighup, RotateStart, Sighup, Sighup, RotateEnd] \<lparr>rtPending = True, rtRotating = False\<rparr>
   \<and> starts [Sighup, RotateStart, Sighup, Sighup, RotateEnd] \<le> 3"
proof -
  have run: "rotator_run ([] @ [Sighup] @ [RotateStart] @ [Sighup] @ [Sighup] @ [RotateEnd]) \<lparr>rtPending = True, rtRotating = False\<rparr>"
    unfolding append_assoc [symmetric]
    by (rule rotator_run.more, rule rotator_run.more, rule rotator_run.more, rule rotator_run.more, rule rotator_run.more, rule rotator_run.start)
      (auto simp: start_rotator_def)
  from run signals_rotate [OF run] show ?thesis by simp
qed

end
