(* ===== verification/TgBot.thy ===== *)
theory TgBot
  imports GoText DatabaseHistory
begin

text \<open>
  Package \<open>internal/tgbot\<close>: a bot that tells the teachers who has written a forwarded message, and the Telegram account of a
  student. The Telegram library is a parameter: the command that it finds in a message, and the result of sending.
\<close>

section \<open>Messages\<close>

text \<open>A message: its sender, if any, the command and its arguments, and the author of a forwarded message.\<close>

record message =
  mgID :: int
  mgChat :: int
  mgFrom :: "string option"
  mgCommand :: string
  mgArguments :: string
  mgForwardFrom :: "int option"

text \<open>An update may be about something else than a message.\<close>

type_synonym update = "message option"

text \<open>What is sent, always in the second version of Telegram's Markdown.\<close>

record reply =
  rpChat :: int
  rpReplyTo :: int
  rpText :: string

type_synonym send = "reply \<Rightarrow> gerror option"
type_synonym handled_update = "reply list \<times> unit outcome"

definition ReplyTo :: "send \<Rightarrow> message \<Rightarrow> string \<Rightarrow> handled_update" where
  "ReplyTo send m s =
     (let r = \<lparr>rpChat = mgChat m, rpReplyTo = mgID m, rpText = s\<rparr>
      in ([r], case send r of None \<Rightarrow> Ret () | Some e \<Rightarrow> Fail e))"

section \<open>Commands\<close>

definition whois_text :: "User \<Rightarrow> string" where
  "whois_text user =
     (case usTelegramID user of
        None \<Rightarrow> ''User '' @ usFirstName user @ '' '' @ usLastName user @ '' does not have Telegram account''
      | Some tid \<Rightarrow> ''['' @ usFirstName user @ '' '' @ usLastName user @ ''](tg://user?id='' @ Itoa tid @ '')'')"

definition handleWhois :: "driver \<Rightarrow> send \<Rightarrow> DB \<Rightarrow> message \<Rightarrow> handled_update" where
  "handleWhois d send db m =
     (case strings_Cut (mgArguments m) (CHR '':'') of
        None \<Rightarrow> ReplyTo send m ''Unknown message''
      | Some (system, name) \<Rightarrow>
          if system = ''gitlab'' then
            (case FindUserByGitlabLogin d name db of
               Fail e \<Rightarrow> ([], Fail e)
             | Panic msg \<Rightarrow> ([], Panic msg)
             | Ret user \<Rightarrow> ReplyTo send m (whois_text user))
          else ReplyTo send m (''Unknown system '' @ system))"

definition handleCommand :: "driver \<Rightarrow> send \<Rightarrow> DB \<Rightarrow> message \<Rightarrow> handled_update" where
  "handleCommand d send db m = (if mgCommand m = ''whois'' then handleWhois d send db m else ([], Ret ()))"

section \<open>Updates\<close>

text \<open>The nil pointers: a message without a sender, and a user without the Telegram account it was found by.\<close>

definition handleUpdate :: "driver \<Rightarrow> send \<Rightarrow> DB \<Rightarrow> update \<Rightarrow> handled_update" where
  "handleUpdate d send db upd =
     (case upd of
        None \<Rightarrow> ([], Ret ())
      | Some m \<Rightarrow>
          if mgFrom m = None then ([], Panic ''nil pointer dereference'')
          else if mgCommand m \<noteq> [] then handleCommand d send db m
          else
            (case mgForwardFrom m of
               None \<Rightarrow> ([], Ret ())
             | Some author \<Rightarrow>
                 (case FindUserByTelegramID d author db of
                    Fail e \<Rightarrow> ReplyTo send m ''Failed to find user by telegram ID, try again later''
                  | Panic msg \<Rightarrow> ([], Panic msg)
                  | Ret None \<Rightarrow> ReplyTo send m ''The message is from unknown user''
                  | Ret (Some user) \<Rightarrow>
                      (case usTelegramID user of
                         None \<Rightarrow> ([], Panic ''nil pointer dereference'')
                       | Some tid \<Rightarrow>
                           ReplyTo send m (''The message is from '' @ usFirstName user @ '' '' @ usLastName user
                             @ '' (telegram id: '' @ Itoa tid @ '')'')))))"

section \<open>The bot\<close>

text \<open>Without a configuration there is no bot; connecting may fail.\<close>

definition NewBot :: "string option \<Rightarrow> (string \<Rightarrow> gerror option) \<Rightarrow> bool outcome" where
  "NewBot telegram connect =
     (case telegram of
        None \<Rightarrow> Ret False
      | Some token \<Rightarrow> (case connect token of None \<Rightarrow> Ret True | Some e \<Rightarrow> Fail e))"

text \<open>
  The loop over the updates until the context is done, each with the database it finds: all replies, and whether the
  goroutine, and so the program, has panicked. An error of an update is logged.
\<close>

fun bot_updates :: "driver \<Rightarrow> send \<Rightarrow> (DB \<times> update) list \<Rightarrow> handled_update" where
  "bot_updates d send [] = ([], Ret ())"
| "bot_updates d send ((db, upd) # updates) =
     (case handleUpdate d send db upd of
        (rs, Panic msg) \<Rightarrow> (rs, Panic msg)
      | (rs, _) \<Rightarrow> (case bot_updates d send updates of (rs', res) \<Rightarrow> (rs @ rs', res)))"

definition bot_Run :: "driver \<Rightarrow> bool \<Rightarrow> send \<Rightarrow> (DB \<times> update) list \<Rightarrow> handled_update" where
  "bot_Run d exists send updates = (if exists then bot_updates d send updates else ([], Ret ()))"

section \<open>Who is who\<close>

lemma ReplyTo_simps [simp]:
  "fst (ReplyTo send m s) = [\<lparr>rpChat = mgChat m, rpReplyTo = mgID m, rpText = s\<rparr>]"
  "snd (ReplyTo send m s) \<noteq> Panic msg"
  by (auto simp: ReplyTo_def Let_def split: option.split)

lemma find_login:
  assumes "lawful_driver d" "db_ok db" "FindUserByGitlabLogin d name db = Ret user"
    and "u \<in> set (dbUsers db)" "usGitlabLogin u = Some name"
  shows "user = u"
proof -
  from assms(3) have "sqFirst (drUsers d) (\<lambda>r. usGitlabLogin r = Some name \<and> live r) (dbUsers db) = Inr user"
    by (simp add: FindUserByGitlabLogin_def)
  from lawful_firstD [OF lawful_driverD(1) [OF assms(1)] this] have "user \<in> set (dbUsers db)" "usGitlabLogin user = Some name" by auto
  with unique_key_eq [OF db_okD(2) [OF assms(2)] _ assms(4) _ assms(5)] show ?thesis by simp
qed

text \<open>The driver reports a missing record by the plain error, as gorm documents it.\<close>

definition plain_not_found :: "driver \<Rightarrow> bool" where
  "plain_not_found d \<longleftrightarrow>
     (\<forall>P rows e. sqFirst (drUsers d) P rows = Inl e \<longrightarrow> IsRecordNotFound e \<longrightarrow> e = ErrRecordNotFound)"

lemma find_telegram:
  assumes "lawful_driver d" "plain_not_found d"
  shows "FindUserByTelegramID d author db = Ret (Some user) \<Longrightarrow> user \<in> set (dbUsers db) \<and> usTelegramID user = Some author \<and> live user"
    and "FindUserByTelegramID d author db = Ret None \<Longrightarrow> u \<in> set (dbUsers db) \<Longrightarrow> live u \<Longrightarrow> usTelegramID u \<noteq> Some author"
    and "FindUserByTelegramID d author db \<noteq> Panic msg"
proof -
  let ?P = "\<lambda>r. usTelegramID r = Some author \<and> live r"
  note law = lawful_driverD(1) [OF assms(1)]
  show "user \<in> set (dbUsers db) \<and> usTelegramID user = Some author \<and> live user" if "FindUserByTelegramID d author db = Ret (Some user)"
  proof -
    from that have "sqFirst (drUsers d) ?P (dbUsers db) = Inr user"
      by (simp add: FindUserByTelegramID_def split: sum.splits if_splits)
    from lawful_firstD [OF law this] show ?thesis by simp
  qed
  show "usTelegramID u \<noteq> Some author" if "FindUserByTelegramID d author db = Ret None" "u \<in> set (dbUsers db)" "live u"
  proof -
    from that(1) obtain e where "sqFirst (drUsers d) ?P (dbUsers db) = Inl e" "IsRecordNotFound e"
      by (auto simp: FindUserByTelegramID_def split: sum.splits if_splits)
    with assms(2) have "sqFirst (drUsers d) ?P (dbUsers db) = Inl ErrRecordNotFound" by (auto simp: plain_not_found_def)
    from lawful_missingD [OF law this that(2)] that(3) show ?thesis by auto
  qed
  show "FindUserByTelegramID d author db \<noteq> Panic msg" by (auto simp: FindUserByTelegramID_def split: sum.splits)
qed

text \<open>
  C31. The bot answers a message with a sender at most once, in its chat and to the message itself, and never panics on it. Asked for
  the student of a GitLab login it names the one that has it, if there is one; told of a forwarded message it
  names a student who has the author's Telegram account, and an unknown user only if no student has.
\<close>

theorem bot_answers:
  assumes "lawful_driver d" "plain_not_found d" "db_ok db" "mgFrom m \<noteq> None" "handleUpdate d send db (Some m) = (rs, res)"
  shows "(rs = [] \<or> (\<exists>s. rs = [\<lparr>rpChat = mgChat m, rpReplyTo = mgID m, rpText = s\<rparr>])) \<and> (\<forall>msg. res \<noteq> Panic msg)
    \<and> (\<forall>name u r. mgCommand m = ''whois'' \<longrightarrow> mgArguments m = ''gitlab:'' @ name \<longrightarrow> u \<in> set (dbUsers db) \<longrightarrow>
         usGitlabLogin u = Some name \<longrightarrow> r \<in> set rs \<longrightarrow> rpText r = whois_text u)
    \<and> (\<forall>author r. mgCommand m = [] \<longrightarrow> mgForwardFrom m = Some author \<longrightarrow> r \<in> set rs \<longrightarrow>
         rpText r = ''Failed to find user by telegram ID, try again later''
       \<or> rpText r = ''The message is from unknown user'' \<and> (\<forall>u \<in> set (dbUsers db). live u \<longrightarrow> usTelegramID u \<noteq> Some author)
       \<or> (\<exists>u \<in> set (dbUsers db). usTelegramID u = Some author
            \<and> rpText r = ''The message is from '' @ usFirstName u @ '' '' @ usLastName u @ '' (telegram id: '' @ Itoa author @ '')''))"
proof -
  note tg = find_telegram [OF assms(1,2)]
  have panics: "FindUserByGitlabLogin d name db \<noteq> Panic msg" for name msg
    by (cases "sqFirst (drUsers d) (\<lambda>r. usGitlabLogin r = Some name \<and> live r) (dbUsers db)") (simp_all add: FindUserByGitlabLogin_def)
  have once: "rs = [] \<or> (\<exists>s. rs = [\<lparr>rpChat = mgChat m, rpReplyTo = mgID m, rpText = s\<rparr>])" "\<forall>msg. res \<noteq> Panic msg"
    using assms(4,5) panics tg(1,3)
    by (auto simp: handleUpdate_def handleCommand_def handleWhois_def ReplyTo_def Let_def split: if_splits option.splits outcome.splits prod.splits)
  have whois: "rpText r = whois_text u"
    if "mgCommand m = ''whois''" "mgArguments m = ''gitlab:'' @ name" "u \<in> set (dbUsers db)" "usGitlabLogin u = Some name" "r \<in> set rs" for name u r
  proof -
    have "strings_Cut (mgArguments m) (CHR '':'') = Some (''gitlab'', name)"
      using strings_Cut_append [of "CHR '':''" "''gitlab''" name] that(2) by simp
    then show ?thesis
      using that assms(4,5) panics find_login [OF assms(1,3) _ that(3,4)]
      by (auto simp: handleUpdate_def handleCommand_def handleWhois_def ReplyTo_def Let_def split: outcome.splits)
  qed
  have forwarded: "rpText r = ''Failed to find user by telegram ID, try again later''
       \<or> rpText r = ''The message is from unknown user'' \<and> (\<forall>u \<in> set (dbUsers db). live u \<longrightarrow> usTelegramID u \<noteq> Some author)
       \<or> (\<exists>u \<in> set (dbUsers db). usTelegramID u = Some author
            \<and> rpText r = ''The message is from '' @ usFirstName u @ '' '' @ usLastName u @ '' (telegram id: '' @ Itoa author @ '')'')"
    if "mgCommand m = []" "mgForwardFrom m = Some author" "r \<in> set rs" for author r
    using that assms(4,5) tg [of author db]
    by (cases "FindUserByTelegramID d author db") (auto simp: handleUpdate_def ReplyTo_def Let_def split: option.splits)
  from once whois forwarded show ?thesis by blast
qed

definition whois_message :: message where
  "whois_message =
     \<lparr>mgID = 1, mgChat = 2, mgFrom = Some ''teacher'', mgCommand = ''whois'', mgArguments = ''gitlab:a'', mgForwardFrom = None\<rparr>"

lemma bot_answers_witness:
  "\<exists>rs u. handleUpdate mem_driver (\<lambda>r. None) linked_db (Some whois_message) = (rs, Ret ()) \<and> length rs = 1
     \<and> u \<in> set (dbUsers linked_db) \<and> rpText (hd rs) = whois_text u"
proof -
  obtain u where u: "u \<in> set (dbUsers linked_db)" "usGitlabLogin u = Some ''a''" "FindUserByGitlabLogin mem_driver ''a'' linked_db = Ret u"
    by (simp add: linked_db_def sample_db_def sample_user_def new_user_def SetUserGitlabAccount_def FindUserByGitlabLogin_def mem_eval)
  define rs where "rs = [\<lparr>rpChat = 2, rpReplyTo = 1, rpText = whois_text u\<rparr>]"
  have h: "handleUpdate mem_driver (\<lambda>r. None) linked_db (Some whois_message) = (rs, Ret ())"
    using u(3) by (simp add: handleUpdate_def handleCommand_def handleWhois_def whois_message_def ReplyTo_def rs_def)
  have "mgFrom whois_message \<noteq> None" "mgCommand whois_message = ''whois''" "mgArguments whois_message = ''gitlab:'' @ ''a''"
    by (simp_all add: whois_message_def)
  moreover have "plain_not_found mem_driver" by (auto simp: plain_not_found_def mem_eval split: option.splits)
  ultimately have "rpText (hd rs) = whois_text u"
    using bot_answers [OF mem_driver_lawful _ linked_db_ok _ h] u(1,2) by (fastforce simp: rs_def)
  with h u(1) show ?thesis by (intro exI [of _ rs] exI [of _ u]) (simp add: rs_def)
qed

end
