(* ===== verification/Startup.thy ===== *)
theory Startup
  imports Configuration Logging TgBot Projects WebServer
begin

text \<open>
  The start of the server: the opening of the database, the clients for GitLab and for OAuth, and the
  function \<open>Run\<close> that builds the components one after the other, starts the goroutines and serves. Libraries are
  parameters, collected in a record: what they answer decides how far the program gets.
\<close>

section \<open>Configuration\<close>

record ServerConfig =
  seListenAddress :: string
  seCourseName :: string
  seHeaderName :: string
  seAuthenticationKey :: string
  seEncryptionKey :: string

record DataBaseConfig =
  dcHost :: string
  dcPort :: "16 word"
  dcUser :: string
  dcPass :: string
  dcName :: string

text \<open>Only the interval of the deadlines is not optional.\<close>

record PullIntervalsConfig =
  piDeadlines :: duration
  piProjects :: "duration option"
  piPipelines :: "duration option"

text \<open>The configuration of the handlers, and what only the start needs.\<close>

record AppConfig = Config +
  apLog :: LogConfig
  apGitLab :: GitLabConfig
  apClientID :: string
  apSecret :: string
  apToken :: string
  apServer :: ServerConfig
  apDataBase :: DataBaseConfig
  apPullIntervals :: PullIntervalsConfig

section \<open>The database\<close>

definition data_source :: "DataBaseConfig \<Rightarrow> string" where
  "data_source c =
     ''postgresql://'' @ dcUser c @ '':'' @ dcPass c @ ''@'' @ dcHost c @ '':'' @ Itoa (uint (dcPort c)) @ ''/'' @ dcName c"

definition OpenDataBase :: "(string \<Rightarrow> gerror + DB) \<Rightarrow> (DB \<Rightarrow> gerror + DB) \<Rightarrow> string \<Rightarrow> DB outcome" where
  "OpenDataBase gormOpen autoMigrate dsn =
     (case gormOpen dsn of
        Inl e \<Rightarrow> Fail e
      | Inr db \<Rightarrow> (case autoMigrate db of Inl e \<Rightarrow> Fail e | Inr db' \<Rightarrow> Ret db'))"

section \<open>OAuth\<close>

record oauth_conf =
  ocClientID :: string
  ocClientSecret :: string
  ocScopes :: "string list"
  ocAuthURL :: string
  ocTokenURL :: string
  ocRedirectURL :: string

text \<open>The two addresses.\<close>

definition makeGitlabOauthEndpoint :: "string \<Rightarrow> string \<times> string" where
  "makeGitlabOauthEndpoint baseurl = (baseurl @ ''/oauth/authorize'', baseurl @ ''/oauth/token'')"

definition NewAuthClient :: "AppConfig \<Rightarrow> oauth_conf" where
  "NewAuthClient conf =
     \<lparr>ocClientID = apClientID conf, ocClientSecret = apSecret conf, ocScopes = [''read_user''],
      ocAuthURL = fst (makeGitlabOauthEndpoint (glBaseURL (apGitLab conf))),
      ocTokenURL = snd (makeGitlabOauthEndpoint (glBaseURL (apGitLab conf))),
      ocRedirectURL = epHostName (cfEndpoints conf) @ epOauthCallback (cfEndpoints conf)\<rparr>"

text \<open>The library \<open>oauth2\<close>: the address to which a browser is sent with a state and an access type, and the exchange of a code.\<close>

record oauth2 =
  oaAuthCodeURL :: "oauth_conf \<Rightarrow> string \<Rightarrow> string \<Rightarrow> string"
  oaExchange :: "oauth_conf \<Rightarrow> string \<Rightarrow> gerror + string"

definition LoginURL :: "oauth2 \<Rightarrow> oauth_conf \<Rightarrow> string \<Rightarrow> string" where
  "LoginURL lib c state = oaAuthCodeURL lib c state ''online''"

definition Exchange :: "oauth2 \<Rightarrow> oauth_conf \<Rightarrow> string \<Rightarrow> gerror + string" where
  "Exchange lib c code = map_sum (Wrap ''Failed to get oauth2 token pair from GitLab'') id (oaExchange lib c code)"

text \<open>
  The user behind a token: making the client may fail, and so may the request; the response has a status code, its text, and the
  identifier and login of the user.
\<close>

record current_user =
  cuStatusCode :: int
  cuStatus :: string
  cuID :: int
  cuUsername :: string

definition GetOAuthGitLabUser ::
  "(string \<Rightarrow> string \<Rightarrow> gerror option) \<Rightarrow> (string \<Rightarrow> string \<Rightarrow> gerror + current_user) \<Rightarrow> string \<Rightarrow> string \<Rightarrow> gerror + int \<times> string" where
  "GetOAuthGitLabUser newOAuthClient currentUser token baseURL =
     (case newOAuthClient token baseURL of
        Some e \<Rightarrow> Inl (Wrap ''failed to create gitlab client'' e)
      | None \<Rightarrow>
          (case currentUser token baseURL of
             Inl e \<Rightarrow> Inl (Wrap ''failed to get current user'' e)
           | Inr u \<Rightarrow>
               if cuStatusCode u \<noteq> 200 then Inl (Errorf (''failed to get current user: '' @ cuStatus u))
               else Inr (cuID u, cuUsername u)))"

section \<open>The loops of the pipelines fetcher\<close>

text \<open>
  A tick is the server, the driver and the world that it finds; the other goroutines work between the ticks. The loop ends with the
  context. The result has the world after each tick.
\<close>

fun pipelines_loop :: "Client \<Rightarrow> (server \<times> driver \<times> world) list \<Rightarrow> (world list \<times> unit outcome) option" where
  "pipelines_loop c [] = Some ([], Ret ())"
| "pipelines_loop c ((sv, d, w) # ticks) =
     (case fetchAllPipelines c sv d w of
        None \<Rightarrow> None
      | Some (w', Panic m) \<Rightarrow> Some ([w'], Panic m)
      | Some (w', _) \<Rightarrow> map_option (\<lambda>(ws, res). (w' # ws, res)) (pipelines_loop c ticks))"

definition pipelines_Run ::
  "Client \<Rightarrow> duration option \<Rightarrow> (server \<times> driver \<times> world) list \<Rightarrow> (world list \<times> unit outcome) option" where
  "pipelines_Run c interval ticks =
     (case interval of
        None \<Rightarrow> Some ([], Ret ())
      | Some i \<Rightarrow> if i \<le> 0 then Some ([], Panic ''non-positive interval for NewTicker'') else pipelines_loop c ticks)"

text \<open>Here a tick also has the pipelines that were reported since the last one, and the order in which \<open>Range\<close> visits the entries.\<close>

type_synonym fresh_tick =
  "server \<times> driver \<times> (int \<times> string) list \<times> ((nat \<times> string \<times> int) list \<Rightarrow> (nat \<times> string \<times> int) list) \<times> world"

fun RunFresh :: "Client \<Rightarrow> fresh_tick list \<Rightarrow> PipelinesFetcher \<Rightarrow> world list \<times> PipelinesFetcher \<times> unit outcome" where
  "RunFresh c [] pf = ([], pf, Ret ())"
| "RunFresh c ((sv, d, added, order, w) # ticks) pf =
     (let pf' = fold (\<lambda>(i, project). AddFresh i project) added pf in
      case fetchFreshPipelines c sv d (order (pfFresh pf')) (pf', w) of
        ((pf'', w'), Panic m) \<Rightarrow> ([w'], pf'', Panic m)
      | ((pf'', w'), _) \<Rightarrow> (case RunFresh c ticks pf'' of (ws, r) \<Rightarrow> (w' # ws, r)))"

section \<open>The server\<close>

text \<open>The keys of the cookies. Only whether a key can be decoded is modelled of \<open>encoding/hex\<close>, and which of its errors there is.\<close>

definition hex_digit :: "char \<Rightarrow> nat option" where
  "hex_digit ch =
     (let b = byte ch in
      if 48 \<le> b \<and> b \<le> 57 then Some (b - 48)
      else if 97 \<le> b \<and> b \<le> 102 then Some (b - 87)
      else if 65 \<le> b \<and> b \<le> 70 then Some (b - 55)
      else None)"

fun hex_DecodeString :: "string \<Rightarrow> gerror + nat list" where
  "hex_DecodeString [] = Inr []"
| "hex_DecodeString [p] =
     (if hex_digit p = None then Inl (External ''encoding/hex: invalid byte'')
      else Inl (External ''encoding/hex: odd length hex string''))"
| "hex_DecodeString (p # q # s) =
     (case (hex_digit p, hex_digit q) of
        (Some a, Some b) \<Rightarrow> map_sum id (\<lambda>bs. (16 * a + b) # bs) (hex_DecodeString s)
      | _ \<Rightarrow> Inl (External ''encoding/hex: invalid byte''))"

definition setupAuth :: "ServerConfig \<Rightarrow> (nat list \<times> nat list) outcome" where
  "setupAuth config =
     (case hex_DecodeString (seAuthenticationKey config) of
        Inl e \<Rightarrow> Fail (Wrap ''Failed to decode hex authenticationKey'' e)
      | Inr authKey \<Rightarrow>
          (case hex_DecodeString (seEncryptionKey config) of
             Inl e \<Rightarrow> Fail (Wrap ''Failed to decode hex encryptionKey'' e)
           | Inr encryptKey \<Rightarrow> Ret (authKey, encryptKey)))"

text \<open>
  The libraries. gin may panic on the routes it is given (a path twice, say); listening ends with an error or not at all, and then
  the server serves for ever. GitLab's library may refuse the token or the address.
\<close>

record libraries =
  lbReadInConfig :: "string \<Rightarrow> gerror option"
  lbUnmarshal :: "string list \<Rightarrow> gerror + AppConfig"
  lbFromHumanSize :: "string \<Rightarrow> gerror + goint"
  lbUnmarshalLevel :: "string \<Rightarrow> gerror + int"
  lbGormOpen :: "string \<Rightarrow> gerror + DB"
  lbAutoMigrate :: "DB \<Rightarrow> gerror + DB"
  lbNewBotAPI :: "string \<Rightarrow> gerror option"
  lbYaml1 :: yaml_v1
  lbYaml2 :: yaml_v2
  lbGet :: http_get
  lbGitlab :: "string \<Rightarrow> string \<Rightarrow> gerror option"
  lbTranslit :: "string \<Rightarrow> string"
  lbExp :: "f64 \<Rightarrow> f64"
  lbUnicode :: unicode
  lbSort :: sort_slice
  lbOAuth :: oauth2
  lbOAuthClient :: "string \<Rightarrow> string \<Rightarrow> gerror option"
  lbCurrentUser :: "string \<Rightarrow> string \<Rightarrow> gerror + current_user"
  lbTelegramHash :: "string \<Rightarrow> string \<Rightarrow> string"
  lbTemplates :: "gerror option"
  lbRegister :: "(http_method \<times> string) list \<Rightarrow> string option"
  lbListen :: "string \<Rightarrow> gerror option"

definition gitlab_NewClient :: "libraries \<Rightarrow> AppConfig \<Rightarrow> Client outcome" where
  "gitlab_NewClient lb conf =
     (case lbGitlab lb (apToken conf) (glBaseURL (apGitLab conf)) of
        Some e \<Rightarrow> Fail (Wrap ''Failed to create gitlab client'' e)
      | None \<Rightarrow> Ret \<lparr>clConfig = apGitLab conf, clTranslit = lbTranslit lb\<rparr>)"

definition NewScorer :: "libraries \<Rightarrow> Fetcher \<Rightarrow> Client \<Rightarrow> Scorer" where
  "NewScorer lb deadlines git =
     \<lparr>scrExp = lbExp lb, scrUnicode = lbUnicode lb, scrProjects = client_names git, scrFetcher = deadlines\<rparr>"

text \<open>What does not change of the server that \<open>newServer\<close> makes; the part that requests change is \<open>newServer\<close> of the database.\<close>

definition server_of :: "libraries \<Rightarrow> AppConfig \<Rightarrow> Fetcher \<Rightarrow> Client \<Rightarrow> web_server" where
  "server_of lb conf deadlines git =
     (let auth = NewAuthClient conf in
      \<lparr>wsConfig = Config.truncate conf, wsGitlab = git, wsScorer = NewScorer lb deadlines git, wsSort = lbSort lb,
       wsLoginURL = LoginURL (lbOAuth lb) auth, wsExchange = Exchange (lbOAuth lb) auth,
       wsOAuthUser = (\<lambda>token. GetOAuthGitLabUser (lbOAuthClient lb) (lbCurrentUser lb) token (glBaseURL (apGitLab conf))),
       wsTelegramHash = lbTelegramHash lb\<rparr>)"

text \<open>\<open>run\<close>: templates, cookies, routes, and then the listening.\<close>

definition server_run :: "libraries \<Rightarrow> AppConfig \<Rightarrow> web_server \<Rightarrow> unit outcome" where
  "server_run lb conf srv =
     (case lbTemplates lb of
        Some e \<Rightarrow> Fail (Wrap ''Failed to build html templates'' e)
      | None \<Rightarrow>
          and_then (map_fail (Wrap ''Failed to setup auth'') (setupAuth (apServer conf))) (\<lambda>keys.
          case lbRegister lb (map fst (routes srv)) of
            Some msg \<Rightarrow> Panic msg
          | None \<Rightarrow> (case lbListen lb (seListenAddress (apServer conf)) of Some e \<Rightarrow> Fail e | None \<Rightarrow> Ret ())))"

section \<open>The program\<close>

text \<open>What \<open>Run\<close> builds before it starts anything.\<close>

record parts =
  ptConfig :: AppConfig
  ptLogger :: logger
  ptDB :: DB
  ptBot :: bool
  ptDeadlines :: Fetcher
  ptGitlab :: Client

definition build_parts :: "libraries \<Rightarrow> string \<Rightarrow> parts outcome" where
  "build_parts lb configPath =
     and_then (ParseConfig (lbReadInConfig lb) (lbUnmarshal lb) configPath) (\<lambda>config.
     and_then (map_fail (Wrap ''Failed to init logger'')
       (snd (Init (lbFromHumanSize lb) (lbUnmarshalLevel lb) (apLog config) None))) (\<lambda>logger.
     and_then (map_fail (Wrap ''Failed to open database'')
       (OpenDataBase (lbGormOpen lb) (lbAutoMigrate lb) (data_source (apDataBase config)))) (\<lambda>db.
     and_then (map_fail (Wrap ''failed to create telegram bot'') (NewBot (cfTelegram config) (lbNewBotAPI lb))) (\<lambda>bot.
     and_then (map_fail (Wrap ''Failed to create deadlines fetcher'')
       (NewFetcher (lbYaml1 lb) (lbYaml2 lb) (lbGet lb) (cfGroups config))) (\<lambda>deadlines.
     and_then (map_fail (Wrap ''Failed to create gitlab client'') (gitlab_NewClient lb config)) (\<lambda>git.
     Ret \<lparr>ptConfig = config, ptLogger = logger, ptDB = db, ptBot = bot, ptDeadlines = deadlines, ptGitlab = git\<rparr>))))))"

datatype goroutine = DeadlinesLoop | ProjectsLoop | PipelinesLoop | FreshLoop | BotLoop

definition goroutines :: "goroutine list" where
  "goroutines = [DeadlinesLoop, ProjectsLoop, PipelinesLoop, FreshLoop, BotLoop]"

text \<open>
  The goroutines that were started, the server with the state it starts from, and the result. Making the two
  components of package \<open>gitlab\<close> that run cannot fail.
\<close>

definition run_parts :: "libraries \<Rightarrow> parts \<Rightarrow> web_server \<times> web \<times> unit outcome" where
  "run_parts lb p =
     (let srv = server_of lb (ptConfig p) (ptDeadlines p) (ptGitlab p)
      in (srv, newServer (ptDB p), map_fail (Wrap ''Server failed'') (server_run lb (ptConfig p) srv)))"

definition web_Run :: "libraries \<Rightarrow> string \<Rightarrow> goroutine list \<times> (web_server \<times> web) option \<times> unit outcome" where
  "web_Run lb configPath =
     (case build_parts lb configPath of
        Fail e \<Rightarrow> ([], None, Fail e)
      | Panic m \<Rightarrow> ([], None, Panic m)
      | Ret p \<Rightarrow> (case run_parts lb p of (srv, w, res) \<Rightarrow> (goroutines, Some (srv, w), res)))"

end
