(* ===== verification/StartupSpec.thy ===== *)
theory StartupSpec
  imports Startup WebSample
begin

text \<open>
  What the start of the server guarantees: the address of the database determines its parts, the keys of the cookies are
  read or refused, and no goroutine runs before everything it uses is there.
\<close>

section \<open>Decimal numbers\<close>

lemma digits_value_append: "digits_value acc (s @ [c]) = 10 * digits_value acc s + (of_char c - 48)"
  by (induction s arbitrary: acc) simp_all

lemma of_char_chr: "n < 256 \<Longrightarrow> (of_char (chr n) :: int) = int n"
proof -
  assume "n < 256"
  then have "of_char (chr n) = n" by simp
  moreover have "(of_char (chr n) :: int) = of_nat (of_char (chr n))" by (rule of_nat_of_char [symmetric])
  ultimately show ?thesis by (simp only:)
qed

lemma digits_value_nat_digits: "digits_value 0 (nat_digits n) = int n"
proof (induction n rule: nat_digits.induct)
  case (1 n)
  show ?case
  proof (cases "n < 10")
    case True
    then show ?thesis by (subst nat_digits.simps) (simp add: of_char_chr)
  next
    case False
    have "10 * int (n div 10) + int (n mod 10) = int n"
      by (metis mult_div_mod_eq of_nat_add of_nat_mult of_nat_numeral)
    with False 1 show ?thesis by (subst nat_digits.simps) (simp add: digits_value_append of_char_chr)
  qed
qed

lemma nat_digits_chars: "list_all is_digit (nat_digits n)"
proof (induction n rule: nat_digits.induct)
  case (1 n)
  have "is_digit (chr (48 + n mod 10))" "n < 10 \<Longrightarrow> is_digit (chr (48 + n))" by (simp_all add: is_digit_def)
  with 1 show ?case by (cases "n < 10"; subst nat_digits.simps) simp_all
qed

lemma Itoa_inject: "0 \<le> i \<Longrightarrow> 0 \<le> j \<Longrightarrow> Itoa i = Itoa j \<longleftrightarrow> i = j"
  by (auto simp: Itoa_def dest: arg_cong [where f = "digits_value 0"] simp: digits_value_nat_digits)

lemma Itoa_digits: "0 \<le> i \<Longrightarrow> list_all is_digit (Itoa i)"
  by (simp add: Itoa_def nat_digits_chars)

section \<open>The address of the database\<close>

lemma split_at_first:
  "c \<notin> set xs \<Longrightarrow> c \<notin> set ys \<Longrightarrow> xs @ c # r = ys @ c # s \<longleftrightarrow> xs = ys \<and> r = s"
  by (auto simp: append_eq_append_conv2 Cons_eq_append_conv append_eq_Cons_conv)

definition plain_address :: "DataBaseConfig \<Rightarrow> bool" where
  "plain_address c \<longleftrightarrow> CHR '':'' \<notin> set (dcUser c) \<and> CHR ''@'' \<notin> set (dcPass c) \<and> CHR '':'' \<notin> set (dcHost c)"

lemma Itoa_no_slash: "0 \<le> i \<Longrightarrow> CHR ''/'' \<notin> set (Itoa i)"
  using Itoa_digits [of i] by (auto simp: list_all_iff is_digit_def)

text \<open>
  The address that is opened determines the host, the port, the user, the password and the name of the database, as long
  as the user and the host contain no colon and the password no at sign. The program does not check or escape them.
\<close>

theorem data_source_injective:
  assumes "plain_address c" "plain_address c'" "data_source c = data_source c'"
  shows "c = c'"
proof -
  from assms have "dcUser c = dcUser c' \<and> dcPass c @ ''@'' @ dcHost c @ '':'' @ Itoa (uint (dcPort c)) @ ''/'' @ dcName c
      = dcPass c' @ ''@'' @ dcHost c' @ '':'' @ Itoa (uint (dcPort c')) @ ''/'' @ dcName c'"
    by (simp add: data_source_def plain_address_def split_at_first)
  with assms have "dcUser c = dcUser c' \<and> dcPass c = dcPass c' \<and> dcHost c = dcHost c' \<and>
      Itoa (uint (dcPort c)) = Itoa (uint (dcPort c')) \<and> dcName c = dcName c'"
    by (simp add: plain_address_def split_at_first Itoa_no_slash)
  then show ?thesis by (simp add: Itoa_inject word_uint_eq_iff)
qed

definition sample_address :: DataBaseConfig where
  "sample_address = \<lparr>dcHost = ''db'', dcPort = 5432, dcUser = ''u'', dcPass = ''p'', dcName = ''n''\<rparr>"

lemma data_source_injective_witness:
  "data_source sample_address \<noteq> data_source (sample_address\<lparr>dcHost := ''dc''\<rparr>) \<and> sample_address = sample_address"
proof -
  have "plain_address sample_address" "plain_address (sample_address\<lparr>dcHost := ''dc''\<rparr>)"
    by (simp_all add: plain_address_def sample_address_def)
  moreover have "sample_address \<noteq> sample_address\<lparr>dcHost := ''dc''\<rparr>" by (simp add: sample_address_def)
  ultimately show ?thesis
    using data_source_injective [of sample_address sample_address] data_source_injective [of sample_address "sample_address\<lparr>dcHost := ''dc''\<rparr>"]
    by blast
qed

text \<open>An at sign in the password moves the border to the host.\<close>

lemma address_ambiguous:
  "data_source (sample_address\<lparr>dcPass := ''p@q''\<rparr>) = data_source (sample_address\<lparr>dcHost := ''q@db''\<rparr>)"
  by (simp add: data_source_def sample_address_def)

section \<open>The keys of the cookies\<close>

lemma map_sum_Inr_iff: "map_sum f g x = Inr y \<longleftrightarrow> (\<exists>z. x = Inr z \<and> y = g z)"
  by (cases x) auto

lemma hex_DecodeString_ok:
  "(\<exists>bs. hex_DecodeString s = Inr bs) \<longleftrightarrow> even (length s) \<and> (\<forall>ch \<in> set s. hex_digit ch \<noteq> None)"
  by (induction s rule: hex_DecodeString.induct) (auto simp: map_sum_Inr_iff split: option.split)

lemma hex_digit_bound: "hex_digit ch = Some a \<Longrightarrow> a < 16"
  by (auto simp: hex_digit_def Let_def split: if_splits)

lemma hex_DecodeString_bytes:
  "hex_DecodeString s = Inr bs \<Longrightarrow> length s = 2 * length bs \<and> (\<forall>b \<in> set bs. b < 256)"
proof (induction s arbitrary: bs rule: hex_DecodeString.induct)
  case (3 p q s)
  then obtain a b bs' where ab: "hex_digit p = Some a" "hex_digit q = Some b" "hex_DecodeString s = Inr bs'" "bs = (16 * a + b) # bs'"
    by (auto split: option.splits simp: map_sum_Inr_iff)
  from 3(1) [OF refl ab(1,2,3)] ab(4) hex_digit_bound [OF ab(1)] hex_digit_bound [OF ab(2)] show ?case by auto
qed (simp_all split: if_splits)

lemma setupAuth_ok:
  "(\<exists>a e. setupAuth config = Ret (a, e)) \<longleftrightarrow>
     (\<forall>key \<in> {seAuthenticationKey config, seEncryptionKey config}. even (length key) \<and> (\<forall>ch \<in> set key. hex_digit ch \<noteq> None))"
proof -
  have "(\<exists>a e. setupAuth config = Ret (a, e)) \<longleftrightarrow>
      (\<exists>a. hex_DecodeString (seAuthenticationKey config) = Inr a) \<and> (\<exists>e. hex_DecodeString (seEncryptionKey config) = Inr e)"
    by (auto simp: setupAuth_def split: sum.splits)
  then show ?thesis by (simp add: hex_DecodeString_ok)
qed

section \<open>The loops of the pipelines fetcher\<close>

text \<open>Against servers whose pages make progress the loop takes every tick, unless a pass panics.\<close>

lemma pipelines_loop_returns:
  "\<forall>t \<in> set ticks. \<exists>N. listings_paged N (fst t) \<Longrightarrow>
     \<exists>ws res. pipelines_loop c ticks = Some (ws, res) \<and> length ws \<le> length ticks \<and> (res = Ret () \<longrightarrow> length ws = length ticks)"
proof (induction ticks)
  case (Cons t ticks)
  obtain sv d w where t: "t = (sv, d, w)" by (cases t)
  with Cons.prems obtain N where paged: "listings_paged N sv" by auto
  have "forEachProject c sv (\<lambda>project. project_pipelines sv d project 0) 0 w \<noteq> None"
    by (rule forEachProject_returns [OF paged project_pipelines_returns [OF paged]])
  then obtain w' res where pass: "fetchAllPipelines c sv d w = Some (w', res)" by (auto simp: fetchAllPipelines_def)
  from Cons obtain ws rest where "pipelines_loop c ticks = Some (ws, rest)" "length ws \<le> length ticks"
    "rest = Ret () \<longrightarrow> length ws = length ticks" by auto
  with pass show ?case by (cases res) (simp_all add: t)
qed simp

lemma AddFresh_entries: "snd ` set (pfFresh (AddFresh i project pf)) = insert (project, i) (snd ` set (pfFresh pf))"
  by (auto simp: AddFresh_def)

lemma fold_AddFresh_entries:
  "snd ` set (pfFresh (fold (\<lambda>(i, project). AddFresh i project) added pf))
     = (\<lambda>(i, project). (project, i)) ` set added \<union> snd ` set (pfFresh pf)"
proof (induction added arbitrary: pf)
  case (Cons a added)
  then show ?case by (cases a) (simp add: AddFresh_entries)
qed simp

lemma fetchFreshPipelines_shrinks:
  "set (pfFresh (fst (fst (fetchFreshPipelines c sv d visited s)))) \<subseteq> set (pfFresh (fst s))"
  by (auto simp: fetchFreshPipelines_def split: prod.split outcome.split)

text \<open>Whatever is polled was reported, or waited at the start.\<close>

lemma RunFresh_reported:
  assumes "(project, i) \<in> snd ` set (pfFresh (fst (snd (RunFresh c ticks pf))))"
  shows "(project, i) \<in> snd ` set (pfFresh pf) \<or> (\<exists>(sv, d, added, order, w) \<in> set ticks. (i, project) \<in> set added)"
  using assms
proof (induction ticks arbitrary: pf)
  case (Cons t ticks)
  obtain sv d added order w where t: "t = (sv, d, added, order, w)" by (cases t)
  define pf' where "pf' = fold (\<lambda>(i, project). AddFresh i project) added pf"
  obtain pf'' w' res where poll: "fetchFreshPipelines c sv d (order (pfFresh pf')) (pf', w) = ((pf'', w'), res)"
    by (metis prod.exhaust)
  from fetchFreshPipelines_shrinks [of c sv d "order (pfFresh pf')" "(pf', w)"] poll
  have "snd ` set (pfFresh pf'') \<subseteq> snd ` set (pfFresh pf')" by auto
  moreover have "snd ` set (pfFresh pf') = (\<lambda>(i, project). (project, i)) ` set added \<union> snd ` set (pfFresh pf)"
    unfolding pf'_def by (rule fold_AddFresh_entries)
  moreover have "(project, i) \<in> snd ` set (pfFresh pf'') \<or> (\<exists>(sv, d, added, order, w) \<in> set ticks. (i, project) \<in> set added)"
    using Cons.IH [of pf''] Cons.prems poll by (cases res) (auto simp: t pf'_def [symmetric] Let_def split: prod.splits)
  ultimately show ?case by (auto simp: t)
qed simp

section \<open>The order of the start\<close>

definition plans_for :: "GroupConfig list \<Rightarrow> Fetcher \<Rightarrow> bool" where
  "plans_for groups f \<longleftrightarrow>
     (\<forall>n. GroupDeadlines f n \<noteq> None \<longleftrightarrow> n \<in> gcName ` set groups) \<and>
     (\<forall>n d. GroupDeadlines f n = Some d \<longrightarrow> (\<exists>d0. buildScoringGroups d0 = Ret d))"

lemma NewFetcher_plans: "NewFetcher yaml1 yaml2 get groups = Ret f \<Longrightarrow> plans_for groups f"
  unfolding plans_for_def by (metis NewFetcher_serves serves_GroupDeadlines)

lemma NewBot_Ret: "NewBot telegram connect = Ret b \<Longrightarrow> telegram = Some token \<Longrightarrow> connect token = None"
  by (auto simp: NewBot_def split: option.splits)

lemma gitlab_NewClient_Ret: "gitlab_NewClient lb conf = Ret git \<Longrightarrow> lbGitlab lb (apToken conf) (glBaseURL (apGitLab conf)) = None"
  by (auto simp: gitlab_NewClient_def split: option.splits)

lemma build_parts_ok:
  assumes "build_parts lb path = Ret p"
  shows "ParseConfig (lbReadInConfig lb) (lbUnmarshal lb) path = Ret (ptConfig p) \<and>
    OpenDataBase (lbGormOpen lb) (lbAutoMigrate lb) (data_source (apDataBase (ptConfig p))) = Ret (ptDB p) \<and>
    (\<forall>token. cfTelegram (ptConfig p) = Some token \<longrightarrow> lbNewBotAPI lb token = None) \<and>
    plans_for (cfGroups (ptConfig p)) (ptDeadlines p) \<and>
    lbGitlab lb (apToken (ptConfig p)) (glBaseURL (apGitLab (ptConfig p))) = None"
proof -
  from assms obtain bot where
    "ParseConfig (lbReadInConfig lb) (lbUnmarshal lb) path = Ret (ptConfig p)"
    "OpenDataBase (lbGormOpen lb) (lbAutoMigrate lb) (data_source (apDataBase (ptConfig p))) = Ret (ptDB p)"
    "NewBot (cfTelegram (ptConfig p)) (lbNewBotAPI lb) = Ret bot"
    "NewFetcher (lbYaml1 lb) (lbYaml2 lb) (lbGet lb) (cfGroups (ptConfig p)) = Ret (ptDeadlines p)"
    "gitlab_NewClient lb (ptConfig p) = Ret (ptGitlab p)"
    by (auto simp: build_parts_def map_fail_Ret_iff)
  then show ?thesis using NewBot_Ret NewFetcher_plans gitlab_NewClient_Ret by blast
qed

lemma run_parts_ok:
  "snd (snd (run_parts lb p)) = Ret () \<Longrightarrow> lbListen lb (seListenAddress (apServer (ptConfig p))) = None"
  by (simp add: run_parts_def Let_def map_fail_Ret_iff server_run_def split: option.splits)

text \<open>
  C38. Either no goroutine is started, nothing is served and the program ends with an error or a panic; or all five goroutines are started
  and the server runs, and then the configuration was read, the database opened and migrated, the bot
  connected if one is configured, GitLab accepted the token, and a course plan was fetched and built for each group of the
  configuration and no other. The server works on that database, these plans and that client, and the program reports
  success only if listening itself did.
\<close>

theorem startup_safe:
  assumes "web_Run lb path = (started, served, result)"
  shows "started = [] \<and> served = None \<and> result \<noteq> Ret () \<or>
    started = goroutines \<and>
    (\<exists>config db f git.
      ParseConfig (lbReadInConfig lb) (lbUnmarshal lb) path = Ret config \<and>
      OpenDataBase (lbGormOpen lb) (lbAutoMigrate lb) (data_source (apDataBase config)) = Ret db \<and>
      (\<forall>token. cfTelegram config = Some token \<longrightarrow> lbNewBotAPI lb token = None) \<and>
      lbGitlab lb (apToken config) (glBaseURL (apGitLab config)) = None \<and>
      (\<forall>n. GroupDeadlines f n \<noteq> None \<longleftrightarrow> n \<in> gcName ` set (cfGroups config)) \<and>
      (\<forall>n d. GroupDeadlines f n = Some d \<longrightarrow> (\<exists>d0. buildScoringGroups d0 = Ret d)) \<and>
      served = Some (server_of lb config f git, newServer db) \<and>
      (result = Ret () \<longrightarrow> lbListen lb (seListenAddress (apServer config)) = None))"
proof (cases "build_parts lb path")
  case (Ret p)
  from assms Ret have "started = goroutines" "served = Some (server_of lb (ptConfig p) (ptDeadlines p) (ptGitlab p), newServer (ptDB p))"
    "result = snd (snd (run_parts lb p))" by (simp_all add: web_Run_def run_parts_def Let_def)
  with build_parts_ok [OF Ret] run_parts_ok [of lb p] show ?thesis
    by (intro disjI2 conjI exI [of _ "ptConfig p"] exI [of _ "ptDB p"] exI [of _ "ptDeadlines p"] exI [of _ "ptGitlab p"])
      (unfold plans_for_def, simp_all)
qed (use assms in \<open>auto simp: web_Run_def\<close>)

definition sample_app :: AppConfig where
  "sample_app = Config.extend (course_config\<lparr>cfGroups := sample_groups\<rparr>)
     (AppConfig.fields
       \<lparr>lcLevel = ''info'', lcFilename = ''log'', lcMaxSize = ''500kB'', lcMaxBackups = 3, lcMaxAgeDays = 7, lcDevelopment = False\<rparr>
       \<lparr>glBaseURL = ''https://gitlab'', glGroupName = ''hw'', glGroupID = 7, glDefaultReadme = [], glTaskUrlPrefix = [], glCIConfigPath = []\<rparr>
       ''client'' ''secret'' ''token''
       \<lparr>seListenAddress = '':80'', seCourseName = ''C'', seHeaderName = ''H'', seAuthenticationKey = ''0aF9'', seEncryptionKey = ''00''\<rparr>
       sample_address
       \<lparr>piDeadlines = 10 ^ 9, piProjects = Some (10 ^ 9), piPipelines = None\<rparr>)"

definition sample_libraries :: libraries where
  "sample_libraries =
     \<lparr>lbReadInConfig = (\<lambda>path. None), lbUnmarshal = (\<lambda>keys. Inr sample_app), lbFromHumanSize = (\<lambda>s. Inr 500000),
      lbUnmarshalLevel = (\<lambda>s. Inr 0), lbGormOpen = (\<lambda>dsn. Inr course_db), lbAutoMigrate = Inr, lbNewBotAPI = (\<lambda>token. None),
      lbYaml1 = sample_v1, lbYaml2 = sample_v2, lbGet = sample_web, lbGitlab = (\<lambda>token url. None), lbTranslit = id,
      lbExp = id, lbUnicode = scrUnicode board_scorer, lbSort = insertionSort,
      lbOAuth = \<lparr>oaAuthCodeURL = (\<lambda>c state access. ocAuthURL c @ ''?'' @ state), oaExchange = (\<lambda>c code. Inr code)\<rparr>,
      lbOAuthClient = (\<lambda>token url. None),
      lbCurrentUser = (\<lambda>token url. Inr \<lparr>cuStatusCode = 200, cuStatus = ''200 OK'', cuID = 3, cuUsername = ''ab''\<rparr>),
      lbTelegramHash = (\<lambda>token data. token @ data), lbTemplates = None, lbRegister = (\<lambda>paths. None),
      lbListen = (\<lambda>address. Some (External ''closed''))\<rparr>"

lemma sample_config: "ParseConfig (lbReadInConfig sample_libraries) (lbUnmarshal sample_libraries) path = Ret sample_app"
  by (simp add: ParseConfig_def conf_ParseConfig_def sample_libraries_def Config_type_def)

lemma sample_plans: "\<exists>f. NewFetcher (lbYaml1 sample_libraries) (lbYaml2 sample_libraries) (lbGet sample_libraries) (cfGroups sample_app) = Ret f"
proof -
  from sample_fetch [of 0] obtain d where "fetch sample_v1 sample_v2 (sample_web 0) ''u'' ''v1'' = Ret d" .
  then show ?thesis
    by (simp add: NewFetcher_def reload_def sample_groups_def sample_libraries_def sample_app_def Config.extend_def AppConfig.fields_def)
qed

lemma sample_starts: "fst (web_Run sample_libraries ''conf'') = goroutines"
proof -
  from sample_plans obtain f where f: "NewFetcher (lbYaml1 sample_libraries) (lbYaml2 sample_libraries) (lbGet sample_libraries) (cfGroups sample_app) = Ret f" ..
  have "\<exists>l. snd (Init (lbFromHumanSize sample_libraries) (lbUnmarshalLevel sample_libraries) (apLog sample_app) None) = Ret l"
    "\<exists>db. OpenDataBase (lbGormOpen sample_libraries) (lbAutoMigrate sample_libraries) s = Ret db"
    "\<exists>git. gitlab_NewClient sample_libraries sample_app = Ret git" for s
    by (simp_all add: Init_def OpenDataBase_def gitlab_NewClient_def sample_libraries_def)
  moreover have "\<exists>b. NewBot (cfTelegram sample_app) (lbNewBotAPI sample_libraries) = Ret b"
    by (cases "cfTelegram sample_app") (auto simp add: NewBot_def sample_libraries_def)
  ultimately have "\<exists>p. build_parts sample_libraries ''conf'' = Ret p"
    using f by (simp add: build_parts_def sample_config map_fail_Ret_iff) metis
  then show ?thesis by (auto simp: web_Run_def goroutines_def split: prod.split)
qed

lemma startup_safe_witness:
  "\<exists>config f git srv. fst (snd (web_Run sample_libraries ''conf'')) = Some (server_of sample_libraries config f git, srv) \<and>
     GroupDeadlines f ''g1'' \<noteq> None \<and> GroupDeadlines f ''g2'' = None"
proof -
  obtain started served result where run: "web_Run sample_libraries ''conf'' = (started, served, result)"
    by (cases "web_Run sample_libraries ''conf''")
  from sample_starts run have "started \<noteq> []" by (simp add: goroutines_def)
  with startup_safe [OF run] obtain config db f git where
    "ParseConfig (lbReadInConfig sample_libraries) (lbUnmarshal sample_libraries) ''conf'' = Ret config"
    "\<forall>n. GroupDeadlines f n \<noteq> None \<longleftrightarrow> n \<in> gcName ` set (cfGroups config)"
    "served = Some (server_of sample_libraries config f git, newServer db)"
    by (elim disjE conjE exE) (simp, rule that, assumption+)
  moreover from this(1) have "gcName ` set (cfGroups config) = {''g1''}"
    by (simp add: sample_config sample_app_def sample_groups_def Config.extend_def AppConfig.fields_def)
      (auto simp: sample_groups_def)
  ultimately have "GroupDeadlines f ''g1'' \<noteq> None" "\<not> GroupDeadlines f ''g2'' \<noteq> None" "served = Some (server_of sample_libraries config f git, newServer db)"
    by simp_all
  then show ?thesis using run by (intro exI [of _ config] exI [of _ f] exI [of _ git] exI [of _ "newServer db"]) simp
qed

end
