(* ===== verification/Shutdown.thy ===== *)
theory Shutdown
  imports StartupSpec
begin

text \<open>
  The end of the server's program. When serving ends, the deferred calls of \<open>Run\<close> cancel the context of the goroutines and wait for all
  five; only then is the result returned. The goroutine of the projects is the one of \<open>Projects\<close>, with its channel; the others
  are between two rounds of their loops, where they see the cancelled context. The last deferred call, to flush the log, does
  nothing (lemma \<open>Sync_never_flushes\<close>) and does not change the result.
\<close>

section \<open>Steps of the program\<close>

text \<open>The function \<open>Run\<close> serves, waits in the deferred calls, or has returned; a panic of a goroutine ends the program, too.\<close>

datatype main_pc = ServingRequests | Deferred "unit outcome" | Ended "unit outcome"

record program =
  pgMain :: main_pc
  pgCancelled :: bool
  pgLeft :: "goroutine list"
  pgMaker :: ProjectsMaker
  pgWorld :: world

definition start_program :: "parts \<Rightarrow> world \<Rightarrow> program" where
  "start_program p w =
     \<lparr>pgMain = ServingRequests, pgCancelled = False, pgLeft = goroutines,
      pgMaker = NewProjectsMaker (piProjects (apPullIntervals (ptConfig p))), pgWorld = w\<rparr>"

text \<open>A goroutine whose interval is not positive panics when it makes its ticker.\<close>

fun panics_at_start :: "parts \<Rightarrow> goroutine \<Rightarrow> bool" where
  "panics_at_start p DeadlinesLoop = (piDeadlines (apPullIntervals (ptConfig p)) \<le> 0)"
| "panics_at_start p PipelinesLoop = (case piPipelines (apPullIntervals (ptConfig p)) of None \<Rightarrow> False | Some i \<Rightarrow> i \<le> 0)"
| "panics_at_start p g = False"

text \<open>When a goroutine may return: at once, if its part is not configured, when it has stopped, or when the context is cancelled.\<close>

fun may_return :: "parts \<Rightarrow> program \<Rightarrow> goroutine \<Rightarrow> bool" where
  "may_return p s ProjectsLoop = (pmPc (pgMaker s) = Stopped)"
| "may_return p s PipelinesLoop = (pgCancelled s \<or> piPipelines (apPullIntervals (ptConfig p)) = None)"
| "may_return p s BotLoop = (pgCancelled s \<or> \<not> ptBot p)"
| "may_return p s g = pgCancelled s"

definition running :: "program \<Rightarrow> bool" where
  "running s \<longleftrightarrow> (\<forall>r. pgMain s \<noteq> Ended r)"

text \<open>
  \<open>res\<close> is the outcome of serving; a handler hands a user to the channel, also while the program is about to end. A goroutine may
  panic at any time, on an update without a sender or a plan without a policy's specification, say.
\<close>

inductive program_step :: "parts \<Rightarrow> server \<Rightarrow> driver \<Rightarrow> unit outcome \<Rightarrow> program \<Rightarrow> program \<Rightarrow> bool" for p sv d res where
  maker:
    "running s \<Longrightarrow> maker_own (ptGitlab p) sv d (pgMaker s, pgWorld s) (pm, w) \<Longrightarrow>
     (pmPc (pgMaker s) = Selecting \<and> pmPc pm = Stopped \<longrightarrow> pgCancelled s) \<Longrightarrow>
     program_step p sv d res s (s\<lparr>pgMaker := pm, pgWorld := w\<rparr>)"
| handler:
    "running s \<Longrightarrow> length (pmUsers (pgMaker s)) < channel_capacity \<Longrightarrow>
     program_step p sv d res s (s\<lparr>pgMaker := (pgMaker s)\<lparr>pmUsers := pmUsers (pgMaker s) @ [user]\<rparr>\<rparr>)"
| others_work:
    "running s \<Longrightarrow> program_step p sv d res s (s\<lparr>pgWorld := w\<rparr>)"
| returned:
    "running s \<Longrightarrow> g \<in> set (pgLeft s) \<Longrightarrow> \<not> panics_at_start p g \<Longrightarrow> may_return p s g \<Longrightarrow>
     program_step p sv d res s (s\<lparr>pgLeft := remove1 g (pgLeft s)\<rparr>)"
| panicked:
    "running s \<Longrightarrow> g \<in> set (pgLeft s) \<Longrightarrow> program_step p sv d res s (s\<lparr>pgMain := Ended (Panic m)\<rparr>)"
| served:
    "pgMain s = ServingRequests \<Longrightarrow> program_step p sv d res s (s\<lparr>pgMain := Deferred res, pgCancelled := True\<rparr>)"
| waited:
    "pgMain s = Deferred r \<Longrightarrow> pgLeft s = [] \<Longrightarrow> program_step p sv d res s (s\<lparr>pgMain := Ended r\<rparr>)"

abbreviation program_run :: "parts \<Rightarrow> server \<Rightarrow> driver \<Rightarrow> unit outcome \<Rightarrow> program \<Rightarrow> program \<Rightarrow> bool" where
  "program_run p sv d res \<equiv> (program_step p sv d res)\<^sup>*\<^sup>*"

inductive_cases program_stepE: "program_step p sv d res s t"

section \<open>The invariant\<close>

definition program_ok :: "parts \<Rightarrow> unit outcome \<Rightarrow> program \<Rightarrow> bool" where
  "program_ok p res s \<longleftrightarrow>
     distinct (pgLeft s)
     \<and> length (pmUsers (pgMaker s)) \<le> channel_capacity
     \<and> (ProjectsLoop \<notin> set (pgLeft s) \<longrightarrow> pmPc (pgMaker s) = Stopped)
     \<and> (\<forall>g. panics_at_start p g \<longrightarrow> g \<in> set (pgLeft s))
     \<and> (case pgMain s of
          ServingRequests \<Rightarrow> \<not> pgCancelled s
        | Deferred r \<Rightarrow> pgCancelled s \<and> r = res
        | Ended r \<Rightarrow> pgCancelled s \<and> r = res \<and> pgLeft s = [] \<or> (\<exists>m. r = Panic m))"

lemma all_goroutines: "g \<in> set goroutines"
  by (cases g) (simp_all add: goroutines_def)

lemma start_program_ok: "program_ok p res (start_program p w)"
  using all_goroutines by (simp add: program_ok_def start_program_def NewProjectsMaker_def channel_capacity_def) (simp add: goroutines_def)

lemma stopped_own: "maker_own c sv d (pm, w) (pm', w') \<Longrightarrow> pmPc pm \<noteq> Stopped"
  by (auto elim: maker_ownE)

lemma maker_own_bound:
  "maker_own c sv d (pm, w) (pm', w') \<Longrightarrow> length (pmUsers pm) \<le> channel_capacity \<Longrightarrow> length (pmUsers pm') \<le> channel_capacity"
  by (rule maker_step_bound [OF maker_step.own])

lemma program_step_ok: "program_step p sv d res s t \<Longrightarrow> program_ok p res s \<Longrightarrow> program_ok p res t"
proof (induction rule: program_step.induct)
  case (maker s pm w)
  then show ?case using stopped_own [OF maker(2)] maker_own_bound [OF maker(2)] by (auto simp: program_ok_def split: main_pc.splits)
next
  case (returned s g)
  have "may_return p s ProjectsLoop \<Longrightarrow> pmPc (pgMaker s) = Stopped" by simp
  with returned show ?case by (auto simp: program_ok_def running_def split: main_pc.splits)
qed (auto simp: program_ok_def running_def split: main_pc.splits)

lemma program_run_ok: "program_run p sv d res (start_program p w) s \<Longrightarrow> program_ok p res s"
  by (induction rule: rtranclp_induct) (auto intro: program_step_ok start_program_ok)

section \<open>A deadlock lasts\<close>

lemma deadlocked_own: "deadlocked pm \<Longrightarrow> \<not> maker_own c sv d (pm, w) t"
  using deadlocked_no_step maker_step.own by blast

lemma deadlock_step:
  assumes "program_step p sv d res s t" "deadlocked (pgMaker s)"
  shows "pgMaker t = pgMaker s"
  using assms(1)
proof cases
  case (maker pm w)
  with deadlocked_own [OF assms(2)] show ?thesis by blast
next
  case (handler user)
  with assms(2) show ?thesis by (simp add: deadlocked_def)
qed simp_all

lemma deadlock_lasts: "program_run p sv d res s t \<Longrightarrow> deadlocked (pgMaker s) \<Longrightarrow> pgMaker t = pgMaker s"
proof (induction rule: rtranclp_induct)
  case (step t u)
  with deadlock_step [OF step(2)] show ?case by simp
qed simp

lemma deadlocked_ended: "program_ok p res s \<Longrightarrow> deadlocked (pgMaker s) \<Longrightarrow> pgMain s = Ended r \<Longrightarrow> \<exists>m. r = Panic m"
  by (auto simp: program_ok_def deadlocked_def)

section \<open>The way to the end\<close>

lemma program_run_step: "program_step p sv d res s t \<Longrightarrow> program_run p sv d res t u \<Longrightarrow> program_run p sv d res s u"
  by (rule converse_rtranclp_into_rtranclp)

lemma maker_can_stop:
  assumes "pgMain s = Deferred r" "pgCancelled s" "length (pmUsers (pgMaker s)) \<le> channel_capacity" "\<not> deadlocked (pgMaker s)"
    and "pmPc (pgMaker s) = Starting \<longrightarrow> pmInterval (pgMaker s) \<noteq> None \<longrightarrow>
      (\<exists>w'. initializeMissingProjects (ptGitlab p) sv d (pgWorld s) = Some (w', Ret ()))"
  shows "\<exists>pm w. program_run p sv d res s (s\<lparr>pgMaker := pm, pgWorld := w\<rparr>) \<and> pmPc pm = Stopped"
proof -
  have step: "program_run p sv d res (s\<lparr>pgMaker := pm, pgWorld := w\<rparr>) (s\<lparr>pgMaker := pm', pgWorld := w'\<rparr>)"
    if "maker_own (ptGitlab p) sv d (pm, w) (pm', w')" for pm w pm' w'
    using program_step.maker [of "s\<lparr>pgMaker := pm, pgWorld := w\<rparr>" p sv d pm' w' res] that assms(1,2)
    by (intro r_into_rtranclp) (simp add: running_def)
  have cancel: "\<exists>pm' w'. program_run p sv d res (s\<lparr>pgMaker := pm, pgWorld := w\<rparr>) (s\<lparr>pgMaker := pm', pgWorld := w'\<rparr>) \<and> pmPc pm' = Stopped"
    if "pmPc pm = Selecting" for pm w
    using step [OF maker_own.cancel [OF that]] by (intro exI [of _ "pm\<lparr>pmPc := Stopped\<rparr>"] exI [of _ w]) simp
  let ?pm = "pgMaker s"
  have s: "s = s\<lparr>pgMaker := ?pm, pgWorld := pgWorld s\<rparr>" by simp
  obtain pm' w' where "program_run p sv d res s (s\<lparr>pgMaker := pm', pgWorld := w'\<rparr>)" "pmPc pm' = Stopped \<or> pmPc pm' = Selecting"
  proof (cases "pmPc ?pm = Stopped \<or> pmPc ?pm = Selecting")
    case True
    show ?thesis by (rule that [where pm' = ?pm and w' = "pgWorld s"]) (use True in auto)
  next
    case False
    have "\<exists>pm' w'. maker_own (ptGitlab p) sv d (?pm, pgWorld s) (pm', w') \<and> (pmPc pm' = Stopped \<or> pmPc pm' = Selecting)"
    proof (cases "pmPc ?pm")
      case Starting
      show ?thesis
      proof (cases "pmInterval ?pm")
        case None
        from maker_own.disabled [OF Starting None] show ?thesis by fastforce
      next
        case (Some interval)
        with assms(5) Starting obtain w' where "initializeMissingProjects (ptGitlab p) sv d (pgWorld s) = Some (w', Ret ())" by auto
        from maker_own.first_pass [OF Starting Some this] show ?thesis by fastforce
      qed
    next
      case (Resending user)
      with assms(3,4) have "length (pmUsers ?pm) < channel_capacity" by (auto simp: deadlocked_def)
      from maker_own.resend [OF Resending this] show ?thesis by fastforce
    qed (use False in auto)
    then obtain pm' w' where own: "maker_own (ptGitlab p) sv d (?pm, pgWorld s) (pm', w')" and pc: "pmPc pm' = Stopped \<or> pmPc pm' = Selecting"
      by blast
    from step [OF own] have "program_run p sv d res s (s\<lparr>pgMaker := pm', pgWorld := w'\<rparr>)" by simp
    from that [OF this pc] show ?thesis .
  qed
  with cancel [of pm' w'] show ?thesis by (metis rtranclp_trans)
qed

lemma all_return:
  assumes "pgMain s = Deferred r" "pgCancelled s" "pmPc (pgMaker s) = Stopped" "\<forall>g. \<not> panics_at_start p g"
  shows "program_run p sv d res s (s\<lparr>pgLeft := []\<rparr>)"
  using assms(1-3)
proof (induction "pgLeft s" arbitrary: s)
  case Nil
  then have "s\<lparr>pgLeft := []\<rparr> = s" by simp
  then show ?case by simp
next
  case (Cons g gs)
  have "may_return p s g" using Cons.prems by (cases g) simp_all
  with Cons.prems(1) assms(4) have "program_step p sv d res s (s\<lparr>pgLeft := remove1 g (pgLeft s)\<rparr>)"
    by (intro program_step.returned) (simp_all add: running_def Cons.hyps(2) [symmetric])
  moreover have "remove1 g (pgLeft s) = gs" using Cons.hyps(2) [symmetric] by simp
  ultimately have "program_step p sv d res s (s\<lparr>pgLeft := gs\<rparr>)" by simp
  moreover have "program_run p sv d res (s\<lparr>pgLeft := gs\<rparr>) (s\<lparr>pgLeft := []\<rparr>)"
    using Cons.hyps(1) [of "s\<lparr>pgLeft := gs\<rparr>"] Cons.prems by simp
  ultimately show ?case by (rule program_run_step)
qed

lemma program_can_end:
  assumes "pgMain s = Deferred res" "pgCancelled s" "length (pmUsers (pgMaker s)) \<le> channel_capacity" "\<not> deadlocked (pgMaker s)"
    and "pmPc (pgMaker s) = Starting \<longrightarrow> pmInterval (pgMaker s) \<noteq> None \<longrightarrow>
      (\<exists>w'. initializeMissingProjects (ptGitlab p) sv d (pgWorld s) = Some (w', Ret ()))"
    and "\<forall>g. \<not> panics_at_start p g"
  shows "\<exists>t. program_run p sv d res s t \<and> pgMain t = Ended res"
proof -
  from maker_can_stop [OF assms(1-5), of res] obtain pm w
    where run: "program_run p sv d res s (s\<lparr>pgMaker := pm, pgWorld := w\<rparr>)" and pm: "pmPc pm = Stopped" by blast
  let ?t = "s\<lparr>pgMaker := pm, pgWorld := w\<rparr>"
  have "program_run p sv d res ?t (?t\<lparr>pgLeft := []\<rparr>)"
    by (rule all_return [of _ res]) (use assms(1,2,6) pm in simp_all)
  moreover have "program_step p sv d res (?t\<lparr>pgLeft := []\<rparr>) (?t\<lparr>pgLeft := [], pgMain := Ended res\<rparr>)"
    using program_step.waited [of "?t\<lparr>pgLeft := []\<rparr>" res p sv d res] assms(1) by simp
  ultimately have "program_run p sv d res s (?t\<lparr>pgLeft := [], pgMain := Ended res\<rparr>)"
    using run by (meson rtranclp.rtrancl_into_rtrancl rtranclp_trans)
  then show ?thesis by (intro exI [of _ "?t\<lparr>pgLeft := [], pgMain := Ended res\<rparr>"]) simp
qed

text \<open>
  C34. Unless a goroutine panics, the program returns the outcome of serving, and only when the context is cancelled and all its
  goroutines have returned. Once serving has ended it can always come to that end, unless the goroutine of the projects is deadlocked on
  its own channel: then nothing but a panic ever ends the program, and it has to be killed. With an interval of the deadlines or the
  pipelines that is not positive it ends by a panic or not at all.
\<close>

theorem program_end:
  assumes "program_run p sv d res (start_program p w) s"
  shows "(\<forall>r. pgMain s = Ended r \<longrightarrow> (\<exists>m. r = Panic m) \<or> r = res \<and> pgCancelled s \<and> pgLeft s = [] \<and> pmPc (pgMaker s) = Stopped)
    \<and> (\<forall>r. pgMain s = Deferred r \<longrightarrow> (\<forall>g. \<not> panics_at_start p g) \<longrightarrow> \<not> deadlocked (pgMaker s) \<longrightarrow>
        (pmPc (pgMaker s) = Starting \<longrightarrow> pmInterval (pgMaker s) \<noteq> None \<longrightarrow>
          (\<exists>w'. initializeMissingProjects (ptGitlab p) sv d (pgWorld s) = Some (w', Ret ()))) \<longrightarrow>
        (\<exists>t. program_run p sv d res s t \<and> pgMain t = Ended res))
    \<and> (deadlocked (pgMaker s) \<longrightarrow> (\<forall>t r. program_run p sv d res s t \<longrightarrow> pgMain t = Ended r \<longrightarrow> (\<exists>m. r = Panic m)))
    \<and> (\<forall>g. panics_at_start p g \<longrightarrow> (\<forall>r. pgMain s = Ended r \<longrightarrow> (\<exists>m. r = Panic m)))"
proof -
  note ok = program_run_ok [OF assms]
  have ended: "(\<exists>m. r = Panic m) \<or> r = res \<and> pgCancelled s \<and> pgLeft s = [] \<and> pmPc (pgMaker s) = Stopped" if "pgMain s = Ended r" for r
    using ok that by (auto simp: program_ok_def)
  have ends: "\<exists>t. program_run p sv d res s t \<and> pgMain t = Ended res"
    if "pgMain s = Deferred r" "\<forall>g. \<not> panics_at_start p g" "\<not> deadlocked (pgMaker s)"
      "pmPc (pgMaker s) = Starting \<longrightarrow> pmInterval (pgMaker s) \<noteq> None \<longrightarrow>
         (\<exists>w'. initializeMissingProjects (ptGitlab p) sv d (pgWorld s) = Some (w', Ret ()))" for r
    using ok that by (intro program_can_end) (auto simp: program_ok_def)
  have hangs: "\<exists>m. r = Panic m" if "deadlocked (pgMaker s)" "program_run p sv d res s t" "pgMain t = Ended r" for t r
  proof (rule deadlocked_ended)
    show "program_ok p res t" by (rule program_run_ok [OF rtranclp_trans [OF assms that(2)]])
    show "deadlocked (pgMaker t)" using deadlock_lasts [OF that(2,1)] that(1) by simp
  qed (rule that(3))
  have panic: "\<exists>m. r = Panic m" if "panics_at_start p g" "pgMain s = Ended r" for g r
    using ok that by (auto simp: program_ok_def)
  show ?thesis
    by (intro conjI allI impI) (erule ended, erule (3) ends, erule (2) hangs, erule (1) panic)
qed

section \<open>Witness\<close>

text \<open>Once the context is cancelled the steps of the goroutine of the projects and of the handlers are steps of the program.\<close>

lemma maker_run_program:
  assumes "maker_run (ptGitlab p) sv d (pgMaker s, pgWorld s) (pm, w)" "running s" "pgCancelled s"
  shows "program_run p sv d res s (s\<lparr>pgMaker := pm, pgWorld := w\<rparr>)"
  using assms(1)
proof (induction rule: rtranclp_induct2)
  case refl
  show ?case by simp
next
  case (step pm w pm' w')
  let ?t = "s\<lparr>pgMaker := pm, pgWorld := w\<rparr>"
  have swap: "s\<lparr>pgWorld := v, pgMaker := q\<rparr> = s\<lparr>pgMaker := q, pgWorld := v\<rparr>" for v q by simp
  have t: "running ?t" "pgCancelled ?t" using assms(2,3) by (simp_all add: running_def)
  from step(2) have "program_step p sv d res ?t (s\<lparr>pgMaker := pm', pgWorld := w'\<rparr>)"
  proof cases
    case (AsyncPrepareProject user)
    with program_step.handler [OF t(1), of p sv d res user] show ?thesis by (simp add: swap)
  next
    case own
    with program_step.maker [OF t(1), of p sv d pm' w' res] t(2) show ?thesis by (simp add: swap)
  qed
  with step(3) show ?case by (rule rtranclp.rtrancl_into_rtrancl)
qed

definition sample_parts :: parts where
  "sample_parts =
     \<lparr>ptConfig = sample_app\<lparr>apPullIntervals := \<lparr>piDeadlines = 1, piProjects = Some 1, piPipelines = None\<rparr>\<rparr>,
      ptLogger = \<lparr>lgEncoder = JSONEncoder encoderConfig,
        lgWriter = \<lparr>roFilename = ''log'', roMaxSize = 0, roMaxBackups = 3, roMaxAge = 7\<rparr>, lgLevel = 0, lgStacktrace = ErrorLevel\<rparr>,
      ptDB = empty_db, ptBot = False, ptDeadlines = \<lparr>feCurrent = None\<rparr>, ptGitlab = sample_client\<rparr>"

lemma sample_deadlock:
  "\<exists>pm. maker_run sample_client sample_server mem_driver (NewProjectsMaker (Some 1), ([], empty_db)) (pm, (first_attempt, empty_db))
     \<and> deadlocked pm"
proof -
  let ?run = "maker_run sample_client sample_server mem_driver"
  let ?queued = "sample_maker\<lparr>pmUsers := [sample_student]\<rparr>"
  let ?failed = "?queued\<lparr>pmUsers := [], pmPc := Resending sample_student\<rparr>"
  have queue: "maker_step sample_client sample_server mem_driver (sample_maker, ([], empty_db)) (?queued, ([], empty_db))"
    using maker_step.AsyncPrepareProject [of sample_maker sample_client sample_server mem_driver "([], empty_db)" sample_student]
    by (simp add: NewProjectsMaker_def channel_capacity_def)
  have failure: "maker_step sample_client sample_server mem_driver (?queued, ([], empty_db)) (?failed, (first_attempt, empty_db))"
    by (intro maker_step.own maker_own.receive_failed [OF _ _ sample_failure]) (simp_all add: NewProjectsMaker_def)
  have "length (pmUsers ?failed) \<le> channel_capacity" by simp
  from fill_channel [OF this] obtain pm where full: "?run (?failed, (first_attempt, empty_db)) (pm, (first_attempt, empty_db))"
    "length (pmUsers pm) = channel_capacity" "pmPc pm = pmPc ?failed" by blast
  from full(1) have "?run (?queued, ([], empty_db)) (pm, (first_attempt, empty_db))" by (rule converse_rtranclp_into_rtranclp [of "maker_step sample_client sample_server mem_driver", OF failure])
  then have "?run (sample_maker, ([], empty_db)) (pm, (first_attempt, empty_db))" by (rule converse_rtranclp_into_rtranclp [of "maker_step sample_client sample_server mem_driver", OF queue])
  then have "?run (NewProjectsMaker (Some 1), ([], empty_db)) (pm, (first_attempt, empty_db))"
    by (rule converse_rtranclp_into_rtranclp [of "maker_step sample_client sample_server mem_driver", OF maker_step.own [OF sample_start]])
  with full(2,3) show ?thesis by (auto simp: deadlocked_def)
qed

lemma program_end_witness:
  "\<exists>s. program_run sample_parts sample_server mem_driver (Fail (External ''closed'')) (start_program sample_parts ([], empty_db)) s
     \<and> pgMain s = Deferred (Fail (External ''closed''))
     \<and> (\<forall>t r. program_run sample_parts sample_server mem_driver (Fail (External ''closed'')) s t \<longrightarrow> pgMain t = Ended r \<longrightarrow> (\<exists>m. r = Panic m))"
proof -
  let ?res = "Fail (External ''closed'') :: unit outcome"
  let ?run = "program_run sample_parts sample_server mem_driver ?res"
  let ?s0 = "start_program sample_parts ([], empty_db)"
  let ?s1 = "?s0\<lparr>pgMain := Deferred ?res, pgCancelled := True\<rparr>"
  have parts: "ptGitlab sample_parts = sample_client" "\<And>g. \<not> panics_at_start sample_parts g"
    "piProjects (apPullIntervals (ptConfig sample_parts)) = Some 1"
    subgoal by (simp add: sample_parts_def)
    subgoal for g by (cases g) (simp_all add: sample_parts_def)
    subgoal by (simp add: sample_parts_def)
    done
  have s1: "running ?s1" "pgCancelled ?s1" "pgMaker ?s1 = NewProjectsMaker (Some 1)" "pgWorld ?s1 = ([], empty_db)"
    by (simp_all add: running_def start_program_def parts(3))
  obtain pm where run: "maker_run sample_client sample_server mem_driver (NewProjectsMaker (Some 1), ([], empty_db)) (pm, (first_attempt, empty_db))"
    and dead: "deadlocked pm" using sample_deadlock by blast
  have served: "program_step sample_parts sample_server mem_driver ?res ?s0 ?s1"
    by (rule program_step.served) (simp add: start_program_def)
  have "?run ?s1 (?s1\<lparr>pgMaker := pm, pgWorld := (first_attempt, empty_db)\<rparr>)"
    by (rule maker_run_program [OF _ s1(1,2)]) (simp only: parts(1) s1(3,4) run)
  with served have reach: "?run ?s0 (?s1\<lparr>pgMaker := pm, pgWorld := (first_attempt, empty_db)\<rparr>)" by (rule program_run_step)
  from program_end [OF this] parts(2) dead
  have "\<forall>t r. ?run (?s1\<lparr>pgMaker := pm, pgWorld := (first_attempt, empty_db)\<rparr>) t \<longrightarrow> pgMain t = Ended r \<longrightarrow> (\<exists>m. r = Panic m)" by simp
  with reach show ?thesis by (intro exI [of _ "?s1\<lparr>pgMaker := pm, pgWorld := (first_attempt, empty_db)\<rparr>"]) simp
qed

end
