(* ===== verification/CrashmeSpec.thy ===== *)
theory CrashmeSpec
  imports Crashme WebFlags
begin

text \<open>
  The chain from a crash to a flag: what \<open>crashme\<close> runs, what it prints, and that a flag it prints was issued by the server.
\<close>

section \<open>The first line\<close>

lemma slowReadFirstLine_Inr:
  "slowReadFirstLine u left rs str = (rest, Inr task) \<Longrightarrow>
     \<exists>line. rs = map Byte line @ Byte (CHR 0x0A) # rest \<and> length line < left \<and> CHR 0x0A \<notin> set line
       \<and> task = TrimSpace u (str @ line @ [CHR 0x0A])"
proof (induction u left rs str rule: slowReadFirstLine.induct)
  case (5 u left ch rs str)
  show ?case
  proof (cases "ch = CHR 0x0A")
    case True
    with 5(2) show ?thesis by (intro exI [of _ "[]"]) auto
  next
    case False
    with 5 obtain line where "rs = map Byte line @ Byte (CHR 0x0A) # rest" "length line < left" "CHR 0x0A \<notin> set line"
      "task = TrimSpace u ((str @ [ch]) @ line @ [CHR 0x0A])" by auto
    with False show ?thesis by (intro exI [of _ "ch # line"]) auto
  qed
qed auto

lemma slowReadFirstLine_line:
  "length line < left \<Longrightarrow> CHR 0x0A \<notin> set line \<Longrightarrow>
     slowReadFirstLine u left (map Byte line @ Byte (CHR 0x0A) # rest) str = (rest, Inr (TrimSpace u (str @ line @ [CHR 0x0A])))"
proof (induction line arbitrary: left str)
  case Nil
  then show ?case by (cases left) auto
next
  case (Cons ch line)
  then show ?case by (cases left) auto
qed

section \<open>The executable\<close>

lemma ReplaceAll_char: "ReplaceAll s [a] [b] = map (\<lambda>ch. if ch = a then b else ch) s"
  unfolding ReplaceAll_def by (induction s) (auto simp: has_prefix_iff)

text \<open>An entry of a directory.\<close>

definition dir_entry :: "string \<Rightarrow> string \<Rightarrow> string" where
  "dir_entry dir name =
     (if path_Clean dir = [slash] then slash # name
      else if path_Clean dir = ''.'' then name
      else path_Clean dir @ slash # name)"

lemma executablePath_entry:
  assumes "chBinaries ch \<noteq> []"
  shows "\<exists>name. slash \<notin> set name \<and> executablePath ch task = dir_entry (chBinaries ch) (''ctf_'' @ name)"
proof -
  let ?name = "map (\<lambda>c. if c = CHR ''-'' then CHR ''_'' else c) (lastTaskName task)"
  have entry: "path_Join (chBinaries ch) (''ctf_'' @ name) = dir_entry (chBinaries ch) (''ctf_'' @ name)" if "slash \<notin> set name" for name
    using path_Join_element [OF assms, of "''ctf_'' @ name"] that by (simp add: dir_entry_def slash_def)
  from path_Base_no_slash [of "ReplaceAll task ''_'' ''-''"] show ?thesis
  proof
    assume "path_Base (ReplaceAll task ''_'' ''-'') = [slash]"
    then have "executablePath ch task = path_Join (chBinaries ch) (''ctf_'' @ [slash])"
      by (simp add: executablePath_def lastTaskName_def ReplaceAll_char) (simp add: slash_def)
    also have "\<dots> = path_Join (chBinaries ch) ''ctf_''" using path_Join_trailing [of "chBinaries ch" "''ctf_''"] by simp
    finally show ?thesis using entry [of "[]"] by (intro exI [of _ "[]"]) simp
  next
    assume "slash \<notin> set (path_Base (ReplaceAll task ''_'' ''-''))"
    then have "slash \<notin> set ?name" by (auto simp: lastTaskName_def slash_def)
    moreover have "executablePath ch task = dir_entry (chBinaries ch) (''ctf_'' @ ?name)"
      using entry [OF calculation] by (simp add: executablePath_def ReplaceAll_char)
    ultimately show ?thesis by (intro exI [of _ ?name] conjI)
  qed
qed

section \<open>The flag\<close>

text \<open>
  What the documentation of \<open>backoff.Retry\<close> says: attempts go on while they fail with an error that is not permanent, and the
  last attempt decides the result.
\<close>

fun attempt_error_text :: "attempt_error \<Rightarrow> gerror" where
  "attempt_error_text (Transient e) = e"
| "attempt_error_text (Permanent e) = e"

definition lawful_retry :: "retry \<Rightarrow> bool" where
  "lawful_retry retry \<longleftrightarrow>
     (\<forall>attempts n res. retry attempts = (n, res) \<longrightarrow>
        res = map_option attempt_error_text (attempts n) \<and> (\<forall>k < n. \<exists>e. attempts k = Some (Transient e)))"

lemma fetchFlag_Inr:
  assumes "lawful_retry retry" "fetchFlag retry post ch task = Inr flag"
  shows "\<exists>n st. post n (chURL ch) \<lparr>frToken = json_text (chToken ch), frTask = json_text task\<rparr> = Answer st flag \<and> asOk st"
proof -
  let ?attempts = "\<lambda>k. case doFetchFlag (post k) ch task of Inl e \<Rightarrow> Some e | Inr flag \<Rightarrow> None"
  obtain n where n: "retry ?attempts = (n, None)" and flag: "flag = (case doFetchFlag (post n) ch task of Inl e \<Rightarrow> [] | Inr flag \<Rightarrow> flag)"
    using assms(2) by (auto simp: fetchFlag_def split: prod.splits option.splits)
  from assms(1) n have "map_option attempt_error_text (?attempts n) = None" by (auto simp: lawful_retry_def)
  with flag have "doFetchFlag (post n) ch task = Inr flag" by (auto split: sum.splits)
  then show ?thesis by (auto simp: doFetchFlag_def split: exchange.splits if_splits)
qed

lemma json_text_ascii: "ascii s \<Longrightarrow> json_text s = s"
  unfolding json_text_def strings_Map_ascii by (induction s) (simp_all add: strings_Map_ascii encode_rune_byte)

text \<open>An answer that comes from the server's API, in whatever state its database is.\<close>

definition served :: "web_server \<Rightarrow> FlagRequest \<Rightarrow> Status \<Rightarrow> string \<Rightarrow> bool" where
  "served srv req st flag \<longleftrightarrow>
     (\<exists>cn rq w w' ck code p. lawful_driver (cnDriver cn) \<and> db_ok (wbDB w) \<and> rqFlag rq = Inr req
        \<and> createFlag srv cn rq w = (w', Ret (ck, JSON code st p)) \<and> flag = (case p of FlagPayload f \<Rightarrow> f | _ \<Rightarrow> []))"

text \<open>The flag is the one the server has just issued for the task.\<close>

definition issued :: "string \<Rightarrow> string \<Rightarrow> bool" where
  "issued task flag \<longleftrightarrow>
     (\<exists>uuid db db'. flag = flag_id task uuid \<and> ledger_issue flag (ledger_of db) = Some (ledger_of db'))"

lemma served_issued:
  assumes "served srv req st flag" "asOk st"
  shows "isTokenValid srv (frToken req) \<and> knows_task srv (frTask req) \<and> issued (frTask req) flag"
proof -
  from assms obtain cn rq w w' ck code p where s: "lawful_driver (cnDriver cn)" "db_ok (wbDB w)" "rqFlag rq = Inr req"
    "createFlag srv cn rq w = (w', Ret (ck, JSON code st p))" "flag = (case p of FlagPayload f \<Rightarrow> f | _ \<Rightarrow> [])"
    by (auto simp: served_def)
  then obtain f db where c: "CreateFlag (cnDriver cn) (cnUUID cn) (cnNow cn) (frTask req) (wbDB w) = (db, Ret f)"
    and flag: "flag = flID f" and auth: "isTokenValid srv (frToken req)" "knows_task srv (frTask req)"
    using assms(2) by (auto simp: createFlag_def onError_def onOk_def knows_task_def split: sum.splits if_splits prod.splits outcome.splits)
  from CreateFlag_refines [OF s(1,2) c] flag auth show ?thesis unfolding issued_def by auto
qed

text \<open>What a connection has been sent before the command ends.\<close>

definition transcript :: "session_env \<Rightarrow> string \<Rightarrow> process_run \<Rightarrow> string" where
  "transcript se task run =
     (case seSlot se of Free \<Rightarrow> [] | Busy r \<Rightarrow> ''Waiting for an available runner...'' @ [CHR 0x0A])
       @ ''Enter task name: Running task '' @ task @ CHR 0x0A # rnStdout run"

definition prompt :: "session_env \<Rightarrow> string" where
  "prompt se =
     (case seSlot se of Free \<Rightarrow> [] | Busy r \<Rightarrow> ''Waiting for an available runner...'' @ [CHR 0x0A]) @ ''Enter task name: ''"

lemma doHandleConnection_None:
  assumes "doHandleConnection u ch se = (out, files, None)"
  shows "\<exists>line reads input. seReads se = map Byte line @ Byte (CHR 0x0A) # reads \<and> length line < 100
    \<and> seStat se (executablePath ch (TrimSpace u (line @ [CHR 0x0A]))) = Regular
    \<and> run_task ch se (TrimSpace u (line @ [CHR 0x0A])) input (prompt se) = (out, files, None)"
proof -
  from assms obtain reads task where line: "slowReadFirstLine u MaxFirstLineSizeE (seReads se) [] = (reads, Inr task)"
    and regular: "isRegularFile (seStat se) (executablePath ch task)"
    by (auto simp: doHandleConnection_def Let_def split: slot.splits option.splits prod.splits sum.splits if_splits)
  then have "run_task ch se task (take (MaxInputSize - (length (seReads se) - length reads)) (input_bytes reads)) (prompt se) = (out, files, None)"
    using assms by (auto simp: doHandleConnection_def prompt_def Let_def split: slot.splits option.splits if_splits)
  moreover have "seStat se (executablePath ch task) = Regular"
    using regular by (simp add: isRegularFile_def split: file_kind.splits)
  ultimately show ?thesis using slowReadFirstLine_Inr [OF line] by (auto simp: MaxFirstLineSizeE_def)
qed

lemma run_task_None:
  assumes "run_task ch se task input (prompt se) = (out, files, None)"
  shows "let run = seProcess se (executablePath ch task) input in
      rnExit run = Exits \<and> out = transcript se task run @ ''Command finished normally'' @ [CHR 0x0A]
    \<or> (\<exists>signal text flag. rnExit run = Crashes signal text \<and> signal \<noteq> SIGINT
         \<and> out = transcript se task run @ ''Command failed: '' @ text @ CHR 0x0A # ''Trying to fetch flag...'' @ CHR 0x0A # flag @ [CHR 0x0A]
         \<and> fetchFlag (seRetry se) (sePost se) ch task = Inr flag)"
proof -
  have "transcript se task r = prompt se @ ''Running task '' @ task @ CHR 0x0A # rnStdout r" for r
    by (simp add: transcript_def prompt_def)
  with assms show ?thesis
    unfolding run_task_def Let_def by (auto split: exit_state.splits option.splits sum.splits if_splits)
qed

text \<open>
  C28. The chain from a crash to a flag: a connection that ends without an error has named a task in a first line of less than a
  hundred bytes, and the one program that was run is an entry \<open>ctf_\<close> of the directory of binaries, whatever
  the client sent. It is told that the command has finished normally if it has, and is given a flag only if the program has crashed, not by
  an interrupt; that flag was issued by the server for exactly the task that was named, which is a task of
  the course, and the checker has a token of the testing system.
\<close>

theorem crash_flag_issued:
  assumes "newChecker mkdirAll stat binaries submits n url token = Ret ch" "stat [] = Missing"
    and "lawful_retry (seRetry se)"
    and "\<And>k req st flag. sePost se k url req = Answer st flag \<Longrightarrow> served srv req st flag"
    and "doHandleConnection u ch se = (out, files, None)"
  shows "\<exists>line reads name input. seReads se = map Byte line @ Byte (CHR 0x0A) # reads \<and> length line < 100
    \<and> slash \<notin> set name \<and> seStat se (dir_entry binaries (''ctf_'' @ name)) = Regular
    \<and> (let task = TrimSpace u (line @ [CHR 0x0A]);
            run = seProcess se (dir_entry binaries (''ctf_'' @ name)) input in
        rnExit run = Exits \<and> out = transcript se task run @ ''Command finished normally'' @ [CHR 0x0A]
      \<or> (\<exists>signal text flag. rnExit run = Crashes signal text \<and> signal \<noteq> SIGINT
           \<and> out = transcript se task run @ ''Command failed: '' @ text @ CHR 0x0A # ''Trying to fetch flag...'' @ CHR 0x0A # flag @ [CHR 0x0A]
           \<and> isTokenValid srv (json_text token) \<and> knows_task srv (json_text task) \<and> issued (json_text task) flag))"
proof -
  from assms(1,2) have ch: "chBinaries ch = binaries" "chURL ch = url" "chToken ch = token" "binaries \<noteq> []"
    by (auto simp: newChecker_def isDirectory_def split: option.splits if_splits)
  from doHandleConnection_None [OF assms(5)] obtain l reads input task where
    l: "seReads se = map Byte l @ Byte (CHR 0x0A) # reads" "length l < 100" "TrimSpace u (l @ [CHR 0x0A]) = task"
    and regular: "seStat se (executablePath ch task) = Regular"
    and run: "run_task ch se task input (prompt se) = (out, files, None)" by blast
  obtain name where name: "slash \<notin> set name" "executablePath ch task = dir_entry binaries (''ctf_'' @ name)"
    using executablePath_entry [of ch task] ch by auto
  have flag: "isTokenValid srv (json_text token) \<and> knows_task srv (json_text task) \<and> issued (json_text task) flag"
    if f: "fetchFlag (seRetry se) (sePost se) ch task = Inr flag" for flag
  proof -
    from fetchFlag_Inr [OF assms(3) f] ch obtain n st where
      "sePost se n url \<lparr>frToken = json_text token, frTask = json_text task\<rparr> = Answer st flag" "asOk st" by auto
    from served_issued [OF assms(4) [OF this(1)] this(2)] show ?thesis by simp
  qed
  show ?thesis
  proof (rule exI [of _ l], rule exI [of _ reads], rule exI [of _ name], rule exI [of _ input], intro conjI)
    show "let task = TrimSpace u (l @ [CHR 0x0A]);
              run = seProcess se (dir_entry binaries (''ctf_'' @ name)) input in
        rnExit run = Exits \<and> out = transcript se task run @ ''Command finished normally'' @ [CHR 0x0A]
      \<or> (\<exists>signal text flag. rnExit run = Crashes signal text \<and> signal \<noteq> SIGINT
           \<and> out = transcript se task run @ ''Command failed: '' @ text @ CHR 0x0A # ''Trying to fetch flag...'' @ CHR 0x0A # flag @ [CHR 0x0A]
           \<and> isTokenValid srv (json_text token) \<and> knows_task srv (json_text task) \<and> issued (json_text task) flag)"
      using run_task_None [OF run] flag unfolding name(2) l(3) Let_def by blast
  qed (use l name regular in simp_all)
qed

section \<open>Failed accepts\<close>

text \<open>The budget of errors is of no use: the first failed \<open>Accept\<close> starts a handler that panics, or the loop panics itself.\<close>

lemma accept_error_crashes:
  "Inl e \<in> set accepted \<Longrightarrow> accept_loop budget connID accepted = Ret started \<Longrightarrow>
     \<exists>(i, conn) \<in> set started. \<exists>msg. handleConnection u ch conn = Panic msg"
proof (induction budget connID accepted arbitrary: started rule: accept_loop.induct)
  case (2 budget connID e accepted)
  then show ?case by (auto simp: handleConnection_def split: if_splits)
next
  case (3 budget connID conn accepted)
  then obtain started' where "accept_loop (if budget < acceptErrorsBudget then budget + 1 else budget) (connID + 1) accepted = Ret started'"
    and "started = (connID, Some conn) # started'" by auto
  with 3 show ?case by fastforce
qed simp

section \<open>Witness\<close>

definition crash_stat :: "string \<Rightarrow> file_kind" where
  "crash_stat path = (if path = ''bin'' then Directory else if path = ''bin/ctf_a'' then Regular else Missing)"

definition crash_checker :: checker where
  "crash_checker = \<lparr>chBinaries = ''bin'', chSubmits = ''submits'', chConcurrency = 16, chURL = ''url'', chToken = ''tt''\<rparr>"

definition no_retry :: retry where
  "no_retry attempts =
     (0, case attempts 0 of None \<Rightarrow> None | Some (Transient e) \<Rightarrow> Some e | Some (Permanent e) \<Rightarrow> Some e)"

definition crash_env :: session_env where
  "crash_env =
     \<lparr>seReads = [Byte (CHR ''a''), Byte (CHR 0x0A), Byte (CHR ''x'')], seSlot = Free, seStat = crash_stat,
      seCreate = (\<lambda>path. None), seTime = ''now'', sePipe = (\<lambda>pipe. None),
      seProcess = (\<lambda>exe input. \<lparr>rnRead = 1, rnStdout = [], rnStderr = [], rnExit = Crashes 11 ''signal: segmentation fault''\<rparr>),
      seReport = None, seRetry = no_retry,
      sePost = (\<lambda>k url req. if req = \<lparr>frToken = ''tt'', frTask = ''a''\<rparr> then Answer \<lparr>asOk = True, asError = []\<rparr> ''{FLAG-a-1f}''
                            else PostFails (External ''timeout''))\<rparr>"

lemma crash_retry: "lawful_retry no_retry"
  by (auto simp: lawful_retry_def no_retry_def split: option.split attempt_error.split)

lemma crash_trimmed: "TrimSpace u [CHR ''a'', CHR 0x0A] = ''a''"
  by (simp add: TrimSpace_ascii ascii_space_def)

lemma crash_connection:
  "\<exists>out files. doHandleConnection u crash_checker crash_env = (out, files, None)"
proof -
  have last: "lastTaskName ''a'' = ''a''"
    unfolding lastTaskName_def ReplaceAll_char by (simp add: path_Base_def slash_def)
  have exe: "executablePath crash_checker ''a'' = ''bin/ctf_a''"
    unfolding executablePath_def last ReplaceAll_char by (simp add: crash_checker_def path_Join_def path_Clean_def slash_def Let_def)
  have "json_text ''a'' = ''a''" "json_text ''tt'' = ''tt''" by (simp_all add: json_text_ascii)
  then have flag: "fetchFlag no_retry (sePost crash_env) crash_checker ''a'' = Inr ''{FLAG-a-1f}''"
    by (simp add: fetchFlag_def no_retry_def doFetchFlag_def crash_env_def crash_checker_def)
  have reads: "slowReadFirstLine u MaxFirstLineSizeE (seReads crash_env) [] = ([Byte (CHR ''x'')], Inr ''a'')"
    using slowReadFirstLine_line [of "''a''" 100 u "[Byte (CHR ''x'')]" "[]"]
    by (simp add: crash_env_def MaxFirstLineSizeE_def crash_trimmed)
  have "isRegularFile (seStat crash_env) (executablePath crash_checker ''a'')"
    unfolding exe by (simp add: isRegularFile_def crash_env_def crash_stat_def)
  moreover have "seSlot crash_env = Free" "seCreate crash_env path = None" "sePipe crash_env pipe = None" "seReport crash_env = None"
    "seRetry crash_env = no_retry" "rnExit (seProcess crash_env e input) = Crashes 11 ''signal: segmentation fault''" for path pipe e input
    by (simp_all add: crash_env_def)
  ultimately show ?thesis
    using reads flag by (simp add: doHandleConnection_def run_task_def Let_def newCommandProxy_def SIGINT_def)
qed

lemma crash_flag_issued_witness:
  "\<exists>task flag. isTokenValid course_server (json_text ''tt'') \<and> knows_task course_server task \<and> issued task flag"
proof -
  obtain out files where "doHandleConnection (scrUnicode board_scorer) crash_checker crash_env = (out, files, None)"
    using crash_connection by blast
  moreover have "newChecker (\<lambda>path. None) crash_stat ''bin'' ''submits'' 16 ''url'' ''tt'' = Ret crash_checker"
    by (simp add: newChecker_def isDirectory_def crash_stat_def crash_checker_def)
  moreover have "crash_stat [] = Missing" "lawful_retry (seRetry crash_env)"
    using crash_retry by (simp_all add: crash_stat_def crash_env_def)
  moreover have "served course_server req st flag" if "sePost crash_env k ''url'' req = Answer st flag" for k req st flag
  proof -
    have "lawful_driver (cnDriver (course_conn ''1f''))" "db_ok (wbDB (newServer course_db))"
      by (simp_all add: course_conn_def mem_driver_lawful newServer_def course_db_ok)
    moreover have "rqFlag flag_request = Inr req" "st = \<lparr>asOk = True, asError = []\<rparr>" "flag = ''{FLAG-a-1f}''"
      using that by (auto simp: crash_env_def flag_request_def split: if_splits)
    ultimately show ?thesis unfolding served_def using course_createFlag by fastforce
  qed
  ultimately show ?thesis
    using crash_flag_issued [of "\<lambda>path. None" crash_stat "''bin''" "''submits''" 16 "''url''" "''tt''" crash_checker crash_env course_server]
    by (fastforce simp: crash_env_def Let_def)
qed

end
