(* ===== verification/GoFlag.thy ===== *)
theory GoFlag
  imports GoStrings
begin

text \<open>
  Go's package \<open>flag\<close> as the programs use it, with flags for strings and for integers: \<open>Parse\<close> with the policy to exit
  on an error, and the reading of integers by \<open>strconv.ParseInt\<close> with the base taken from the text. What is printed is left out.
\<close>

section \<open>Integers\<close>

text \<open>The letter in lower case, as a number.\<close>

definition lower :: "char \<Rightarrow> int" where
  "lower ch = (let b = of_char ch in if 65 \<le> b \<and> b \<le> 90 then b + 32 else b)"

definition digit_of :: "char \<Rightarrow> int option" where
  "digit_of ch =
     (let b = of_char ch in
      if 48 \<le> b \<and> b \<le> 57 then Some (b - 48)
      else if 97 \<le> lower ch \<and> lower ch \<le> 122 then Some (lower ch - 97 + 10)
      else None)"

text \<open>The value of the digits, without underscores. Range is looked at in the end: a value never gets smaller.\<close>

fun base_value :: "int \<Rightarrow> int \<Rightarrow> string \<Rightarrow> int option" where
  "base_value b acc [] = Some acc"
| "base_value b acc (ch # s) =
     (if ch = CHR ''_'' then base_value b acc s
      else case digit_of ch of
             None \<Rightarrow> None
           | Some d \<Rightarrow> if b \<le> d then None else base_value b (b * acc + d) s)"

text \<open>The base, and the text behind the prefix that names it.\<close>

definition base_of :: "string \<Rightarrow> int \<times> string" where
  "base_of s =
     (case s of
        CHR ''0'' # p # q # r \<Rightarrow>
          if lower p = 98 then (2, q # r) else if lower p = 111 then (8, q # r) else if lower p = 120 then (16, q # r)
          else (8, p # q # r)
      | CHR ''0'' # r \<Rightarrow> (8, r)
      | _ \<Rightarrow> (10, s))"

text \<open>Underscores separate digits; the prefix counts as a digit.\<close>

datatype seen = Nothing | Digit | Underscore | Other

fun underscores_ok :: "bool \<Rightarrow> seen \<Rightarrow> string \<Rightarrow> bool" where
  "underscores_ok hex saw [] = (saw \<noteq> Underscore)"
| "underscores_ok hex saw (ch # s) =
     (if is_digit ch \<or> hex \<and> 97 \<le> lower ch \<and> lower ch \<le> 102 then underscores_ok hex Digit s
      else if ch = CHR ''_'' then saw = Digit \<and> underscores_ok hex Underscore s
      else saw \<noteq> Underscore \<and> underscores_ok hex Other s)"

definition underscoreOK :: "string \<Rightarrow> bool" where
  "underscoreOK s =
     (case s of
        CHR ''0'' # p # r \<Rightarrow>
          if lower p = 98 \<or> lower p = 111 \<or> lower p = 120 then underscores_ok (lower p = 120) Digit r
          else underscores_ok False Nothing s
      | _ \<Rightarrow> underscores_ok False Nothing s)"

text \<open>Nothing for an error of the syntax or of the range.\<close>

definition ParseUint :: "string \<Rightarrow> int option" where
  "ParseUint s =
     (if s = [] then None
      else case base_of s of
             (b, r) \<Rightarrow>
               (case base_value b 0 r of
                  None \<Rightarrow> None
                | Some n \<Rightarrow> if CHR ''_'' \<in> set r \<and> \<not> underscoreOK s then None else Some n))"

definition ParseInt :: "string \<Rightarrow> int option" where
  "ParseInt s =
     (case s of
        [] \<Rightarrow> None
      | ch # r \<Rightarrow>
          (let neg = (ch = CHR ''-'') in
           case ParseUint (if ch = CHR ''+'' \<or> neg then r else s) of
             None \<Rightarrow> None
           | Some n \<Rightarrow>
               if \<not> neg \<and> 2 ^ 63 \<le> n \<or> neg \<and> 2 ^ 63 < n then None else Some (if neg then - n else n)))"

lemma base_value_nonneg: "base_value b acc s = Some n \<Longrightarrow> 0 \<le> acc \<Longrightarrow> 0 \<le> b \<Longrightarrow> 0 \<le> n"
proof (induction b acc s rule: base_value.induct)
  case (2 b acc ch s)
  have "0 \<le> d" if "digit_of ch = Some d" for d using that by (auto simp: digit_of_def Let_def split: if_splits)
  with 2 show ?case by (auto split: if_splits option.splits)
qed simp

lemma base_of_pos: "0 \<le> fst (base_of s)"
  by (auto simp: base_of_def split: list.split char.split bool.split)

lemma ParseInt_range: "ParseInt s = Some i \<Longrightarrow> - (2 ^ 63) \<le> i \<and> i < 2 ^ 63"
proof -
  have "0 \<le> n" if "ParseUint r = Some n" for r n
    using that base_value_nonneg base_of_pos [of r] by (auto simp: ParseUint_def split: if_splits prod.splits option.splits)
  then show "ParseInt s = Some i \<Longrightarrow> - (2 ^ 63) \<le> i \<and> i < 2 ^ 63"
    by (force simp: ParseInt_def Let_def split: list.splits option.splits if_splits)
qed

section \<open>The command line\<close>

text \<open>What an argument is: no flag, the end of the flags, an error, or a flag that may have its value behind an equals sign.\<close>

datatype flag_arg = NoFlag | EndOfFlags | BadSyntax | NamedFlag string "string option"

fun split_value :: "string \<Rightarrow> string \<times> string option" where
  "split_value [] = ([], None)"
| "split_value (ch # s) =
     (if ch = CHR ''='' then ([], Some s) else case split_value s of (name, v) \<Rightarrow> (ch # name, v))"

definition flag_arg :: "string \<Rightarrow> flag_arg" where
  "flag_arg s =
     (case s of
        p # q # r \<Rightarrow>
          if p \<noteq> CHR ''-'' then NoFlag
          else if q = CHR ''-'' \<and> r = [] then EndOfFlags
          else (case (if q = CHR ''-'' then r else q # r) of
                  [] \<Rightarrow> BadSyntax
                | ch # t \<Rightarrow>
                    if ch = CHR ''-'' \<or> ch = CHR ''='' then BadSyntax
                    else (case split_value t of (n, v) \<Rightarrow> NamedFlag (ch # n) v))
      | _ \<Rightarrow> NoFlag)"

text \<open>
  \<open>Parse\<close> over the settings: each flag has a function that sets it, which may refuse the value. The result has the arguments that
  are left, or the program has ended with a status, 0 when help was asked for.
\<close>

type_synonym 'v formal = "string \<rightharpoonup> (string \<Rightarrow> 'v \<Rightarrow> 'v option)"

datatype 'v parsed = Parsed 'v "string list" | ExitStatus nat

fun flag_Parse :: "'v formal \<Rightarrow> string list \<Rightarrow> 'v \<Rightarrow> 'v parsed" where
  "flag_Parse formal [] v = Parsed v []"
| "flag_Parse formal (s # args) v =
     (case flag_arg s of
        NoFlag \<Rightarrow> Parsed v (s # args)
      | EndOfFlags \<Rightarrow> Parsed v args
      | BadSyntax \<Rightarrow> ExitStatus 2
      | NamedFlag name val \<Rightarrow>
          (case formal name of
             None \<Rightarrow> ExitStatus (if name = ''help'' \<or> name = ''h'' then 0 else 2)
           | Some set_flag \<Rightarrow>
               (case (val, args) of
                  (Some x, _) \<Rightarrow> (case set_flag x v of None \<Rightarrow> ExitStatus 2 | Some v' \<Rightarrow> flag_Parse formal args v')
                | (None, []) \<Rightarrow> ExitStatus 2
                | (None, x # args') \<Rightarrow>
                    (case set_flag x v of None \<Rightarrow> ExitStatus 2 | Some v' \<Rightarrow> flag_Parse formal args' v'))))"

text \<open>What every setting keeps, the parsed flags have.\<close>

lemma flag_Parse_keeps:
  assumes "flag_Parse formal args v = Parsed v' rest" "P v"
    and "\<And>name set_flag x u u'. formal name = Some set_flag \<Longrightarrow> set_flag x u = Some u' \<Longrightarrow> P u \<Longrightarrow> P u'"
  shows "P v'"
  using assms
proof (induction formal args v rule: flag_Parse.induct)
  case (2 formal s args v)
  from 2(3) consider name val set_flag x args' u where "flag_arg s = NamedFlag name val" "formal name = Some set_flag"
    "set_flag x v = Some u" "flag_Parse formal args' u = Parsed v' rest" "val = Some x \<and> args' = args \<or> val = None \<and> args = x # args'"
    | "v' = v"
    by (auto split: flag_arg.splits option.splits list.splits)
  then show ?case
  proof cases
    case 1
    from 2(5) [OF 1(2,3) 2(4)] have "P u" .
    from 1(5) show ?thesis
    proof (elim disjE conjE)
      assume "val = Some x" "args' = args"
      with 2(2) [OF 1(1,2) refl] 1(3,4) 2(5) \<open>P u\<close> show ?thesis by blast
    next
      assume "val = None" "args = x # args'"
      with 2(1) [OF 1(1,2) refl] 1(3,4) 2(5) \<open>P u\<close> show ?thesis by blast
    qed
  qed (use 2(4) in simp)
qed simp

text \<open>A string flag, given in one of the two forms, and what follows.\<close>

lemma split_value_name: "CHR ''='' \<notin> set n \<Longrightarrow> split_value n = (n, None)"
  "CHR ''='' \<notin> set n \<Longrightarrow> split_value (n @ CHR ''='' # x) = (n, Some x)"
  by (induction n) auto

lemma flag_arg_name:
  assumes "CHR ''='' \<notin> set n" "ch \<noteq> CHR ''-''" "ch \<noteq> CHR ''=''"
  shows "flag_arg (CHR ''-'' # ch # n) = NamedFlag (ch # n) None"
    and "flag_arg (CHR ''-'' # CHR ''-'' # ch # n) = NamedFlag (ch # n) None"
    and "flag_arg (CHR ''-'' # ch # n @ CHR ''='' # x) = NamedFlag (ch # n) (Some x)"
  using assms by (simp_all add: flag_arg_def split_value_name)

end
