(* ===== verification/Mains.thy ===== *)
theory Mains
  imports Shutdown System CrashmeSpec GoFlag
begin

text \<open>
  The functions \<open>main\<close> of the server (\<open>cmd/web\<close>) and of \<open>cmd/crashme\<close>, from the arguments of the command line to the status of the
  program. The two programs for users are in \<open>CommandLine\<close>.
\<close>

section \<open>The server\<close>

text \<open>The only flag is the path of the configuration, which package \<open>conf\<close> declares.\<close>

definition web_flags :: "string formal" where
  "web_flags = map_of [(''config'', \<lambda>x path. Some x)]"

definition exit_status :: "unit outcome \<Rightarrow> nat" where
  "exit_status r = (case r of Ret _ \<Rightarrow> 0 | Fail e \<Rightarrow> 1 | Panic m \<Rightarrow> 2)"

text \<open>The goroutines that were started, the server, and the status with which the program ends, if it ends.\<close>

definition web_main :: "libraries \<Rightarrow> string list \<Rightarrow> goroutine list \<times> (web_server \<times> web) option \<times> nat" where
  "web_main lb args =
     (case flag_Parse web_flags args [] of
        ExitStatus n \<Rightarrow> ([], None, n)
      | Parsed path rest \<Rightarrow> (case web_Run lb path of (started, srv, res) \<Rightarrow> (started, srv, exit_status res)))"

lemma web_main_path:
  "web_main lb [] = (case web_Run lb [] of (started, srv, res) \<Rightarrow> (started, srv, exit_status res))"
  "web_main lb [''-config'', path] = (case web_Run lb path of (started, srv, res) \<Rightarrow> (started, srv, exit_status res))"
  "web_main lb [''--config='' @ path] = (case web_Run lb path of (started, srv, res) \<Rightarrow> (started, srv, exit_status res))"
  by (simp_all add: web_main_def web_flags_def flag_arg_def)

text \<open>The program serves only with all goroutines, and ends with status 1 when one of its parts cannot be made.\<close>

lemma web_main_status:
  assumes "web_main lb args = (started, srv, status)"
  shows "srv = None \<and> started = [] \<or> srv \<noteq> None \<and> started = goroutines"
    and "build_parts lb path = Fail e \<Longrightarrow> flag_Parse web_flags args [] = Parsed path rest \<Longrightarrow> srv = None \<and> status = 1"
  using assms by (auto simp: web_main_def web_Run_def exit_status_def split: parsed.splits prod.splits outcome.splits)

text \<open>
  What the program builds is where the system of \<open>System\<close> starts: on a database that is sound, everything that the started server and
  its goroutines reach is.
\<close>

lemma web_main_served:
  assumes "web_main lb args = (started, Some (srv, w), status)"
  shows "\<exists>p. build_parts lb (case flag_Parse web_flags args [] of Parsed path rest \<Rightarrow> path | _ \<Rightarrow> []) = Ret p
    \<and> srv = server_of lb (ptConfig p) (ptDeadlines p) (ptGitlab p) \<and> w = newServer (ptDB p)"
  using assms by (auto simp: web_main_def web_Run_def run_parts_def Let_def split: parsed.splits prod.splits outcome.splits)

lemma started_invariant:
  assumes "web_main lb args = (started, Some (srv, w), status)" "data_ok (wbDB w)"
    and "(system_step (wsGitlab srv) sv)\<^sup>*\<^sup>* \<lparr>syWeb = w, syMaker = NewProjectsMaker interval, syLog = []\<rparr> s"
  shows "system_ok s"
proof -
  from web_main_served [OF assms(1)] obtain p :: parts where "w = newServer (ptDB p)" by blast
  with assms(2) have "system_ok \<lparr>syWeb = w, syMaker = NewProjectsMaker interval, syLog = []\<rparr>"
    by (simp add: system_ok_def newServer_def NewProjectsMaker_def waiting_def)
  with assms(3) show ?thesis by (induction rule: rtranclp_induct) (auto intro: system_step_ok)
qed

section \<open>The service for crashes\<close>

record crashme_options =
  coAddress :: string
  coBuild :: string
  coSubmits :: string
  coConcurrency :: int

definition default_options :: crashme_options where
  "default_options = \<lparr>coAddress = '':3333'', coBuild = [], coSubmits = [], coConcurrency = 16\<rparr>"

definition crashme_flags :: "crashme_options formal" where
  "crashme_flags =
     map_of
       [(''address'', \<lambda>x v. Some (v\<lparr>coAddress := x\<rparr>)),
        (''build'', \<lambda>x v. Some (v\<lparr>coBuild := x\<rparr>)),
        (''submits'', \<lambda>x v. Some (v\<lparr>coSubmits := x\<rparr>)),
        (''concurrency'', \<lambda>x v. map_option (\<lambda>i. v\<lparr>coConcurrency := i\<rparr>) (ParseInt x))]"

text \<open>The machine: directories and files, the environment, the listening, and the connections that are accepted.\<close>

record machine =
  mcMkdirAll :: "string \<Rightarrow> gerror option"
  mcStat :: "string \<Rightarrow> file_kind"
  mcGetenv :: "string \<Rightarrow> string"
  mcListen :: "string \<Rightarrow> gerror option"
  mcAccepted :: "(gerror + session_env) list"

datatype 'a ending = Exit nat | Crash string | Serving 'a

text \<open>The program serves, with its checker and the connections that handlers were started for, until something panics.\<close>

definition crashme_main :: "machine \<Rightarrow> string list \<Rightarrow> (checker \<times> (nat \<times> session_env option) list) ending" where
  "crashme_main mc args =
     (case flag_Parse crashme_flags args default_options of
        ExitStatus n \<Rightarrow> Exit n
      | Parsed v rest \<Rightarrow>
          (case newChecker (mcMkdirAll mc) (mcStat mc) (coBuild v) (coSubmits v) (coConcurrency v)
                  (mcGetenv mc ''CRASHME_URL'') (mcGetenv mc ''CRASHME_TOKEN'') of
             Fail e \<Rightarrow> Crash (error_text e)
           | Panic m \<Rightarrow> Crash m
           | Ret ch \<Rightarrow>
               (case mcListen mc (coAddress v) of
                  Some e \<Rightarrow> Crash (error_text e)
                | None \<Rightarrow>
                    (case accept_loop acceptErrorsBudget 0 (mcAccepted mc) of
                       Ret started \<Rightarrow> Serving (ch, started)
                     | Fail e \<Rightarrow> Crash (error_text e)
                     | Panic m \<Rightarrow> Crash m))))"

lemma accept_loop_numbers:
  "accept_loop budget n accepted = Ret started \<Longrightarrow> map fst started = [n..<n + length accepted]"
proof (induction budget n accepted arbitrary: started rule: accept_loop.induct)
  case (2 budget n e accepted)
  then obtain rest where "accept_loop (budget - 1) (n + 1) accepted = Ret rest" "started = (n, None) # rest" "budget \<noteq> 0"
    by (auto split: if_splits)
  with 2(1) show ?case by (simp add: upt_conv_Cons del: upt_Suc)
next
  case (3 budget n conn accepted)
  then obtain rest where "accept_loop (if budget < acceptErrorsBudget then budget + 1 else budget) (n + 1) accepted = Ret rest"
    "started = (n, Some conn) # rest" by auto
  with 3(1) show ?case by (simp add: upt_conv_Cons del: upt_Suc)
qed simp

text \<open>
  The program serves only from a directory of binaries that is there, into a directory of submissions that could be made, with a
  number of slots in the range of \<open>int64\<close>, and with the URL and the token of its environment; the connections are numbered in the order
  of their arrival. Otherwise it ends with a status or a panic.
\<close>

lemma crashme_main_serves:
  assumes "crashme_main mc args = Serving (ch, started)"
  shows "isDirectory (mcStat mc) (chBinaries ch) \<and> mcMkdirAll mc (chSubmits ch) = None
    \<and> - (2 ^ 63) \<le> chConcurrency ch \<and> chConcurrency ch < 2 ^ 63
    \<and> chURL ch = mcGetenv mc ''CRASHME_URL'' \<and> chToken ch = mcGetenv mc ''CRASHME_TOKEN''
    \<and> map fst started = [0..<length (mcAccepted mc)]"
proof -
  from assms obtain v rest where v: "flag_Parse crashme_flags args default_options = Parsed v rest"
    and ch: "newChecker (mcMkdirAll mc) (mcStat mc) (coBuild v) (coSubmits v) (coConcurrency v)
      (mcGetenv mc ''CRASHME_URL'') (mcGetenv mc ''CRASHME_TOKEN'') = Ret ch"
    and loop: "accept_loop acceptErrorsBudget 0 (mcAccepted mc) = Ret started"
    by (auto simp: crashme_main_def split: parsed.splits outcome.splits option.splits)
  have "- (2 ^ 63) \<le> coConcurrency v \<and> coConcurrency v < 2 ^ 63"
  proof (rule flag_Parse_keeps [OF v, where P = "\<lambda>v. - (2 ^ 63) \<le> coConcurrency v \<and> coConcurrency v < 2 ^ 63"])
    fix name set_flag x u u'
    assume "crashme_flags name = Some set_flag" "set_flag x u = Some u'" "- (2 ^ 63) \<le> coConcurrency u \<and> coConcurrency u < 2 ^ 63"
    then show "- (2 ^ 63) \<le> coConcurrency u' \<and> coConcurrency u' < 2 ^ 63"
      using ParseInt_range [of x] by (auto simp: crashme_flags_def split: if_splits)
  qed (simp add: default_options_def)
  with ch accept_loop_numbers [OF loop] show ?thesis by (auto simp: newChecker_def split: option.splits if_splits)
qed

text \<open>A number of slots that is not one ends the program, a hexadecimal one with underscores is fine.\<close>

lemma concurrency_examples:
  "crashme_main mc [''-concurrency'', ''many''] = Exit 2"
  "crashme_main mc [''-h''] = Exit 0"
  "ParseInt ''0x_1F'' = Some 31" "ParseInt ''1__0'' = None" "ParseInt ''-0b101'' = Some (- 5)" "ParseInt ''08'' = None"
  by (simp_all add: crashme_main_def crashme_flags_def flag_arg_def ParseInt_def ParseUint_def base_of_def lower_def digit_of_def
      underscoreOK_def is_digit_def)

end
