(* ===== verification/Targz.thy ===== *)
theory Targz
  imports GoStrings "HOL-Library.Word"
begin

text \<open>
  Package \<open>pkg/targz\<close>, which unpacks a compressed archive through a visitor. Nothing in the program calls it. The decompression
  and the archive format are parameters: an archive is what the library \<open>archive/tar\<close> answers to the calls of \<open>Next\<close> and \<open>Read\<close>.
\<close>

section \<open>Archives and visitors\<close>

record file_info =
  fiName :: string
  fiMode :: "32 word"
  fiIsDir :: bool

text \<open>
  A read returns bytes and, at the same time, possibly the end of the file or an error. After the listed reads the file is at
  its end, and after the listed entries the archive is.
\<close>

datatype read_end = EOF | ReadError gerror

type_synonym reads = "(string \<times> read_end option) list"

datatype tar_next = Entry file_info reads | NextError gerror

text \<open>What the visitor and the writers it returns are asked; an answer may depend on all that was asked before, latest first.\<close>

datatype visit = VisitDirectory file_info | VisitFile file_info | Write file_info string | Close file_info

record visitor =
  viVisit :: "visit list \<Rightarrow> gerror option"
  viWrite :: "visit list \<Rightarrow> nat \<times> gerror option"

section \<open>Extract\<close>

fun copy_reads :: "visitor \<Rightarrow> file_info \<Rightarrow> reads \<Rightarrow> visit list \<Rightarrow> visit list \<times> unit outcome" where
  "copy_reads v info [] asked = (asked, Ret ())"
| "copy_reads v info ((buf, Some EOF) # reads) asked = (asked, Ret ())"
| "copy_reads v info ((buf, Some (ReadError e)) # reads) asked = (asked, Fail e)"
| "copy_reads v info ((buf, None) # reads) asked =
     (let asked' = Write info buf # asked in
      case viWrite v asked' of
        (written, Some e) \<Rightarrow> (asked', Fail e)
      | (written, None) \<Rightarrow>
          if written < length buf then (asked', Fail (Errorf (''failed to write '' @ Itoa (int (length buf)) @ '' bytes'')))
          else copy_reads v info reads asked')"

definition ask :: "visitor \<Rightarrow> visit \<Rightarrow> visit list \<Rightarrow> visit list \<times> unit outcome" where
  "ask v q asked = (q # asked, case viVisit v (q # asked) of None \<Rightarrow> Ret () | Some e \<Rightarrow> Fail e)"

text \<open>Two steps in a row, the second only if the first succeeds.\<close>

definition then_ask ::
  "visit list \<times> unit outcome \<Rightarrow> (visit list \<Rightarrow> visit list \<times> unit outcome) \<Rightarrow> visit list \<times> unit outcome" where
  "then_ask r f = (case r of (asked, Ret _) \<Rightarrow> f asked | (asked, Fail e) \<Rightarrow> (asked, Fail e) | (asked, Panic m) \<Rightarrow> (asked, Panic m))"

text \<open>The files whose closing is deferred are passed along, latest first; they are closed, a second time, when the function returns.\<close>

fun extract_entries ::
  "visitor \<Rightarrow> tar_next list \<Rightarrow> file_info list \<Rightarrow> visit list \<Rightarrow> file_info list \<times> visit list \<times> unit outcome" where
  "extract_entries v [] deferred asked = (deferred, asked, Ret ())"
| "extract_entries v (NextError e # rest) deferred asked = (deferred, asked, Fail e)"
| "extract_entries v (Entry info reads # rest) deferred asked =
     (if fiIsDir info then
        (case ask v (VisitDirectory info) asked of
           (asked', Ret _) \<Rightarrow> extract_entries v rest deferred asked'
         | r \<Rightarrow> (deferred, r))
      else
        (case ask v (VisitFile info) asked of
           (asked', Ret _) \<Rightarrow>
             (case then_ask (copy_reads v info reads asked') (ask v (Close info)) of
                (asked'', Ret _) \<Rightarrow> extract_entries v rest (info # deferred) asked''
              | r \<Rightarrow> (info # deferred, r))
         | r \<Rightarrow> (deferred, r)))"

definition Extract :: "gerror option \<Rightarrow> tar_next list \<Rightarrow> visitor \<Rightarrow> visit list \<times> unit outcome" where
  "Extract newGzipReader entries v =
     (case newGzipReader of
        Some e \<Rightarrow> ([], Fail e)
      | None \<Rightarrow>
          (case extract_entries v entries [] [] of
             (deferred, asked, res) \<Rightarrow> (rev (map Close deferred) @ asked, res)))"

text \<open>
  The visitor of directories: it makes one with the last element of the entry's name in the working directory; the field \<open>root\<close> of
  the visitor is not used. The one of files does not compile.
\<close>

definition fsVisitor_VisitDirectory :: "(string \<Rightarrow> 32 word \<Rightarrow> gerror option) \<Rightarrow> file_info \<Rightarrow> unit outcome" where
  "fsVisitor_VisitDirectory mkdirAll info =
     (case mkdirAll (fiName info) (fiMode info) of Some e \<Rightarrow> Fail e | None \<Rightarrow> Ret ())"

text \<open>The directory is made with the permissions 0755, and then nothing is extracted; an error is dropped.\<close>

definition ExtractToDir :: "(string \<Rightarrow> 32 word \<Rightarrow> gerror option) \<Rightarrow> string \<Rightarrow> unit outcome" where
  "ExtractToDir mkdirAll path = (case mkdirAll path 493 of Some e \<Rightarrow> Ret () | None \<Rightarrow> Ret ())"

section \<open>What is written\<close>

fun written_to :: "file_info \<Rightarrow> visit list \<Rightarrow> string" where
  "written_to info [] = []"
| "written_to info (Write i buf # asked) = written_to info asked @ (if i = info then buf else [])"
| "written_to info (q # asked) = written_to info asked"

text \<open>The bytes of the reads that come without an end.\<close>

definition before_end :: "reads \<Rightarrow> string" where
  "before_end reads = concat (map fst (takeWhile (\<lambda>r. snd r = None) reads))"

text \<open>The content of a file, by the contract of \<open>io.Reader\<close>: the bytes that come together with the end belong to it.\<close>

fun content :: "reads \<Rightarrow> string" where
  "content [] = []"
| "content ((buf, None) # reads) = buf @ content reads"
| "content ((buf, Some e) # reads) = buf"

lemma copy_reads_written:
  "copy_reads v info reads asked = (asked', Ret ()) \<Longrightarrow> written_to i asked' = written_to i asked @ (if i = info then before_end reads else [])"
  by (induction v info reads asked rule: copy_reads.induct)
    (auto simp: before_end_def Let_def split: prod.splits option.splits if_splits)

lemma content_before_end: "content reads = before_end reads \<longleftrightarrow> (\<forall>buf e. find (\<lambda>r. snd r \<noteq> None) reads = Some (buf, e) \<longrightarrow> buf = [])"
  by (induction reads rule: content.induct) (auto simp: before_end_def)

lemma ask_written: "ask v (VisitDirectory i) asked = (asked', res) \<Longrightarrow> written_to j asked' = written_to j asked"
    "ask v (VisitFile i) asked = (asked', res) \<Longrightarrow> written_to j asked' = written_to j asked"
    "ask v (Close i) asked = (asked', res) \<Longrightarrow> written_to j asked' = written_to j asked"
  by (auto simp: ask_def)

fun entry_bytes :: "file_info \<Rightarrow> tar_next \<Rightarrow> string" where
  "entry_bytes i (Entry info reads) = (if i = info \<and> \<not> fiIsDir info then before_end reads else [])"
| "entry_bytes i (NextError e) = []"

lemma extract_entries_written:
  "extract_entries v entries deferred asked = (deferred', asked', Ret ()) \<Longrightarrow>
     written_to i asked' = written_to i asked @ concat (map (entry_bytes i) entries)"
proof (induction v entries deferred asked rule: extract_entries.induct)
  case (3 v info reads rest deferred asked)
  show ?case
  proof (cases "fiIsDir info")
    case True
    with 3 show ?thesis by (auto split: prod.splits outcome.splits dest: ask_written)
  next
    case False
    with 3(3) obtain a1 where a1: "ask v (VisitFile info) asked = (a1, Ret ())"
      by (auto split: prod.splits outcome.splits)
    with False 3(3) obtain a2 where a2: "then_ask (copy_reads v info reads a1) (ask v (Close info)) = (a2, Ret ())"
        "extract_entries v rest (info # deferred) a2 = (deferred', asked', Ret ())"
      by (auto split: prod.splits outcome.splits)
    then obtain a3 where a3: "copy_reads v info reads a1 = (a3, Ret ())" "ask v (Close info) a3 = (a2, Ret ())"
      by (auto simp: then_ask_def split: prod.splits outcome.splits)
    have "written_to i a2 = written_to i asked @ (if i = info then before_end reads else [])"
      using ask_written(2) [OF a1] ask_written(3) [OF a3(2)] copy_reads_written [OF a3(1)] by simp
    with 3(2) [OF False a1 [symmetric] refl a2(1) [symmetric] refl a2(2)] False show ?thesis by auto
  qed
qed auto

lemma written_to_closes: "written_to i (rev (map Close infos) @ asked) = written_to i asked"
  by (induction infos arbitrary: asked) simp_all

text \<open>
  An extraction that reports success has written to each file, in order, the bytes of the reads before the one that reports
  the end. So it has written the content of the archive only if every end comes without bytes, which the contract of the reader does not
  promise.
\<close>

theorem Extract_writes:
  assumes "Extract gz entries v = (asked, Ret ())"
  shows "written_to i asked = concat (map (entry_bytes i) entries)"
proof -
  from assms obtain deferred asked' where "extract_entries v entries [] [] = (deferred, asked', Ret ())"
      "asked = rev (map Close deferred) @ asked'"
    by (auto simp: Extract_def split: option.splits prod.splits)
  with extract_entries_written [of v entries "[]" "[]" deferred asked' i] show ?thesis by (simp add: written_to_closes)
qed

text \<open>The reader of \<open>archive/tar\<close> returns the last bytes of a file together with the end: a small file is written empty.\<close>

definition sample_file :: file_info where "sample_file = \<lparr>fiName = ''a'', fiMode = 420, fiIsDir = False\<rparr>"
definition willing :: visitor where "willing = \<lparr>viVisit = (\<lambda>asked. None), viWrite = (\<lambda>asked. (100, None))\<rparr>"

lemma sample_extract:
  "\<exists>asked. Extract None [Entry sample_file [(''abc'', Some EOF)], Entry sample_file [(''xy'', None), (''z'', None)]] willing = (asked, Ret ())"
  by (simp add: Extract_def ask_def then_ask_def willing_def sample_file_def)

lemma Extract_writes_witness:
  "\<exists>asked. Extract None [Entry sample_file [(''abc'', Some EOF)], Entry sample_file [(''xy'', None), (''z'', None)]] willing = (asked, Ret ())
     \<and> written_to sample_file asked = ''xyz'' \<and> content [(''abc'', Some EOF)] = ''abc''"
proof -
  from sample_extract obtain asked where
    "Extract None [Entry sample_file [(''abc'', Some EOF)], Entry sample_file [(''xy'', None), (''z'', None)]] willing = (asked, Ret ())" ..
  with Extract_writes [OF this, of sample_file] show ?thesis by (simp add: before_end_def sample_file_def)
qed

end
