(* ===== verification/Spec2Isabelle.thy ===== *)
theory Spec2Isabelle
  imports ScorerBoard Interleaving WebFlags WebSpec CrashProxy Dates FuzzSpec CommandLineSpec Mains Targz
begin

text \<open>
  A verification development for notmanytask, the server that tracks the homework of a programming course, and for the
  programs around it.

  \<^bold>\<open>The program.\<close> A student registers on the web with the secret of a group and links a GitLab account; a background
  goroutine makes the student's GitLab project. The student pushes a branch for each task, GitLab runs a pipeline, two
  more goroutines copy the pipelines to the database, and the scores of a student are computed from the pipelines, the flags that were
  submitted, the overrides of the teachers, and the course plan, which a fourth goroutine fetches. A service lets students crash
  programs and hands out flags for it; a client on the command line, a Telegram bot and a fuzzing driver serve the teachers.

  \<^bold>\<open>Conventions.\<close> A struct is a record with a prefix on its fields, an enumeration or an error a datatype, a Go map a map or an
  association list, an \<open>int\<close> that is computed with a 64-bit word, a \<open>float64\<close> the type \<open>f64\<close> of rationals with
  rounding, a string the list of its bytes, a time the number of nanoseconds. A function that can fail has a result of type \<open>outcome\<close>
  with the values \<open>Ret\<close>, \<open>Fail\<close> (the error it returns) and \<open>Panic\<close>; one that changes state takes and returns it. The entries of the log are left out.

  \<^bold>\<open>Theories and sources.\<close>
  \<^item> Prelude: outcomes, errors, searching for a best element. GoFloat: double precision arithmetic. GoStrings, GoText, GoTime, GoRegexp,
    GoFlag: the parts of Go's library that the program uses, strings and UTF-8, paths, the calendar, regular expressions
    with their languages, and the parsing of flags.
  \<^item> Models (internal/models, internal/config): the rows of the tables and the groups of the configuration.
  \<^item> Scoring, Deadlines, Dates (internal/deadlines/scoring.go, deadlines.go): the scoring policies, the course plan with the computation
    of its groups, and the reading and printing of dates.
  \<^item> Fetcher (internal/deadlines/fetcher.go): fetching and reloading the plans of all groups.
  \<^item> Database, DatabaseHistory, DatabaseFrame (internal/database/database.go): every operation on the tables, the laws of the SQL
    driver, what holds over any sequence of operations, and what each operation leaves alone.
  \<^item> Scorer, ScorerSpec, ScorerBoard (internal/scorer): the scores of a student, their specification, and the scoreboard.
  \<^item> Gitlab, GitlabSpec (internal/gitlab/gitlab.go): names and links, and making a project as a conversation with the GitLab
    server, whose answers may depend on all requests so far.
  \<^item> Pipelines, PipelinesSpec (internal/gitlab/pipelines.go): the pass over all projects and the polling of fresh pipelines. The loop
    over pages is a locale, interpreted on both listings.
  \<^item> Projects (internal/gitlab/projects.go): the goroutine that makes projects, as a step relation with its channel and timer, from
    its first pass to its end or its deadlock.
  \<^item> WebBase, WebLogin, WebApi, WebRender, WebServer (internal/web, api): requests, responses, sessions, every handler, and the routes
    with their middleware.
  \<^item> WebAccess, WebSpec, WebFlags, WebSample: what requests may change and with what authority, errors and sessions, the
    life of a flag, and a small server to run requests on.
  \<^item> System: the composition of the server, the goroutines and the GitLab server as one step relation, and its invariant.
  \<^item> Interleaving: the same invariant when the statements of requests and goroutines overlap in any order.
  \<^item> Crashme, CrashmeSpec, CrashProxy (cmd/crashme): the service for crashes, the way of a flag from the server to a student, and the
    goroutines around a process as a step relation.
  \<^item> NmtClient, NmtClientSpec (pkg/client/notmanytask, cmd/cli): the client, and an override from the client to the database.
  \<^item> CommandLine, CommandLineSpec (cmd/cli, cmd/fuzz): the commands with their flags, \<open>main\<close> with its status, and what the status of an
    override tells about the server.
  \<^item> TgBot (internal/tgbot): the bot.
  \<^item> Configuration (internal/config, pkg/conf): the shape of the configuration and the variables that are bound to it.
  \<^item> Startup, StartupSpec (internal/web/run.go, server.go, oauth.go, internal/gitlab/oauth.go): the database's address,
    the OAuth client, and the start of the server from its parts; the loops of the pipelines fetcher over their ticks.
  \<^item> Logging (pkg/log, internal/logfield): the logger, its fields, and the rotation of its file on a signal as a step relation.
  \<^item> Shutdown (internal/web/run.go): the end of the program, with the deferred calls, the five goroutines and the channel of the
    projects as one step relation. Mains (cmd/web, cmd/crashme): the two functions \<open>main\<close> with their flags.
  \<^item> Fuzz, FuzzSpec (cmd/fuzz): downloading, building and fuzzing the submissions of a task.
  \<^item> Targz (pkg/targz): unpacking an archive through a visitor, which nothing calls.

  \<^bold>\<open>Lemmas.\<close> The database theories carry most of the rest: \<open>evolves\<close> relates a database to a later one and is kept by every
  operation, the collection \<open>db_frame\<close> and the lemmas \<open>_rows\<close> say what an operation does to each table. A property of all requests
  is proved for each handler and combined over the table of routes. Loops over lists of rows are described by what they select.

  \<^bold>\<open>Bounds and fuel.\<close> No definition has fuel. The loops over pages are partial functions whose value is None if they never end; that they
  end is proved for every server whose pages make progress. Floating point is exact rounding to double
  precision; the laws of scores assume the sizes of numbers that they state.

  \<^bold>\<open>Parameters.\<close> gorm and Postgres (\<open>sql\<close>, with laws for finding, inserting and updating rows under the unique indexes), the
  GitLab server and client, HTTP and YAML, the Unicode tables beyond ASCII, \<open>math.Exp\<close>, the order in which \<open>sort.Slice\<close> leaves equal
  elements, the library of OAuth, viper, cobra, gin, the signature of Telegram, the cookie store, what the cache evicts, the time zone database, retries of
  \<open>backoff\<close>, and the processes and files of \<open>crashme\<close> and of the fuzzing driver. What is assumed of them is named in each theorem and shown to be possible
  by its witness.

  \<^bold>\<open>Not modelled.\<close> The writing of log entries (zap, lumberjack) and the format of the logs of \<open>cmd/cli\<close> and \<open>cmd/fuzz\<close>, which only set
  options of that library; the templates and static files of the pages; the visitor of files of \<open>pkg/targz\<close>, which does not compile. But for the
  invariant of Interleaving, the properties of requests are those of a request that runs alone; what goroutines share in memory (the cache of
  standings, the current plans, the list of fresh pipelines) is changed in single steps, as the libraries promise.
\<close>

end
